(* ===== verification/Prelude.thy ===== *)
theory Prelude
  imports Main "HOL-Library.AList"
begin

text \<open>
  What every component shares.

  \<^item> \<open>flow\<close> and \<open>prog\<close>: a Go function with side effects is a function from the state of the
    world to the way its control flow ends, the events (calls to the outside) it issued, in
    order, and the state it leaves.  \<open>Next\<close> is falling through to the next statement,
    \<open>Return\<close> a \<open>return\<close> statement of the function the statement stands in, \<open>Panic\<close> a
    run-time panic, \<open>Hang\<close> a loop that never ends.
  \<^item> \<open>bnd\<close>, \<open>foreach\<close> and \<open>scope\<close>: sequencing, \<open>for _, x := range xs\<close> and the
    boundary of a function call, which turns a \<open>Return\<close> of the callee into a value for
    the caller.
  \<^item> \<open>sat\<close>: the Hoare triple the component proofs use, with the collection
    \<open>sat_intros\<close> of its rules: every event satisfies \<open>P\<close>, every value the program falls
    through with satisfies \<open>V\<close> and every value it returns satisfies \<open>R\<close>.
  \<^item> Go's maps as association lists with \<open>nil\<close> as \<open>None\<close>, and \<open>addmap\<close>-style updates.
\<close>

section \<open>Control flow\<close>

datatype ('r, 'a) flow = Next 'a | Return 'r | Panic string | Hang

type_synonym ('s, 'e, 'r, 'a) prog = "'s \<Rightarrow> ('r, 'a) flow \<times> 'e list \<times> 's"

definition ret :: "'a \<Rightarrow> ('s, 'e, 'r, 'a) prog" where
  "ret x = (\<lambda>s. (Next x, [], s))"

definition return :: "'r \<Rightarrow> ('s, 'e, 'r, 'a) prog" where
  "return r = (\<lambda>s. (Return r, [], s))"

definition panic :: "string \<Rightarrow> ('s, 'e, 'r, 'a) prog" where
  "panic p = (\<lambda>s. (Panic p, [], s))"

definition bnd :: "('s, 'e, 'r, 'a) prog \<Rightarrow> ('a \<Rightarrow> ('s, 'e, 'r, 'b) prog) \<Rightarrow> ('s, 'e, 'r, 'b) prog" where
  "bnd m f = (\<lambda>s. case m s of (o1, es, s') \<Rightarrow>
     (case o1 of
        Next x \<Rightarrow> (case f x s' of (o2, es', s'') \<Rightarrow> (o2, es @ es', s''))
      | Return r \<Rightarrow> (Return r, es, s')
      | Panic p \<Rightarrow> (Panic p, es, s')
      | Hang \<Rightarrow> (Hang, es, s')))"

text \<open>A statement whose value is not used.\<close>

definition seq :: "('s, 'e, 'r, 'a) prog \<Rightarrow> ('s, 'e, 'r, 'b) prog \<Rightarrow> ('s, 'e, 'r, 'b) prog" where
  "seq m k = bnd m (\<lambda>_. k)"

definition scope :: "('s, 'e, 'a, 'a) prog \<Rightarrow> ('s, 'e, 'r, 'a) prog" where
  "scope m = (\<lambda>s. case m s of (o1, es, s') \<Rightarrow>
     (case o1 of
        Next x \<Rightarrow> (Next x, es, s')
      | Return x \<Rightarrow> (Next x, es, s')
      | Panic p \<Rightarrow> (Panic p, es, s')
      | Hang \<Rightarrow> (Hang, es, s')))"

text \<open>
  \<open>for _, x := range xs\<close> with the loop-carried local \<open>a\<close>.  The range expression is
  evaluated once, at the loop's entry.
\<close>

fun foreach :: "('x \<Rightarrow> 'a \<Rightarrow> ('s, 'e, 'r, 'a) prog) \<Rightarrow> 'x list \<Rightarrow> 'a \<Rightarrow> ('s, 'e, 'r, 'a) prog" where
  "foreach f [] a = ret a"
| "foreach f (x # xs) a = bnd (f x a) (foreach f xs)"

text \<open>The three parts of a run.\<close>

definition outcome :: "('s, 'e, 'r, 'a) prog \<Rightarrow> 's \<Rightarrow> ('r, 'a) flow" where
  "outcome m s = fst (m s)"

definition events :: "('s, 'e, 'r, 'a) prog \<Rightarrow> 's \<Rightarrow> 'e list" where
  "events m s = fst (snd (m s))"

definition final :: "('s, 'e, 'r, 'a) prog \<Rightarrow> 's \<Rightarrow> 's" where
  "final m s = snd (snd (m s))"

lemmas run_defs = outcome_def events_def final_def
lemmas prog_defs = ret_def return_def panic_def bnd_def seq_def scope_def

lemma ret_apply [simp]: "ret x s = (Next x, [], s)"
  by (simp add: ret_def)

lemma return_apply [simp]: "return r s = (Return r, [], s)"
  by (simp add: return_def)

lemma panic_apply [simp]: "panic p s = (Panic p, [], s)"
  by (simp add: panic_def)

lemma bnd_Next: "m s = (Next x, es, s') \<Longrightarrow>
    bnd m f s = (case f x s' of (o2, es', s'') \<Rightarrow> (o2, es @ es', s''))"
  by (simp add: bnd_def)

lemma bnd_Return: "m s = (Return r, es, s') \<Longrightarrow> bnd m f s = (Return r, es, s')"
  by (simp add: bnd_def)

lemma bnd_Panic: "m s = (Panic p, es, s') \<Longrightarrow> bnd m f s = (Panic p, es, s')"
  by (simp add: bnd_def)

lemma bnd_Hang: "m s = (Hang, es, s') \<Longrightarrow> bnd m f s = (Hang, es, s')"
  by (simp add: bnd_def)

lemma bnd_ret_left [simp]: "bnd (ret x) f = f x"
  by (simp add: bnd_def ret_def)

lemma bnd_return_left [simp]: "bnd (return r) f = return r"
  by (simp add: bnd_def return_def)

lemma bnd_panic_left [simp]: "bnd (panic p) f = panic p"
  by (simp add: bnd_def panic_def)

lemma seq_ret_left [simp]: "seq (ret x) k = k"
  by (simp add: seq_def)

lemma seq_return_left [simp]: "seq (return r) k = return r"
  by (simp add: seq_def)

lemma scope_ret [simp]: "scope (ret x) = ret x"
  by (simp add: scope_def ret_def)

lemma scope_return [simp]: "scope (return x) = ret x"
  by (simp add: scope_def return_def ret_def)

lemma bnd_assoc: "bnd (bnd m f) g = bnd m (\<lambda>x. bnd (f x) g)"
  by (rule ext) (auto simp: bnd_def split: prod.splits flow.splits)

lemma foreach_append: "foreach f (xs @ ys) a = bnd (foreach f xs a) (foreach f ys)"
proof (induction xs arbitrary: a)
  case (Cons x xs)
  have "foreach f (xs @ ys) = (\<lambda>b. bnd (foreach f xs b) (foreach f ys))"
    by (rule ext) (rule Cons.IH)
  then show ?case by (simp add: bnd_assoc)
qed simp

lemma bnd_falls_through:
  "outcome m s = Next x \<Longrightarrow> events (bnd m f) s = events m s @ events (f x) (final m s)"
  "outcome m s = Next x \<Longrightarrow> outcome (bnd m f) s = outcome (f x) (final m s)"
  by (auto simp: run_defs bnd_def split: prod.splits)

section \<open>Hoare triples\<close>

text \<open>
  \<open>sat P V R m\<close>: from every state, every event of \<open>m\<close> satisfies \<open>P\<close>, every value it
  falls through with satisfies \<open>V\<close> and every value it returns satisfies \<open>R\<close>.
\<close>

named_theorems sat_intros

definition sat :: "('e \<Rightarrow> bool) \<Rightarrow> ('a \<Rightarrow> bool) \<Rightarrow> ('r \<Rightarrow> bool) \<Rightarrow> ('s, 'e, 'r, 'a) prog \<Rightarrow> bool" where
  "sat P V R m \<longleftrightarrow> (\<forall>s. (\<forall>e \<in> set (events m s). P e) \<and>
     (\<forall>x. outcome m s = Next x \<longrightarrow> V x) \<and> (\<forall>r. outcome m s = Return r \<longrightarrow> R r))"

lemma satD_event: "sat P V R m \<Longrightarrow> e \<in> set (events m s) \<Longrightarrow> P e"
  by (auto simp: sat_def)

lemma satD_next: "sat P V R m \<Longrightarrow> outcome m s = Next x \<Longrightarrow> V x"
  by (auto simp: sat_def)

lemma satD_return: "sat P V R m \<Longrightarrow> outcome m s = Return r \<Longrightarrow> R r"
  by (auto simp: sat_def)

lemma sat_weaken:
  assumes "sat P V R m" and "\<And>e. P e \<Longrightarrow> P' e" and "\<And>x. V x \<Longrightarrow> V' x" and "\<And>r. R r \<Longrightarrow> R' r"
  shows "sat P' V' R' m"
  using assms by (auto simp: sat_def)

lemma sat_ret [sat_intros]: "V x \<Longrightarrow> sat P V R (ret x)"
  by (simp add: sat_def run_defs)

lemma sat_return [sat_intros]: "R r \<Longrightarrow> sat P V R (return r)"
  by (simp add: sat_def run_defs)

lemma sat_panic [sat_intros]: "sat P V R (panic p)"
  by (simp add: sat_def run_defs)

lemma sat_bnd [sat_intros]:
  assumes m: "sat P U R m" and f: "\<And>x. U x \<Longrightarrow> sat P V R (f x)"
  shows "sat P V R (bnd m f)"
  unfolding sat_def
proof (intro allI)
  fix s
  obtain o1 es s' where run: "m s = (o1, es, s')" by (cases "m s") auto
  have es: "\<forall>e \<in> set es. P e" and U: "\<And>x. o1 = Next x \<Longrightarrow> U x" and R: "\<And>r. o1 = Return r \<Longrightarrow> R r"
    using m run by (auto simp: sat_def run_defs dest!: spec[of _ s])
  show "(\<forall>e \<in> set (events (bnd m f) s). P e) \<and> (\<forall>x. outcome (bnd m f) s = Next x \<longrightarrow> V x) \<and>
      (\<forall>r. outcome (bnd m f) s = Return r \<longrightarrow> R r)"
  proof (cases o1)
    case (Next x)
    with f [OF U [OF Next]] es run show ?thesis
      by (auto simp: sat_def run_defs bnd_Next split: prod.splits dest!: spec[of _ s'])
  qed (use es R run in \<open>auto simp: run_defs bnd_def\<close>)
qed

lemma sat_seq [sat_intros]: "sat P (\<lambda>_. True) R m \<Longrightarrow> sat P V R k \<Longrightarrow> sat P V R (seq m k)"
  by (auto simp: seq_def intro: sat_bnd)

lemma sat_scope [sat_intros]: "sat P V V m \<Longrightarrow> sat P V R (scope m)"
  unfolding sat_def
proof (intro allI)
  fix s
  assume "\<forall>s. (\<forall>e \<in> set (events m s). P e) \<and> (\<forall>x. outcome m s = Next x \<longrightarrow> V x) \<and>
      (\<forall>r. outcome m s = Return r \<longrightarrow> V r)"
  then have "(\<forall>e \<in> set (events m s). P e) \<and> (\<forall>x. outcome m s = Next x \<longrightarrow> V x) \<and>
      (\<forall>r. outcome m s = Return r \<longrightarrow> V r)" by (rule spec)
  then show "(\<forall>e \<in> set (events (scope m) s). P e) \<and> (\<forall>x. outcome (scope m) s = Next x \<longrightarrow> V x) \<and>
      (\<forall>r. outcome (scope m) s = Return r \<longrightarrow> R r)"
    by (cases "m s") (auto simp: run_defs scope_def split: flow.splits)
qed

lemma sat_foreach [sat_intros]:
  "V a \<Longrightarrow> (\<And>x a. x \<in> set xs \<Longrightarrow> V a \<Longrightarrow> sat P V R (f x a)) \<Longrightarrow> sat P V R (foreach f xs a)"
  by (induction xs arbitrary: a) (auto intro: sat_ret sat_bnd)

lemma sat_if [sat_intros]:
  "(b \<Longrightarrow> sat P V R m) \<Longrightarrow> (\<not> b \<Longrightarrow> sat P V R k) \<Longrightarrow> sat P V R (if b then m else k)"
  by simp

lemma sat_case_sum [sat_intros]:
  "(\<And>e. r = Inl e \<Longrightarrow> sat P V R (f e)) \<Longrightarrow> (\<And>x. r = Inr x \<Longrightarrow> sat P V R (g x)) \<Longrightarrow>
    sat P V R (case r of Inl e \<Rightarrow> f e | Inr x \<Rightarrow> g x)"
  by (cases r) auto

lemma sat_case_option [sat_intros]:
  "(r = None \<Longrightarrow> sat P V R m) \<Longrightarrow> (\<And>x. r = Some x \<Longrightarrow> sat P V R (g x)) \<Longrightarrow>
    sat P V R (case r of None \<Rightarrow> m | Some x \<Rightarrow> g x)"
  by (cases r) auto

lemma sat_case_prod [sat_intros]:
  "(\<And>x y. r = (x, y) \<Longrightarrow> sat P V R (f x y)) \<Longrightarrow> sat P V R (case r of (x, y) \<Rightarrow> f x y)"
  by (cases r) auto

lemma sat_Let [sat_intros]: "sat P V R (f x) \<Longrightarrow> sat P V R (let y = x in f y)"
  by simp

text \<open>
  The common case, with nothing to say of the values: every event of \<open>m\<close> satisfies \<open>P\<close>.
\<close>

named_theorems emits_intros

definition emits :: "('e \<Rightarrow> bool) \<Rightarrow> ('s, 'e, 'r, 'a) prog \<Rightarrow> bool" where
  "emits P m \<longleftrightarrow> (\<forall>s. \<forall>e \<in> set (events m s). P e)"

lemma emits_sat: "emits P m \<longleftrightarrow> sat P (\<lambda>_. True) (\<lambda>_. True) m"
  by (simp add: emits_def sat_def)

lemma emitsD: "emits P m \<Longrightarrow> e \<in> set (events m s) \<Longrightarrow> P e"
  by (auto simp: emits_def)

lemma emits_weaken: "emits P m \<Longrightarrow> (\<And>e. P e \<Longrightarrow> P' e) \<Longrightarrow> emits P' m"
  by (auto simp: emits_def)

lemma emits_ret [emits_intros]: "emits P (ret x)"
  by (simp add: emits_def run_defs)

lemma emits_return [emits_intros]: "emits P (return r)"
  by (simp add: emits_def run_defs)

lemma emits_panic [emits_intros]: "emits P (panic p)"
  by (simp add: emits_def run_defs)

lemma emits_bnd [emits_intros]: "emits P m \<Longrightarrow> (\<And>x. emits P (f x)) \<Longrightarrow> emits P (bnd m f)"
  unfolding emits_sat by (rule sat_bnd)

lemma emits_seq [emits_intros]: "emits P m \<Longrightarrow> emits P k \<Longrightarrow> emits P (seq m k)"
  unfolding emits_sat by (rule sat_seq)

lemma emits_scope [emits_intros]: "emits P m \<Longrightarrow> emits P (scope m)"
  unfolding emits_sat by (rule sat_scope)

lemma emits_foreach [emits_intros]:
  "(\<And>x a. x \<in> set xs \<Longrightarrow> emits P (f x a)) \<Longrightarrow> emits P (foreach f xs a)"
  unfolding emits_sat by (rule sat_foreach) simp_all

lemma emits_if [emits_intros]:
  "(b \<Longrightarrow> emits P m) \<Longrightarrow> (\<not> b \<Longrightarrow> emits P k) \<Longrightarrow> emits P (if b then m else k)"
  by simp

lemma emits_case_sum [emits_intros]:
  "(\<And>e. r = Inl e \<Longrightarrow> emits P (f e)) \<Longrightarrow> (\<And>x. r = Inr x \<Longrightarrow> emits P (g x)) \<Longrightarrow>
    emits P (case r of Inl e \<Rightarrow> f e | Inr x \<Rightarrow> g x)"
  by (cases r) auto

lemma emits_case_option [emits_intros]:
  "(r = None \<Longrightarrow> emits P m) \<Longrightarrow> (\<And>x. r = Some x \<Longrightarrow> emits P (g x)) \<Longrightarrow>
    emits P (case r of None \<Rightarrow> m | Some x \<Rightarrow> g x)"
  by (cases r) auto

lemma emits_case_prod [emits_intros]:
  "(\<And>x y. r = (x, y) \<Longrightarrow> emits P (f x y)) \<Longrightarrow> emits P (case r of (x, y) \<Rightarrow> f x y)"
  by (cases r) auto

lemma emits_Let [emits_intros]: "emits P (f x) \<Longrightarrow> emits P (let y = x in f y)"
  by simp

text \<open>
  The same for a property of the whole list of events that holds of the empty list and of two lists
  one after the other when it holds of each.
\<close>

named_theorems traces_intros

definition compositional :: "('e list \<Rightarrow> bool) \<Rightarrow> bool" where
  "compositional Q \<longleftrightarrow> Q [] \<and> (\<forall>xs ys. Q xs \<longrightarrow> Q ys \<longrightarrow> Q (xs @ ys))"

definition traces :: "('e list \<Rightarrow> bool) \<Rightarrow> ('s, 'e, 'r, 'a) prog \<Rightarrow> bool" where
  "traces Q m \<longleftrightarrow> compositional Q \<and> (\<forall>s. Q (events m s))"

lemma tracesD: "traces Q m \<Longrightarrow> Q (events m s)"
  by (simp add: traces_def)

lemma traces_emits:
  "compositional Q \<Longrightarrow> (\<And>e. P e \<Longrightarrow> Q [e]) \<Longrightarrow> emits P m \<Longrightarrow> traces Q m"
  unfolding traces_def emits_def
proof (intro conjI allI)
  fix s
  assume Q: "compositional Q" and one: "\<And>e. P e \<Longrightarrow> Q [e]" and m: "\<forall>s. \<forall>e \<in> set (events m s). P e"
  have "\<forall>e \<in> set es. P e \<Longrightarrow> Q es" for es
  proof (induction es)
    case (Cons e es)
    then have "Q [e]" "Q es" by (simp_all add: one)
    with Q have "Q ([e] @ es)" unfolding compositional_def by blast
    then show ?case by simp
  qed (use Q in \<open>simp add: compositional_def\<close>)
  with m show "Q (events m s)" by blast
qed

lemma traces_ret [traces_intros]: "compositional Q \<Longrightarrow> traces Q (ret x)"
  by (simp add: traces_def compositional_def run_defs)

lemma traces_return [traces_intros]: "compositional Q \<Longrightarrow> traces Q (return x)"
  by (simp add: traces_def compositional_def run_defs)

lemma traces_panic [traces_intros]: "compositional Q \<Longrightarrow> traces Q (panic x)"
  by (simp add: traces_def compositional_def run_defs)

lemma traces_bnd [traces_intros]:
  assumes "traces Q m" and "\<And>x. traces Q (f x)"
  shows "traces Q (bnd m f)"
  unfolding traces_def
proof (intro conjI allI)
  show Q: "compositional Q" using assms(1) by (simp add: traces_def)
  fix s
  obtain o1 es s' where run: "m s = (o1, es, s')" by (cases "m s") auto
  have es: "Q es" using tracesD [OF assms(1), of s] run by (simp add: run_defs)
  show "Q (events (bnd m f) s)"
  proof (cases o1)
    case (Next x)
    have "Q (events (f x) s')" using assms(2) by (rule tracesD)
    with es Q run Next show ?thesis
      by (auto simp: run_defs bnd_Next compositional_def split: prod.splits)
  qed (use es run in \<open>auto simp: run_defs bnd_def\<close>)
qed

lemma traces_seq [traces_intros]: "traces Q m \<Longrightarrow> traces Q k \<Longrightarrow> traces Q (seq m k)"
  by (auto simp: seq_def intro: traces_bnd)

lemma events_scope: "events (scope m) s = events m s"
  by (simp add: run_defs scope_def split: prod.split flow.split)

lemma traces_scope [traces_intros]: "traces Q m \<Longrightarrow> traces Q (scope m)"
  by (simp add: traces_def events_scope)

lemma traces_foreach [traces_intros]:
  "compositional Q \<Longrightarrow> (\<And>x a. x \<in> set xs \<Longrightarrow> traces Q (f x a)) \<Longrightarrow> traces Q (foreach f xs a)"
  by (induction xs arbitrary: a) (auto intro: traces_ret traces_bnd)

lemma traces_if [traces_intros]:
  "(b \<Longrightarrow> traces Q m) \<Longrightarrow> (\<not> b \<Longrightarrow> traces Q k) \<Longrightarrow> traces Q (if b then m else k)"
  by simp

lemma traces_case_sum [traces_intros]:
  "(\<And>e. r = Inl e \<Longrightarrow> traces Q (f e)) \<Longrightarrow> (\<And>x. r = Inr x \<Longrightarrow> traces Q (g x)) \<Longrightarrow>
    traces Q (case r of Inl e \<Rightarrow> f e | Inr x \<Rightarrow> g x)"
  by (cases r) auto

lemma traces_case_option [traces_intros]:
  "(r = None \<Longrightarrow> traces Q m) \<Longrightarrow> (\<And>x. r = Some x \<Longrightarrow> traces Q (g x)) \<Longrightarrow>
    traces Q (case r of None \<Rightarrow> m | Some x \<Rightarrow> g x)"
  by (cases r) auto

lemma traces_case_prod [traces_intros]:
  "(\<And>x y. r = (x, y) \<Longrightarrow> traces Q (f x y)) \<Longrightarrow> traces Q (case r of (x, y) \<Rightarrow> f x y)"
  by (cases r) auto

lemma traces_Let [traces_intros]: "traces Q (f x) \<Longrightarrow> traces Q (let y = x in f y)"
  by simp

section \<open>Strings of the Go standard library\<close>

text \<open>
  \<open>strings.Split(s, sep)\<close> for a separator of one byte, \<open>strings.Join\<close>,
  \<open>strings.Contains\<close>, \<open>strings.ReplaceAll(s, c, "")\<close> for a byte \<open>c\<close>, and
  \<open>strconv.Itoa\<close>.  Strings are byte strings.
\<close>

fun split_on :: "char \<Rightarrow> string \<Rightarrow> string list" where
  "split_on c [] = [[]]"
| "split_on c (x # xs) =
     (if x = c then [] # split_on c xs
      else (case split_on c xs of [] \<Rightarrow> [[x]] | w # ws \<Rightarrow> (x # w) # ws))"

fun join_with :: "string \<Rightarrow> string list \<Rightarrow> string" where
  "join_with sep [] = []"
| "join_with sep [w] = w"
| "join_with sep (w # v # ws) = w @ sep @ join_with sep (v # ws)"

fun is_prefix :: "string \<Rightarrow> string \<Rightarrow> bool" where
  "is_prefix [] ys = True"
| "is_prefix (x # xs) [] = False"
| "is_prefix (x # xs) (y # ys) = (x = y \<and> is_prefix xs ys)"

fun contains :: "string \<Rightarrow> string \<Rightarrow> bool" where
  "contains [] sub = (sub = [])"
| "contains (x # xs) sub = (is_prefix sub (x # xs) \<or> contains xs sub)"

definition remove_all :: "char \<Rightarrow> string \<Rightarrow> string" where
  "remove_all c s = filter (\<lambda>x. x \<noteq> c) s"

definition digit :: "nat \<Rightarrow> char" where
  "digit n = ''0123456789'' ! (n mod 10)"

fun nat_digits :: "nat \<Rightarrow> string" where
  "nat_digits n = (if n < 10 then [digit n] else nat_digits (n div 10) @ [digit (n mod 10)])"

declare nat_digits.simps [simp del]

definition itoa :: "int \<Rightarrow> string" where
  "itoa i = (if i < 0 then CHR ''-'' # nat_digits (nat (- i)) else nat_digits (nat i))"

lemma split_on_nonempty [simp]: "split_on c xs \<noteq> []"
  by (cases xs) (auto split: list.splits)

lemma split_on_join: "join_with [c] (split_on c xs) = xs"
proof (induction xs)
  case (Cons x xs)
  obtain w ws where "split_on c xs = w # ws" by (cases "split_on c xs") auto
  with Cons show ?case by (cases ws) auto
qed simp

lemma split_on_no_sep: "c \<notin> set xs \<Longrightarrow> split_on c xs = [xs]"
  by (induction xs) auto

lemma split_on_append_sep: "c \<notin> set xs \<Longrightarrow> split_on c (xs @ c # ys) = xs # split_on c ys"
  by (induction xs) auto

lemma split_on_pieces: "w \<in> set (split_on c xs) \<Longrightarrow> c \<notin> set w"
proof (induction xs arbitrary: w)
  case (Cons x xs)
  obtain v vs where "split_on c xs = v # vs" by (cases "split_on c xs") auto
  with Cons show ?case by (auto split: if_splits)
qed simp

lemma is_prefix_iff: "is_prefix xs ys \<longleftrightarrow> (\<exists>zs. ys = xs @ zs)"
  by (induction xs ys rule: is_prefix.induct) auto

lemma contains_iff: "contains xs sub \<longleftrightarrow> (\<exists>us vs. xs = us @ sub @ vs)"
proof (induction xs)
  case (Cons x xs)
  show ?case
  proof
    assume "contains (x # xs) sub"
    then consider "is_prefix sub (x # xs)" | "contains xs sub" by auto
    then show "\<exists>us vs. x # xs = us @ sub @ vs"
    proof cases
      case 1
      then show ?thesis by (auto simp: is_prefix_iff intro: exI[of _ "[]"])
    next
      case 2
      then show ?thesis using Cons.IH by (metis append_Cons)
    qed
  next
    assume "\<exists>us vs. x # xs = us @ sub @ vs"
    then show "contains (x # xs) sub"
      using Cons.IH by (auto simp: is_prefix_iff Cons_eq_append_conv)
  qed
qed auto

lemma digit_inj: "m < 10 \<Longrightarrow> n < 10 \<Longrightarrow> digit m = digit n \<Longrightarrow> m = n"
proof -
  assume "m < 10" "n < 10" "digit m = digit n"
  moreover have "distinct ''0123456789''" by simp
  ultimately show "m = n" by (auto simp: digit_def nth_eq_iff_index_eq)
qed

lemma digit_not_dash: "digit n \<noteq> CHR ''-''"
proof -
  have "digit n \<in> set ''0123456789''" unfolding digit_def by (rule nth_mem) simp
  then show ?thesis by auto
qed

lemma nat_digits_nonempty [simp]: "nat_digits n \<noteq> []"
  by (subst nat_digits.simps) simp

lemma nat_digits_no_dash: "CHR ''-'' \<notin> set (nat_digits n)"
proof (induction n rule: nat_digits.induct)
  case (1 n)
  then show ?case
    using digit_not_dash[THEN not_sym] by (cases "n < 10") (simp_all add: nat_digits.simps[of n])
qed

lemma nat_digits_inj: "nat_digits m = nat_digits n \<Longrightarrow> m = n"
proof (induction m arbitrary: n rule: nat_digits.induct)
  case (1 m)
  show ?case
  proof (cases "m < 10")
    case True
    with "1.prems" have *: "nat_digits n = [digit m]" by (subst (asm) nat_digits.simps) simp
    have "n < 10"
    proof (rule ccontr)
      assume "\<not> n < 10"
      with * have "nat_digits (n div 10) = []" by (simp add: nat_digits.simps[of n])
      then show False by simp
    qed
    with * True show ?thesis by (auto simp: nat_digits.simps[of n] dest: digit_inj)
  next
    case False
    with "1.prems" have *: "nat_digits n = nat_digits (m div 10) @ [digit (m mod 10)]"
      by (subst (asm) nat_digits.simps) simp
    have n: "\<not> n < 10"
    proof
      assume "n < 10"
      with * have "nat_digits (m div 10) = []" by (auto simp: nat_digits.simps[of n])
      then show False by simp
    qed
    with * have "nat_digits (m div 10) = nat_digits (n div 10)" and "digit (m mod 10) = digit (n mod 10)"
      by (simp_all add: nat_digits.simps[of n])
    with "1.IH" [OF False] have "m div 10 = n div 10" and "m mod 10 = n mod 10"
      by (auto intro: digit_inj)
    then show ?thesis by (metis div_mult_mod_eq)
  qed
qed

lemma itoa_inj: "itoa i = itoa j \<Longrightarrow> i = j"
proof -
  assume eq: "itoa i = itoa j"
  have dash: "itoa k = CHR ''-'' # w \<Longrightarrow> k < 0" for k w
    using nat_digits_no_dash[of "nat k"] by (auto simp: itoa_def split: if_splits)
  show "i = j"
  proof (cases "i < 0")
    case True
    then have "j < 0" using eq dash[of j "nat_digits (nat (- i))"] by (simp add: itoa_def[of i])
    with True eq have "nat (- i) = nat (- j)" by (auto simp: itoa_def dest: nat_digits_inj)
    with True \<open>j < 0\<close> show ?thesis by simp
  next
    case False
    have "\<not> j < 0"
    proof
      assume "j < 0"
      with eq have "itoa i = CHR ''-'' # nat_digits (nat (- j))" by (simp add: itoa_def[of j])
      then have "i < 0" by (rule dash)
      with False show "False" by simp
    qed
    with False eq have "nat i = nat j" by (auto simp: itoa_def dest: nat_digits_inj)
    with False \<open>\<not> j < 0\<close> show ?thesis by simp
  qed
qed

lemma itoa_no_dash: "0 \<le> i \<Longrightarrow> CHR ''-'' \<notin> set (itoa i)"
  by (simp add: itoa_def nat_digits_no_dash)

section \<open>Go's maps\<close>

text \<open>
  A \<open>map[string]string\<close> is \<open>None\<close> when nil, otherwise an association list of distinct
  keys.  The order of the list stands for the order in which \<open>range\<close> happens to visit the
  entries, which Go leaves open; no statement about a map depends on it.  Reading a missing
  key, or a nil map, gives the zero value.
\<close>

type_synonym gomap = "(string \<times> string) list option"

definition mget :: "gomap \<Rightarrow> string \<Rightarrow> string" where
  "mget m k = (case m of None \<Rightarrow> [] | Some xs \<Rightarrow> (case map_of xs k of None \<Rightarrow> [] | Some v \<Rightarrow> v))"

definition mlookup :: "gomap \<Rightarrow> string \<Rightarrow> string option" where
  "mlookup m k = (case m of None \<Rightarrow> None | Some xs \<Rightarrow> map_of xs k)"

definition wf_gomap :: "gomap \<Rightarrow> bool" where
  "wf_gomap m = (case m of None \<Rightarrow> True | Some xs \<Rightarrow> distinct (map fst xs))"

lemma mlookup_None [simp]: "mlookup None k = None"
  by (simp add: mlookup_def)

lemma mlookup_Some [simp]: "mlookup (Some xs) k = map_of xs k"
  by (simp add: mlookup_def)

lemma mget_mlookup: "mget m k = (case mlookup m k of None \<Rightarrow> [] | Some v \<Rightarrow> v)"
  by (simp add: mget_def mlookup_def split: option.split)

end
