(* ===== verification/ApiTypes.thy ===== *)
theory ApiTypes
  imports Prelude "HOL-Library.Word"
begin

text \<open>
  The custom resources of the operator (\<^verbatim>\<open>api/v1alpha1\<close>) and the parts of the Kubernetes
  objects the controllers read and write.

  A specification of a Config Connector resource is a struct of a package outside this
  repository; the operator only copies its fields, by name, and reads a few of them as strings.
  It is modelled as the association list of its set fields: a missing field is the zero value
  (a nil pointer or an empty string).  Embedding of a struct in another is extension of its
  record, so that \<open>Name u\<close> reads the name of a template, an object or a Universe alike.
\<close>

section \<open>Struct values\<close>

datatype val =
    VStr string
  | VInt int
  | VBool bool
  | VList "val list"
  | VObj "(string \<times> val) list"

type_synonym spec = "(string \<times> val) list"

definition fget :: "spec \<Rightarrow> string \<Rightarrow> val option" where
  "fget sp f = map_of sp f"

text \<open>\<open>dst.f = src.f\<close>: a zero field of the source zeroes the target's.\<close>

definition fcopy :: "spec \<Rightarrow> string \<Rightarrow> spec \<Rightarrow> spec" where
  "fcopy src f dst = (case map_of src f of None \<Rightarrow> AList.delete f dst | Some v \<Rightarrow> AList.update f v dst)"

text \<open>A run of such assignments.\<close>

definition fcopy_all :: "string list \<Rightarrow> spec \<Rightarrow> spec \<Rightarrow> spec" where
  "fcopy_all fs src dst = fold (fcopy src) fs dst"

text \<open>Reading a field of type string; the name of a \<open>ResourceRef\<close>-typed field.\<close>

fun val_str :: "val option \<Rightarrow> string" where
  "val_str (Some (VStr s)) = s"
| "val_str _ = []"

fun ref_name :: "val option \<Rightarrow> string" where
  "ref_name (Some (VObj fs)) = val_str (map_of fs ''Name'')"
| "ref_name _ = []"

lemma fget_fcopy: "fget (fcopy src f dst) g = (if g = f then fget src f else fget dst g)"
  by (auto simp: fget_def fcopy_def update_conv' delete_conv' split: option.split)

lemma fget_fcopy_all:
  "fget (fcopy_all fs src dst) g = (if g \<in> set fs then fget src g else fget dst g)"
proof (induction fs arbitrary: dst)
  case Nil
  then show ?case by (simp add: fcopy_all_def)
next
  case (Cons f fs)
  have "fcopy_all (f # fs) src dst = fcopy_all fs src (fcopy src f dst)"
    by (simp add: fcopy_all_def)
  then show ?case by (simp add: Cons.IH fget_fcopy)
qed

section \<open>Object metadata\<close>

record CustomObjectMeta =
  Name :: string
  Namespace :: string
  Labels :: gomap
  Annotations :: gomap

text \<open>
  The fields of \<open>metav1.ObjectMeta\<close> the operator uses.  Times are seconds since the epoch;
  \<open>Controller\<close> is the controller owner reference (kind and name of the owner).
\<close>

record ObjectMeta = CustomObjectMeta +
  Generation :: int
  CreationTimestamp :: int
  DeletionTimestamp :: "int option"
  Finalizers :: "string list"
  Controller :: "(string \<times> string) option"

section \<open>Templates of Config Connector resources\<close>

record TemplateSpec = CustomObjectMeta +
  Spec :: spec

type_synonym ComputeNetworkTemplateSpec = TemplateSpec
type_synonym ComputeSubnetworkTemplateSpec = TemplateSpec
type_synonym ComputeRouterTemplateSpec = TemplateSpec
type_synonym ComputeRouterNATTemplateSpec = TemplateSpec
type_synonym ContainerClusterTemplateSpec = TemplateSpec
type_synonym ContainerNodePoolTemplateSpec = TemplateSpec
type_synonym SQLInstanceTemplateSpec = TemplateSpec
type_synonym SQLDatabaseTemplate = TemplateSpec
type_synonym StorageBucketTemplateSpec = TemplateSpec
type_synonym IAMServiceAccountTemplateSpec = TemplateSpec

record Compute =
  ComputeNetworks :: "ComputeNetworkTemplateSpec list"
  ComputeSubnetworks :: "ComputeSubnetworkTemplateSpec list"
  ComputeRouters :: "ComputeRouterTemplateSpec list"
  ComputeRouterNATs :: "ComputeRouterNATTemplateSpec list"

record Container =
  ContainerClusters :: "ContainerClusterTemplateSpec list"
  ContainerNodePools :: "ContainerNodePoolTemplateSpec list"

record SQL =
  SQLInstances :: "SQLInstanceTemplateSpec list"
  SQLDatabases :: "SQLDatabaseTemplate list"

record Storage =
  StorageBuckets :: "StorageBucketTemplateSpec list"

record SQLRestoreSpec =
  BackupRunId :: int
  InstanceId :: string
  RestoreKind :: string
  Project :: string

record SQLRestoresTemplateSpec = CustomObjectMeta +
  RestoreSpec :: SQLRestoreSpec

record SQLRestore =
  SQLRestores :: "SQLRestoresTemplateSpec list"

record IAM =
  IAMServiceAccounts :: "IAMServiceAccountTemplateSpec list"

section \<open>Universe\<close>

text \<open>\<open>TTL\<close> is a Go \<open>int\<close>, 64 bits wide on the platforms the operator is built for.\<close>

record UniverseSpec =
  ProjectID :: string
  TTL :: "64 word"
  uContainer :: Container
  uCompute :: Compute
  uSQL :: SQL
  uStorage :: Storage
  uSQLRestore :: SQLRestore
  uIAM :: IAM
  TargetNamespaces :: "string list"
  PrimaryCluster :: string

record ResourceStatus =
  Kind :: string
  StatusName :: string
  Status :: string

record UniverseStatus =
  Resources :: "ResourceStatus list"
  ObservedGeneration :: int
  Repository :: string
  PR :: string

record Universe = ObjectMeta +
  uSpec :: UniverseSpec
  uStatus :: UniverseStatus

section \<open>Trigger\<close>

record TriggerSpec =
  Respositories :: "string list"
  TriggerProjectID :: string
  CredentialSecretRef :: string
  RequeueAfterMinutes :: int
  TriggerTargetNamespaces :: "string list"
  TriggerPrimaryCluster :: string
  LabelToDeploymentMap :: gomap

record TriggerStatus =
  TriggerObservedGeneration :: int

record Trigger = ObjectMeta +
  tSpec :: TriggerSpec
  tStatus :: TriggerStatus

section \<open>Zero values\<close>

definition zero_UniverseSpec :: UniverseSpec where
  "zero_UniverseSpec = \<lparr> ProjectID = [], TTL = 0,
     uContainer = \<lparr> ContainerClusters = [], ContainerNodePools = [] \<rparr>,
     uCompute = \<lparr> ComputeNetworks = [], ComputeSubnetworks = [], ComputeRouters = [], ComputeRouterNATs = [] \<rparr>,
     uSQL = \<lparr> SQLInstances = [], SQLDatabases = [] \<rparr>,
     uStorage = \<lparr> StorageBuckets = [] \<rparr>,
     uSQLRestore = \<lparr> SQLRestores = [] \<rparr>,
     uIAM = \<lparr> IAMServiceAccounts = [] \<rparr>,
     TargetNamespaces = [], PrimaryCluster = [] \<rparr>"

definition zero_UniverseStatus :: UniverseStatus where
  "zero_UniverseStatus = \<lparr> Resources = [], ObservedGeneration = 0, Repository = [], PR = [] \<rparr>"

definition zero_Universe :: Universe where
  "zero_Universe = \<lparr> Name = [], Namespace = [], Labels = None, Annotations = None,
     Generation = 0, CreationTimestamp = 0, DeletionTimestamp = None, Finalizers = [], Controller = None,
     uSpec = zero_UniverseSpec, uStatus = zero_UniverseStatus \<rparr>"

section \<open>The resources of a Universe, by kind\<close>

text \<open>
  The kinds of objects the operator gets, lists, creates, updates or deletes, in the management
  cluster or in a cluster it creates.  The ten Config Connector kinds come in the order in which
  the Universe's reconciler visits them, and that order is their \<open>linorder\<close>.
\<close>

datatype kind =
    KIAMServiceAccount
  | KComputeNetwork
  | KComputeSubnetwork
  | KContainerCluster
  | KContainerNodePool
  | KSQLInstance
  | KSQLDatabase
  | KComputeRouter
  | KComputeRouterNAT
  | KStorageBucket
  | KSecret
  | KServiceAccount
  | KRole
  | KRoleBinding
  | KCronJob
  | KClusterRole
  | KClusterRoleBinding
  | KNamespace
  | KDeployment
  | KBackup
  | KRestore

fun kind_rank :: "kind \<Rightarrow> nat" where
  "kind_rank KIAMServiceAccount = 0"
| "kind_rank KComputeNetwork = 1"
| "kind_rank KComputeSubnetwork = 2"
| "kind_rank KContainerCluster = 3"
| "kind_rank KContainerNodePool = 4"
| "kind_rank KSQLInstance = 5"
| "kind_rank KSQLDatabase = 6"
| "kind_rank KComputeRouter = 7"
| "kind_rank KComputeRouterNAT = 8"
| "kind_rank KStorageBucket = 9"
| "kind_rank KSecret = 10"
| "kind_rank KServiceAccount = 11"
| "kind_rank KRole = 12"
| "kind_rank KRoleBinding = 13"
| "kind_rank KCronJob = 14"
| "kind_rank KClusterRole = 15"
| "kind_rank KClusterRoleBinding = 16"
| "kind_rank KNamespace = 17"
| "kind_rank KDeployment = 18"
| "kind_rank KBackup = 19"
| "kind_rank KRestore = 20"

lemma kind_rank_inj: "kind_rank k = kind_rank l \<Longrightarrow> k = l"
  by (cases k; cases l; simp)

instantiation kind :: linorder
begin

definition less_eq_kind :: "kind \<Rightarrow> kind \<Rightarrow> bool" where
  "less_eq_kind k l \<longleftrightarrow> kind_rank k \<le> kind_rank l"

definition less_kind :: "kind \<Rightarrow> kind \<Rightarrow> bool" where
  "less_kind k l \<longleftrightarrow> kind_rank k < kind_rank l"

instance
  by standard (auto simp: less_eq_kind_def less_kind_def intro: kind_rank_inj)

end

text \<open>An object as the API server holds it.\<close>

record resource = ObjectMeta +
  rKind :: kind
  rSpec :: spec
  rData :: "(string \<times> string) list"

definition zero_resource :: "kind \<Rightarrow> resource" where
  "zero_resource k = \<lparr> Name = [], Namespace = [], Labels = None, Annotations = None,
     Generation = 0, CreationTimestamp = 0, DeletionTimestamp = None, Finalizers = [], Controller = None,
     rKind = k, rSpec = [], rData = [] \<rparr>"

end
