(* ===== verification/Services.thy ===== *)
theory Services
  imports ApiTypes
begin

text \<open>
  The code outside the repository that the operator talks to, as a parameter.

  A value of \<open>'w services\<close> gives, for every call the operator makes to the Kubernetes API
  (of the management cluster or of a cluster reached through a \<open>rest.Config\<close>), Google Cloud,
  GitHub, Helm and the operating system, the answer and the next state of the outside world
  \<open>'w\<close>.  Nothing is assumed about it here: it may answer with any error at any time, change
  the world behind the operator's back and let time pass.  A property that needs more states it
  as a hypothesis.

  Every call is an \<^emph>\<open>event\<close> of the run, with the error it was answered with, so that the
  properties can speak of what the operator did and in which order.  The second half of the file
  wraps each call as a program.

  Conventions of these libraries the wrappers build in: a getter that fails leaves the object it
  was given as it was (the zero object, in this code, but for the Universe); a status update, an
  update and a create that succeed overwrite the local object with the server's answer; a typed
  clientset returns a zero object or an empty list beside its error; a method call on a nil
  clientset panics.  \<open>svc_repo_request\<close> is whether the GitHub library can make a request to a path
  under \<^verbatim>\<open>repos/owner/repository\<close>: what it parses of a path are these two names, the rest is
  fixed text and digits, so that listing the pull requests, commenting and labelling fail alike.
\<close>

section \<open>Errors\<close>

text \<open>
  An API error carries its reason; \<open>EWrap\<close> is an error wrapped with a message
  (\<open>errors.Wrap\<close>, \<open>fmt.Errorf\<close>).
\<close>

datatype error = ENotFound | EAlreadyExists | EConflict | EMsg string | EWrap string error

text \<open>\<open>errors.IsNotFound\<close> on a possibly nil error.\<close>

definition IsNotFound :: "error option \<Rightarrow> bool" where
  "IsNotFound e = (e = Some ENotFound)"

definition err_of :: "error + 'a \<Rightarrow> error option" where
  "err_of r = (case r of Inl e \<Rightarrow> Some e | Inr _ \<Rightarrow> None)"

lemma err_of_simps [simp]: "err_of (Inl e) = Some e" "err_of (Inr x) = None"
  by (simp_all add: err_of_def)

lemma IsNotFound_simps [simp]: "IsNotFound (Some ENotFound)" "\<not> IsNotFound None"
  by (simp_all add: IsNotFound_def)

section \<open>What the calls exchange\<close>

datatype target = Mgmt | Remote string

record rest_config =
  Host :: string
  Insecure :: bool

text \<open>A clientset is \<open>None\<close> when its constructor failed and the error was dropped.\<close>

type_synonym clientset = "target option"

record ingress_rule =
  RuleHost :: string
  RuleRest :: val

record ingress =
  IngressName :: string
  IngressRules :: "ingress_rule list"

datatype gcp_api =
    GcpNetwork
  | GcpSubnetwork
  | GcpRouter
  | GcpCluster
  | GcpNodePool
  | GcpSQLInstance
  | GcpSQLDatabase
  | GcpBucket

record gcp_object =
  SelfLink :: string
  GcpStatus :: string
  State :: string
  TimeCreated :: string
  Endpoint :: string
  MasterAuthCa :: "string option"

record pull =
  Number :: "int option"
  LabelPtrs :: "string option list"
  AuthorAssociation :: string

record comment =
  Body :: string
  PullNumber :: "int option"
  Owner :: string
  Repo :: string

record helm_settings =
  KubeToken :: string
  KubeAPIServer :: string
  KubeCaFile :: string

section \<open>The services\<close>

record 'w services =
  svc_get :: "target \<Rightarrow> kind \<Rightarrow> string \<Rightarrow> string \<Rightarrow> 'w \<Rightarrow> (error + resource) \<times> 'w"
  svc_list :: "target \<Rightarrow> kind \<Rightarrow> string \<Rightarrow> (string \<times> string) list \<Rightarrow> 'w \<Rightarrow> (error + resource list) \<times> 'w"
  svc_create :: "target \<Rightarrow> resource \<Rightarrow> 'w \<Rightarrow> (error + resource) \<times> 'w"
  svc_update :: "target \<Rightarrow> resource \<Rightarrow> 'w \<Rightarrow> (error + resource) \<times> 'w"
  svc_delete :: "target \<Rightarrow> resource \<Rightarrow> 'w \<Rightarrow> error option \<times> 'w"
  svc_get_universe :: "string \<Rightarrow> string \<Rightarrow> 'w \<Rightarrow> (error + Universe) \<times> 'w"
  svc_create_universe :: "Universe \<Rightarrow> 'w \<Rightarrow> (error + Universe) \<times> 'w"
  svc_update_universe :: "Universe \<Rightarrow> 'w \<Rightarrow> (error + Universe) \<times> 'w"
  svc_status_universe :: "Universe \<Rightarrow> 'w \<Rightarrow> (error + Universe) \<times> 'w"
  svc_delete_universe :: "Universe \<Rightarrow> 'w \<Rightarrow> error option \<times> 'w"
  svc_get_trigger :: "string \<Rightarrow> string \<Rightarrow> 'w \<Rightarrow> (error + Trigger) \<times> 'w"
  svc_status_trigger :: "Trigger \<Rightarrow> 'w \<Rightarrow> (error + Trigger) \<times> 'w"
  svc_set_controller_reference :: "string \<Rightarrow> string \<Rightarrow> string \<Rightarrow> resource \<Rightarrow> (string \<times> string) option"
  svc_contains_finalizer :: "string list \<Rightarrow> string \<Rightarrow> bool"
  svc_add_finalizer :: "string list \<Rightarrow> string \<Rightarrow> string list"
  svc_remove_finalizer :: "string list \<Rightarrow> string \<Rightarrow> string list"
  svc_new_for_config :: "rest_config \<Rightarrow> error option"
  svc_dynamic_for_config :: "rest_config \<Rightarrow> error option"
  svc_phase :: "resource \<Rightarrow> error + string"
  svc_list_ingresses :: "target \<Rightarrow> string \<Rightarrow> 'w \<Rightarrow> (error + ingress list) \<times> 'w"
  svc_update_ingress :: "target \<Rightarrow> string \<Rightarrow> ingress \<Rightarrow> 'w \<Rightarrow> error option \<times> 'w"
  svc_gcp :: "gcp_api \<Rightarrow> string list \<Rightarrow> 'w \<Rightarrow> (error + gcp_object option) \<times> 'w"
  svc_credentials :: "'w \<Rightarrow> (error + string) \<times> 'w"
  svc_new_service :: "gcp_api \<Rightarrow> 'w \<Rightarrow> error option \<times> 'w"
  svc_new_repository :: "string \<Rightarrow> error option"
  svc_registry_tags :: "string \<Rightarrow> 'w \<Rightarrow> (error + string list) \<times> 'w"
  svc_regexp :: "string \<Rightarrow> (string \<Rightarrow> bool) option"
  svc_repo_request :: "string \<Rightarrow> string \<Rightarrow> error option"
  svc_list_pulls :: "string \<Rightarrow> string \<Rightarrow> string \<Rightarrow> string \<Rightarrow> 'w \<Rightarrow> (error + pull list) \<times> 'w"
  svc_do :: "string \<Rightarrow> string \<times> comment \<Rightarrow> 'w \<Rightarrow> error option \<times> 'w"
  svc_edit_labels :: "string \<Rightarrow> string \<Rightarrow> string \<Rightarrow> int \<Rightarrow> string list \<Rightarrow> 'w \<Rightarrow> error option \<times> 'w"
  svc_url_host :: "string \<Rightarrow> error + string"
  svc_write_file :: "string \<Rightarrow> string \<Rightarrow> 'w \<Rightarrow> error option \<times> 'w"
  svc_helm_init :: "helm_settings \<Rightarrow> string \<Rightarrow> 'w \<Rightarrow> error option \<times> 'w"
  svc_helm_locate :: "helm_settings \<Rightarrow> string \<Rightarrow> 'w \<Rightarrow> (error + string) \<times> 'w"
  svc_helm_load :: "string \<Rightarrow> 'w \<Rightarrow> (error + string) \<times> 'w"
  svc_helm_run :: "helm_settings \<Rightarrow> string \<Rightarrow> string \<Rightarrow> string \<Rightarrow> val \<Rightarrow> 'w \<Rightarrow> error option \<times> 'w"
  svc_init_env :: "string \<Rightarrow> string"
  svc_clock :: "'w \<Rightarrow> int"
  svc_sleep :: "int \<Rightarrow> 'w \<Rightarrow> 'w"
  svc_pick :: "nat \<Rightarrow> 'w \<Rightarrow> bool"
  svc_backoff :: "nat \<Rightarrow> int"

section \<open>Events\<close>

datatype event =
    EvGet target kind string string "error option"
  | EvList target kind string "(string \<times> string) list" "error option"
  | EvCreate target resource "error option"
  | EvUpdate target resource "error option"
  | EvDelete target kind string string "error option"
  | EvGetUniverse string string "error option"
  | EvCreateUniverse Universe "error option"
  | EvUpdateUniverse Universe "error option"
  | EvStatusUniverse Universe "error option"
  | EvDeleteUniverse string string "error option"
  | EvGetTrigger string string "error option"
  | EvStatusTrigger Trigger "error option"
  | EvRecord string string
  | EvListIngresses target string "error option"
  | EvUpdateIngress target string ingress "error option"
  | EvGcp gcp_api "string list" "error option"
  | EvCredentials "error option"
  | EvNewService gcp_api "error option"
  | EvRegistryTags string "error option"
  | EvListPulls string string string "error option"
  | EvComment "string \<times> comment" "error option"
  | EvEditLabels string string int "string list" "error option"
  | EvWriteFile string "error option"
  | EvSetenv string string
  | EvHelmInit helm_settings string "error option"
  | EvHelmLocate string "error option"
  | EvHelmLoad string "error option"
  | EvHelmRun helm_settings string string val "error option"
  | EvSleep int

section \<open>The operator's process\<close>

text \<open>
  The state a run goes through: the outside world and the environment variables the process has
  set, the only state of its own the operator keeps between two calls.  \<open>captured\<close> is the one
  local variable of the code that a closure assigns to and its function reads back, the secret of
  \<open>CreateClusterAdminToken\<close>; a function that uses it initialises it first.
\<close>

record 'w st =
  world :: 'w
  penv :: "(string \<times> string) list"
  captured :: resource

type_synonym ('w, 'r, 'a) go = "('w st, event, 'r, 'a) prog"

definition ask :: "('w \<Rightarrow> 'a \<times> 'w) \<Rightarrow> ('a \<Rightarrow> event) \<Rightarrow> ('w, 'r, 'a) go" where
  "ask f ev = (\<lambda>s. case f (world s) of (x, w) \<Rightarrow> (Next x, [ev x], s\<lparr>world := w\<rparr>))"

lemma sat_ask [sat_intros]: "(\<And>x. P (ev x)) \<Longrightarrow> sat P (\<lambda>_. True) R (ask f ev)"
  by (auto simp: sat_def run_defs ask_def split: prod.splits)

lemma emits_ask [emits_intros]: "(\<And>x. P (ev x)) \<Longrightarrow> emits P (ask f ev)"
  unfolding emits_sat by (rule sat_ask)

lemma sat_ask_value:
  "(\<And>x w w'. f w = (x, w') \<Longrightarrow> P (ev x) \<and> V x) \<Longrightarrow> sat P V R (ask f ev)"
  by (auto simp: sat_def run_defs ask_def split: prod.splits)

text \<open>A call always comes back, so a function that starts with one returns what its rest does.\<close>

lemma scope_ask: "scope (bnd (ask f ev) k) = bnd (ask f ev) (\<lambda>x. scope (k x))"
  by (rule ext) (simp add: scope_def bnd_def ask_def split: prod.split flow.split)

lemma outcome_ask: "outcome (bnd (ask f ev) k) s = outcome (k (fst (f (world s)))) (s\<lparr>world := snd (f (world s))\<rparr>)"
  by (simp add: outcome_def bnd_def ask_def split: prod.split)

lemma events_ask: "events (bnd (ask f ev) k) s =
    ev (fst (f (world s))) # events (k (fst (f (world s)))) (s\<lparr>world := snd (f (world s))\<rparr>)"
  by (simp add: events_def bnd_def ask_def split: prod.split)

section \<open>The calls as programs\<close>

text \<open>\<open>r.Get\<close>, \<open>r.List\<close>, \<open>r.Create\<close>, \<open>r.Update\<close>, \<open>r.Delete\<close> and the typed clientsets' \<open>Get\<close>, \<open>List\<close>, \<open>Create\<close>, \<open>Update\<close>.\<close>

definition k_get :: "'w services \<Rightarrow> target \<Rightarrow> kind \<Rightarrow> string \<Rightarrow> string \<Rightarrow> ('w, 'r, error + resource) go" where
  "k_get S t k ns n = ask (svc_get S t k ns n) (\<lambda>r. EvGet t k ns n (err_of r))"

definition k_list :: "'w services \<Rightarrow> target \<Rightarrow> kind \<Rightarrow> string \<Rightarrow> (string \<times> string) list \<Rightarrow> ('w, 'r, error + resource list) go" where
  "k_list S t k ns sel = ask (svc_list S t k ns sel) (\<lambda>r. EvList t k ns sel (err_of r))"

definition k_create :: "'w services \<Rightarrow> target \<Rightarrow> resource \<Rightarrow> ('w, 'r, error + resource) go" where
  "k_create S t x = ask (svc_create S t x) (\<lambda>r. EvCreate t x (err_of r))"

definition k_update :: "'w services \<Rightarrow> target \<Rightarrow> resource \<Rightarrow> ('w, 'r, error + resource) go" where
  "k_update S t x = ask (svc_update S t x) (\<lambda>r. EvUpdate t x (err_of r))"

definition k_delete :: "'w services \<Rightarrow> target \<Rightarrow> resource \<Rightarrow> ('w, 'r, error option) go" where
  "k_delete S t x = ask (svc_delete S t x) (\<lambda>r. EvDelete t (rKind x) (Namespace x) (Name x) r)"

definition u_get :: "'w services \<Rightarrow> string \<Rightarrow> string \<Rightarrow> ('w, 'r, error + Universe) go" where
  "u_get S ns n = ask (svc_get_universe S ns n) (\<lambda>r. EvGetUniverse ns n (err_of r))"

definition u_create :: "'w services \<Rightarrow> Universe \<Rightarrow> ('w, 'r, error + Universe) go" where
  "u_create S u = ask (svc_create_universe S u) (\<lambda>r. EvCreateUniverse u (err_of r))"

definition u_update :: "'w services \<Rightarrow> Universe \<Rightarrow> ('w, 'r, error + Universe) go" where
  "u_update S u = ask (svc_update_universe S u) (\<lambda>r. EvUpdateUniverse u (err_of r))"

definition u_status :: "'w services \<Rightarrow> Universe \<Rightarrow> ('w, 'r, error + Universe) go" where
  "u_status S u = ask (svc_status_universe S u) (\<lambda>r. EvStatusUniverse u (err_of r))"

definition u_delete :: "'w services \<Rightarrow> Universe \<Rightarrow> ('w, 'r, error option) go" where
  "u_delete S u = ask (svc_delete_universe S u) (\<lambda>r. EvDeleteUniverse (Namespace u) (Name u) r)"

definition t_get :: "'w services \<Rightarrow> string \<Rightarrow> string \<Rightarrow> ('w, 'r, error + Trigger) go" where
  "t_get S ns n = ask (svc_get_trigger S ns n) (\<lambda>r. EvGetTrigger ns n (err_of r))"

definition t_status :: "'w services \<Rightarrow> Trigger \<Rightarrow> ('w, 'r, error + Trigger) go" where
  "t_status S t = ask (svc_status_trigger S t) (\<lambda>r. EvStatusTrigger t (err_of r))"

definition record_event :: "string \<Rightarrow> string \<Rightarrow> ('w, 'r, unit) go" where
  "record_event ns n = ask (\<lambda>w. ((), w)) (\<lambda>_. EvRecord ns n)"

definition ing_list :: "'w services \<Rightarrow> target \<Rightarrow> string \<Rightarrow> ('w, 'r, error + ingress list) go" where
  "ing_list S t ns = ask (svc_list_ingresses S t ns) (\<lambda>r. EvListIngresses t ns (err_of r))"

definition ing_update :: "'w services \<Rightarrow> target \<Rightarrow> string \<Rightarrow> ingress \<Rightarrow> ('w, 'r, error option) go" where
  "ing_update S t ns i = ask (svc_update_ingress S t ns i) (\<lambda>r. EvUpdateIngress t ns i r)"

definition gcp_get :: "'w services \<Rightarrow> gcp_api \<Rightarrow> string list \<Rightarrow> ('w, 'r, error + gcp_object option) go" where
  "gcp_get S a args = ask (svc_gcp S a args) (\<lambda>r. EvGcp a args (err_of r))"

definition find_credentials :: "'w services \<Rightarrow> ('w, 'r, error + string) go" where
  "find_credentials S = ask (svc_credentials S) (\<lambda>r. EvCredentials (err_of r))"

definition new_service :: "'w services \<Rightarrow> gcp_api \<Rightarrow> ('w, 'r, error option) go" where
  "new_service S a = ask (svc_new_service S a) (EvNewService a)"

definition registry_tags :: "'w services \<Rightarrow> string \<Rightarrow> ('w, 'r, error + string list) go" where
  "registry_tags S repo = ask (svc_registry_tags S repo) (\<lambda>r. EvRegistryTags repo (err_of r))"

definition pulls_list :: "'w services \<Rightarrow> string \<Rightarrow> string \<Rightarrow> string \<Rightarrow> string \<Rightarrow> ('w, 'r, error + pull list) go" where
  "pulls_list S tok owner repo state =
     ask (\<lambda>w. case svc_repo_request S owner repo of
         Some err \<Rightarrow> (Inl err, w)
       | None \<Rightarrow> svc_list_pulls S tok owner repo state w) (\<lambda>r. EvListPulls owner repo state (err_of r))"

definition github_do :: "'w services \<Rightarrow> string \<Rightarrow> string \<times> comment \<Rightarrow> ('w, 'r, error option) go" where
  "github_do S tok req = ask (svc_do S tok req) (EvComment req)"

definition edit_labels :: "'w services \<Rightarrow> string \<Rightarrow> string \<Rightarrow> string \<Rightarrow> int \<Rightarrow> string list \<Rightarrow> ('w, 'r, error option) go" where
  "edit_labels S tok owner repo n ls =
     ask (\<lambda>w. case svc_repo_request S owner repo of
         Some err \<Rightarrow> (Some err, w)
       | None \<Rightarrow> svc_edit_labels S tok owner repo n ls w) (EvEditLabels owner repo n ls)"

definition write_file :: "'w services \<Rightarrow> string \<Rightarrow> string \<Rightarrow> ('w, 'r, error option) go" where
  "write_file S path content = ask (svc_write_file S path content) (EvWriteFile path)"

definition helm_init :: "'w services \<Rightarrow> helm_settings \<Rightarrow> string \<Rightarrow> ('w, 'r, error option) go" where
  "helm_init S cfg ns = ask (svc_helm_init S cfg ns) (EvHelmInit cfg ns)"

definition helm_locate :: "'w services \<Rightarrow> helm_settings \<Rightarrow> string \<Rightarrow> ('w, 'r, error + string) go" where
  "helm_locate S cfg url = ask (svc_helm_locate S cfg url) (\<lambda>r. EvHelmLocate url (err_of r))"

definition helm_load :: "'w services \<Rightarrow> string \<Rightarrow> ('w, 'r, error + string) go" where
  "helm_load S path = ask (svc_helm_load S path) (\<lambda>r. EvHelmLoad path (err_of r))"

definition helm_run :: "'w services \<Rightarrow> helm_settings \<Rightarrow> string \<Rightarrow> string \<Rightarrow> string \<Rightarrow> val \<Rightarrow> ('w, 'r, error option) go" where
  "helm_run S cfg ns rel chart vals =
     ask (svc_helm_run S cfg ns rel chart vals) (EvHelmRun cfg ns rel vals)"

lemmas call_defs = k_get_def k_list_def k_create_def k_update_def k_delete_def u_get_def u_create_def
  u_update_def u_status_def u_delete_def t_get_def t_status_def record_event_def ing_list_def
  ing_update_def gcp_get_def find_credentials_def new_service_def registry_tags_def pulls_list_def
  github_do_def edit_labels_def write_file_def helm_init_def helm_locate_def helm_load_def helm_run_def

lemma emits_kube [emits_intros]:
  "(\<And>e. P (EvGet t k ns n e)) \<Longrightarrow> emits P (k_get S t k ns n)"
  "(\<And>e. P (EvList t k ns sel e)) \<Longrightarrow> emits P (k_list S t k ns sel)"
  "(\<And>e. P (EvCreate t x e)) \<Longrightarrow> emits P (k_create S t x)"
  "(\<And>e. P (EvUpdate t x e)) \<Longrightarrow> emits P (k_update S t x)"
  "(\<And>e. P (EvDelete t (rKind x) (Namespace x) (Name x) e)) \<Longrightarrow> emits P (k_delete S t x)"
  "(\<And>e. P (EvListIngresses t ns e)) \<Longrightarrow> emits P (ing_list S t ns)"
  "(\<And>e. P (EvUpdateIngress t ns i e)) \<Longrightarrow> emits P (ing_update S t ns i)"
  by (simp_all add: call_defs emits_ask)

lemma emits_custom [emits_intros]:
  "(\<And>e. P (EvGetUniverse ns n e)) \<Longrightarrow> emits P (u_get S ns n)"
  "(\<And>e. P (EvCreateUniverse u e)) \<Longrightarrow> emits P (u_create S u)"
  "(\<And>e. P (EvUpdateUniverse u e)) \<Longrightarrow> emits P (u_update S u)"
  "(\<And>e. P (EvStatusUniverse u e)) \<Longrightarrow> emits P (u_status S u)"
  "(\<And>e. P (EvDeleteUniverse (Namespace u) (Name u) e)) \<Longrightarrow> emits P (u_delete S u)"
  "(\<And>e. P (EvGetTrigger ns n e)) \<Longrightarrow> emits P (t_get S ns n)"
  "(\<And>e. P (EvStatusTrigger tr e)) \<Longrightarrow> emits P (t_status S tr)"
  "P (EvRecord ns n) \<Longrightarrow> emits P (record_event ns n)"
  by (simp_all add: call_defs emits_ask)

lemma emits_cloud [emits_intros]:
  "(\<And>e. P (EvGcp a args e)) \<Longrightarrow> emits P (gcp_get S a args)"
  "(\<And>e. P (EvCredentials e)) \<Longrightarrow> emits P (find_credentials S)"
  "(\<And>e. P (EvNewService a e)) \<Longrightarrow> emits P (new_service S a)"
  "(\<And>e. P (EvRegistryTags repo e)) \<Longrightarrow> emits P (registry_tags S repo)"
  "(\<And>e. P (EvListPulls owner repo state e)) \<Longrightarrow> emits P (pulls_list S tok owner repo state)"
  "(\<And>e. P (EvComment req e)) \<Longrightarrow> emits P (github_do S tok req)"
  "(\<And>e. P (EvEditLabels owner repo i ls e)) \<Longrightarrow> emits P (edit_labels S tok owner repo i ls)"
  "(\<And>e. P (EvWriteFile path e)) \<Longrightarrow> emits P (write_file S path content)"
  "(\<And>e. P (EvHelmInit cfg ns e)) \<Longrightarrow> emits P (helm_init S cfg ns)"
  "(\<And>e. P (EvHelmLocate url e)) \<Longrightarrow> emits P (helm_locate S cfg url)"
  "(\<And>e. P (EvHelmLoad path e)) \<Longrightarrow> emits P (helm_load S path)"
  "(\<And>e. P (EvHelmRun cfg ns rel vals e)) \<Longrightarrow> emits P (helm_run S cfg ns rel chart vals)"
  by (simp_all add: call_defs emits_ask)

text \<open>Calls through a clientset pointer.\<close>

definition through :: "clientset \<Rightarrow> (target \<Rightarrow> ('w, 'r, 'a) go) \<Rightarrow> ('w, 'r, 'a) go" where
  "through cs f = (case cs of None \<Rightarrow> panic ''nil clientset'' | Some t \<Rightarrow> f t)"

lemma through_Some [simp]: "through (Some t) f = f t"
  by (simp add: through_def)

lemma through_None [simp]: "through None f = panic ''nil clientset''"
  by (simp add: through_def)

lemma emits_through [emits_intros]: "(\<And>t. cs = Some t \<Longrightarrow> emits P (f t)) \<Longrightarrow> emits P (through cs f)"
  by (cases cs) (auto intro: emits_panic)

lemma sat_through [sat_intros]: "(\<And>t. cs = Some t \<Longrightarrow> sat P V R (f t)) \<Longrightarrow> sat P V R (through cs f)"
  by (cases cs) (auto intro: sat_panic)

text \<open>
  \<open>kubernetes.NewForConfig(cfg)\<close> and \<open>dynamic.NewForConfig(cfg)\<close>: they read through \<open>cfg\<close>, so that a
  nil configuration panics (\<open>None\<close>), and the client they make talks to the cluster at the
  configuration's host.
\<close>

definition client_of :: "(rest_config \<Rightarrow> error option) \<Rightarrow> rest_config option \<Rightarrow> (error + target) option" where
  "client_of check cfg = (case cfg of None \<Rightarrow> None
     | Some c \<Rightarrow> Some (case check c of Some e \<Rightarrow> Inl e | None \<Rightarrow> Inr (Remote (Host c))))"

definition NewForConfig :: "'w services \<Rightarrow> rest_config option \<Rightarrow> (error + target) option" where
  "NewForConfig S cfg = client_of (svc_new_for_config S) cfg"

definition DynamicForConfig :: "'w services \<Rightarrow> rest_config option \<Rightarrow> (error + target) option" where
  "DynamicForConfig S cfg = client_of (svc_dynamic_for_config S) cfg"

lemma client_None [simp]: "NewForConfig S None = None" "DynamicForConfig S None = None"
  by (simp_all add: NewForConfig_def DynamicForConfig_def client_of_def)

lemma client_remote:
  "NewForConfig S cfg = Some (Inr t) \<Longrightarrow> \<exists>c. cfg = Some c \<and> t = Remote (Host c)"
  "DynamicForConfig S cfg = Some (Inr t) \<Longrightarrow> \<exists>c. cfg = Some c \<and> t = Remote (Host c)"
  by (auto simp: NewForConfig_def DynamicForConfig_def client_of_def split: option.splits)

text \<open>\<open>clientset, _ := kubernetes.NewForConfig(cfg)\<close>: the error is dropped.\<close>

definition new_clientset :: "'w services \<Rightarrow> rest_config option \<Rightarrow> ('w, 'r, clientset) go" where
  "new_clientset S cfg = (case NewForConfig S cfg of
       None \<Rightarrow> panic ''nil config''
     | Some (Inl e) \<Rightarrow> ret None
     | Some (Inr t) \<Rightarrow> ret (Some t))"

text \<open>The same with the error returned to the caller; \<open>dynamic.NewForConfig\<close> likewise.\<close>

definition clientset_or_err :: "(error + target) option \<Rightarrow> ('w, 'r, error + target) go" where
  "clientset_or_err r = (case r of None \<Rightarrow> panic ''nil config'' | Some x \<Rightarrow> ret x)"

lemma sat_new_clientset [sat_intros]: "sat P (\<lambda>_. True) R (new_clientset S cfg)"
  by (auto simp: new_clientset_def intro!: sat_intros split: option.split sum.split)

lemma emits_new_clientset [emits_intros]: "emits P (new_clientset S cfg)"
  unfolding emits_sat by (rule sat_new_clientset)

lemma sat_clientset_or_err [sat_intros]: "sat P (\<lambda>_. True) R (clientset_or_err r)"
  by (auto simp: clientset_or_err_def intro!: sat_intros)

lemma emits_clientset_or_err [emits_intros]: "emits P (clientset_or_err r)"
  unfolding emits_sat by (rule sat_clientset_or_err)

section \<open>The environment and the clock\<close>

text \<open>\<open>os.Setenv\<close> and \<open>os.Getenv\<close>: variables the process has not set keep their initial value.\<close>

definition setenv :: "string \<Rightarrow> string \<Rightarrow> ('w, 'r, unit) go" where
  "setenv k v = (\<lambda>s. (Next (), [EvSetenv k v], s\<lparr>penv := AList.update k v (penv s)\<rparr>))"

definition env_get :: "'w services \<Rightarrow> 'w st \<Rightarrow> string \<Rightarrow> string" where
  "env_get S s k = (case map_of (penv s) k of None \<Rightarrow> svc_init_env S k | Some v \<Rightarrow> v)"

definition getenv :: "'w services \<Rightarrow> string \<Rightarrow> ('w, 'r, string) go" where
  "getenv S k = (\<lambda>s. (Next (env_get S s k), [], s))"

text \<open>\<open>cli.New()\<close> reads Helm's settings from the environment.\<close>

definition cli_New :: "'w services \<Rightarrow> ('w, 'r, helm_settings) go" where
  "cli_New S = (\<lambda>s. (Next \<lparr> KubeToken = env_get S s ''HELM_KUBETOKEN'',
     KubeAPIServer = env_get S s ''HELM_KUBEAPISERVER'',
     KubeCaFile = env_get S s ''HELM_KUBECAFILE'' \<rparr>, [], s))"

text \<open>The captured variable.\<close>

definition assign :: "resource \<Rightarrow> ('w, 'r, unit) go" where
  "assign x = (\<lambda>s. (Next (), [], s\<lparr>captured := x\<rparr>))"

definition fetch :: "('w, 'r, resource) go" where
  "fetch = (\<lambda>s. (Next (captured s), [], s))"

lemma sat_assign [sat_intros]: "sat P (\<lambda>_. True) R (assign x)"
  by (simp add: sat_def run_defs assign_def)

lemma sat_fetch [sat_intros]: "sat P (\<lambda>_. True) R fetch"
  by (simp add: sat_def run_defs fetch_def)

lemma emits_captured [emits_intros]: "emits P (assign x)" "emits P fetch"
  unfolding emits_sat by (rule sat_assign sat_fetch)+

text \<open>\<open>time.Now()\<close>, in nanoseconds.\<close>

definition now :: "'w services \<Rightarrow> ('w, 'r, int) go" where
  "now S = (\<lambda>s. (Next (svc_clock S (world s)), [], s))"

lemma sat_setenv [sat_intros]: "P (EvSetenv k v) \<Longrightarrow> sat P (\<lambda>_. True) R (setenv k v)"
  by (simp add: sat_def run_defs setenv_def)

lemma sat_getenv [sat_intros]: "sat P (\<lambda>_. True) R (getenv S k)"
  by (simp add: sat_def run_defs getenv_def)

lemma sat_cli_New [sat_intros]: "sat P (\<lambda>_. True) R (cli_New S)"
  by (simp add: sat_def run_defs cli_New_def)

lemma sat_now [sat_intros]: "sat P (\<lambda>_. True) R (now S)"
  by (simp add: sat_def run_defs now_def)

lemma emits_process [emits_intros]:
  "P (EvSetenv k v) \<Longrightarrow> emits P (setenv k v)"
  "emits P (getenv S k)"
  "emits P (cli_New S)"
  "emits P (now S)"
  unfolding emits_sat by (auto intro: sat_setenv sat_getenv sat_cli_New sat_now)

lemma env_get_update [simp]:
  "env_get S (s\<lparr>penv := AList.update k v e\<rparr>) k' =
     (if k' = k then v else env_get S (s\<lparr>penv := e\<rparr>) k')"
  by (simp add: env_get_def update_conv')

section \<open>Guarded creates\<close>

text \<open>
  The discipline of the creates of a built-in or Config Connector object: a create comes right after
  a get of the very same object that answered NotFound.  \<open>G\<close> tells which creates are meant.
\<close>

definition asked_for :: "target \<Rightarrow> resource \<Rightarrow> event" where
  "asked_for t x = EvGet t (rKind x) (Namespace x) (Name x) (Some ENotFound)"

fun guarded_after :: "(target \<Rightarrow> resource \<Rightarrow> bool) \<Rightarrow> event option \<Rightarrow> event list \<Rightarrow> bool" where
  "guarded_after G prev [] = True"
| "guarded_after G prev (EvCreate t x e # es) = ((G t x \<longrightarrow> prev = Some (asked_for t x)) \<and> guarded_after G (Some (EvCreate t x e)) es)"
| "guarded_after G prev (e # es) = guarded_after G (Some e) es"

definition guarded :: "(target \<Rightarrow> resource \<Rightarrow> bool) \<Rightarrow> event list \<Rightarrow> bool" where
  "guarded G es = guarded_after G None es"

abbreviation any_create :: "target \<Rightarrow> resource \<Rightarrow> bool" where
  "any_create \<equiv> \<lambda>t x. True"

definition is_create :: "event \<Rightarrow> bool" where
  "is_create e = (case e of EvCreate t x r \<Rightarrow> True | _ \<Rightarrow> False)"

lemma guarded_after_Cons:
  "guarded_after G prev (e # es) \<longleftrightarrow>
    (\<forall>t x r. e = EvCreate t x r \<and> G t x \<longrightarrow> prev = Some (asked_for t x)) \<and> guarded_after G (Some e) es"
  by (cases e) auto

lemma guarded_after_weaken: "guarded_after G None es \<Longrightarrow> guarded_after G prev es"
  by (cases es) (force simp: guarded_after_Cons)+

lemma guarded_after_append:
  "guarded_after G prev xs \<Longrightarrow> guarded_after G None ys \<Longrightarrow> guarded_after G prev (xs @ ys)"
  by (induction xs arbitrary: prev) (auto simp: guarded_after_Cons guarded_after_weaken)

lemma compositional_guarded [traces_intros]: "compositional (guarded G)"
  by (simp add: compositional_def guarded_def guarded_after_append)

lemma guarded_single: "\<not> is_create e \<Longrightarrow> guarded G [e]"
  by (auto simp: guarded_def guarded_after_Cons is_create_def)

lemma guarded_create: "guarded G [asked_for t x, EvCreate t x e]"
  by (simp add: guarded_def guarded_after_Cons asked_for_def)

lemma guarded_afterD:
  "guarded_after G prev (us @ EvCreate t x e # vs) \<Longrightarrow> G t x \<Longrightarrow>
    (us = [] \<and> prev = Some (asked_for t x)) \<or> (\<exists>us'. us = us' @ [asked_for t x])"
proof (induction us arbitrary: prev)
  case (Cons u us)
  then have "guarded_after G (Some u) (us @ EvCreate t x e # vs)" by (simp add: guarded_after_Cons)
  from Cons.IH [OF this Cons.prems(2)] show ?case by (auto intro: exI[of _ "[]"])
qed simp

lemma guardedD: "guarded G (us @ EvCreate t x e # vs) \<Longrightarrow> G t x \<Longrightarrow> \<exists>us'. us = us' @ [asked_for t x]"
  unfolding guarded_def by (drule guarded_afterD) auto

text \<open>A program that creates nothing is guarded, and so is a get followed by the create.\<close>

lemma traces_no_create: "emits (\<lambda>e. \<not> is_create e) m \<Longrightarrow> traces (guarded G) m"
  by (rule traces_emits [OF compositional_guarded guarded_single])

lemma traces_get_create:
  fixes S :: "'a services"
  assumes k: "\<And>c. traces (guarded G) (f c)" and g: "\<And>y. traces (guarded G) (g y)"
    and h: "\<And>e. e \<noteq> ENotFound \<Longrightarrow> traces (guarded G) (h e)"
    and x: "rKind x = k" "Namespace x = ns" "Name x = n"
  shows "traces (guarded G) (bnd (k_get S t k ns n) (\<lambda>r. case r of Inr y \<Rightarrow> g y
     | Inl e \<Rightarrow> (if IsNotFound (Some e) then bnd (k_create S t x) f else h e)))"
  unfolding traces_def
proof (intro conjI allI)
  fix s :: "'a st"
  let ?r = "fst (svc_get S t k ns n (world s))" and ?s = "s\<lparr>world := snd (svc_get S t k ns n (world s))\<rparr>"
  have app: "guarded G (es @ es')" if "guarded G es" "guarded G es'" for es es'
    using compositional_guarded that by (simp add: compositional_def)
  have one: "guarded G (EvGet t k ns n e # events m s')" if "traces (guarded G) m" for e m s'
    using app [OF guarded_single tracesD [OF that]] by (simp add: is_create_def)
  show "guarded G (events (bnd (k_get S t k ns n) (\<lambda>r. case r of Inr y \<Rightarrow> g y
     | Inl e \<Rightarrow> (if IsNotFound (Some e) then bnd (k_create S t x) f else h e))) s)"
  proof (cases ?r)
    case (Inr y)
    then show ?thesis by (simp add: k_get_def events_ask one g)
  next
    case (Inl e)
    show ?thesis
    proof (cases "e = ENotFound")
      case True
      let ?c = "fst (svc_create S t x (world ?s))" and ?s' = "?s\<lparr>world := snd (svc_create S t x (world ?s))\<rparr>"
      have "guarded G ([asked_for t x, EvCreate t x (err_of ?c)] @ events (f ?c) ?s')"
        using app [OF guarded_create tracesD [OF k]] .
      with Inl True x show ?thesis by (simp add: k_get_def k_create_def events_ask asked_for_def)
    next
      case False
      with Inl show ?thesis by (simp add: k_get_def events_ask IsNotFound_def one h)
    qed
  qed
qed (rule compositional_guarded)

lemma is_create_simps [simp]:
  "is_create (EvCreate t x e)" "\<not> is_create (EvGet t k ns n e)" "\<not> is_create (EvList t k ns sel e)"
  "\<not> is_create (EvUpdate t x e)" "\<not> is_create (EvDelete t k ns n e)"
  "\<not> is_create (EvGetUniverse ns n e)" "\<not> is_create (EvCreateUniverse u e)"
  "\<not> is_create (EvUpdateUniverse u e)" "\<not> is_create (EvStatusUniverse u e)"
  "\<not> is_create (EvDeleteUniverse ns n e)" "\<not> is_create (EvGetTrigger ns n e)"
  "\<not> is_create (EvStatusTrigger tr e)" "\<not> is_create (EvRecord ns n)"
  "\<not> is_create (EvListIngresses t ns e)" "\<not> is_create (EvUpdateIngress t ns i e)"
  "\<not> is_create (EvGcp a args e)" "\<not> is_create (EvCredentials e)" "\<not> is_create (EvNewService a e)"
  "\<not> is_create (EvRegistryTags repo e)" "\<not> is_create (EvListPulls owner repo state e)"
  "\<not> is_create (EvComment req e)" "\<not> is_create (EvEditLabels owner repo num ls e)"
  "\<not> is_create (EvWriteFile path e)" "\<not> is_create (EvSetenv key v)" "\<not> is_create (EvHelmInit cfg ns e)"
  "\<not> is_create (EvHelmLocate url e)" "\<not> is_create (EvHelmLoad path e)"
  "\<not> is_create (EvHelmRun cfg ns rel vals e)" "\<not> is_create (EvSleep d)"
  by (simp_all add: is_create_def)

end
