(* ===== verification/Common.thy ===== *)
theory Common
  imports Services
begin

text \<open>
  \<^verbatim>\<open>pkg/common/common.go\<close>: the status strings and names the controllers share.  A package
  variable read from the environment keeps the value of the process's start.
\<close>

definition NotCreatedStatus :: string where "NotCreatedStatus = ''NotReady''"
definition RunningStatus :: string where "RunningStatus = ''Healthy''"
definition ErrorStatus :: string where "ErrorStatus = ''Error''"
definition CreatingStatus :: string where "CreatingStatus = ''Creating''"
definition ReconcilingStatus :: string where "ReconcilingStatus = ''Reconciling''"
definition ClusterServiceAccountName :: string where "ClusterServiceAccountName = ''preview-cluster-sa''"
definition ExternalSecretSaId :: string where
  "ExternalSecretSaId = ''external-secret@org-playground.iam.gserviceaccount.com''"
definition ResourcePatcherSaId :: "'w services \<Rightarrow> string" where
  "ResourcePatcherSaId S = svc_init_env S ''RESOURCE_PATCHER_SA_ID''"
definition VeleroSaId :: "'w services \<Rightarrow> string" where
  "VeleroSaId S = svc_init_env S ''VELERO_SA_ID''"
definition VeleroBackupBucket :: "'w services \<Rightarrow> string" where
  "VeleroBackupBucket S = svc_init_env S ''VELERO_BACKUP_BUCKET''"
definition CloudFlareApiToken :: string where "CloudFlareApiToken = ''CLOUDFLARE_API_TOKEN''"
definition CloudFlareDomainFilter :: string where "CloudFlareDomainFilter = ''CLOUDFLARE_DOMAIN_FILTER''"
definition CloudFlareZoneIdFilter :: string where "CloudFlareZoneIdFilter = ''CLOUDFLARE_ZONEID_FILTER''"
definition GlobalResourceTimeOutMinutes :: int where "GlobalResourceTimeOutMinutes = 60"

text \<open>\<open>time.Minute\<close>, in nanoseconds.\<close>

definition Minute :: int where "Minute = 60 * 1000000000"

lemmas status_defs = NotCreatedStatus_def RunningStatus_def ErrorStatus_def CreatingStatus_def
  ReconcilingStatus_def

end
