(* ===== verification/Demo.thy ===== *)
theory Demo
  imports Common
begin

text \<open>
  A concrete world to run the model in: an API server that keeps objects in a list, a Google
  Cloud in which everything asked for is running, a GitHub with a list of pull requests and a
  clock that moves when the operator sleeps.  The witnesses evaluate the properties in it, and it
  shows that the hypotheses the properties make of the services can hold together.  It models no
  code of the repository.
\<close>

record demo =
  dObjects :: "(target \<times> resource) list"
  dUniverses :: "Universe list"
  dTriggers :: "Trigger list"
  dPulls :: "(string \<times> pull list) list"
  dIngresses :: "ingress list"
  dClock :: int

definition demo_world :: demo where
  "demo_world = \<lparr> dObjects = [], dUniverses = [], dTriggers = [], dPulls = [], dIngresses = [], dClock = 0 \<rparr>"

definition same_key :: "target \<Rightarrow> kind \<Rightarrow> string \<Rightarrow> string \<Rightarrow> target \<times> resource \<Rightarrow> bool" where
  "same_key t k ns n p = (fst p = t \<and> rKind (snd p) = k \<and> Namespace (snd p) = ns \<and> Name (snd p) = n)"

definition same_universe :: "string \<Rightarrow> string \<Rightarrow> ('a CustomObjectMeta_scheme) \<Rightarrow> bool" where
  "same_universe ns n u = (Namespace u = ns \<and> Name u = n)"

definition or_not_found :: "'a option \<Rightarrow> error + 'a" where
  "or_not_found x = (case x of None \<Rightarrow> Inl ENotFound | Some a \<Rightarrow> Inr a)"

definition demo_create :: "target \<Rightarrow> resource \<Rightarrow> demo \<Rightarrow> (error + resource) \<times> demo" where
  "demo_create t x w =
     (if find (same_key t (rKind x) (Namespace x) (Name x)) (dObjects w) = None
      then (Inr x, w\<lparr>dObjects := dObjects w @ [(t, x)]\<rparr>) else (Inl EAlreadyExists, w))"

definition demo_update :: "target \<Rightarrow> resource \<Rightarrow> demo \<Rightarrow> (error + resource) \<times> demo" where
  "demo_update t x w =
     (if find (same_key t (rKind x) (Namespace x) (Name x)) (dObjects w) = None then (Inl ENotFound, w)
      else (Inr x, w\<lparr>dObjects := map (\<lambda>p. if same_key t (rKind x) (Namespace x) (Name x) p then (t, x) else p) (dObjects w)\<rparr>))"

definition demo_delete :: "target \<Rightarrow> resource \<Rightarrow> demo \<Rightarrow> error option \<times> demo" where
  "demo_delete t x w =
     (if find (same_key t (rKind x) (Namespace x) (Name x)) (dObjects w) = None then (Some ENotFound, w)
      else (None, w\<lparr>dObjects := filter (\<lambda>p. \<not> same_key t (rKind x) (Namespace x) (Name x) p) (dObjects w)\<rparr>))"

definition demo_create_universe :: "Universe \<Rightarrow> demo \<Rightarrow> (error + Universe) \<times> demo" where
  "demo_create_universe u w =
     (if find (same_universe (Namespace u) (Name u)) (dUniverses w) = None
      then (Inr u, w\<lparr>dUniverses := dUniverses w @ [u]\<rparr>) else (Inl EAlreadyExists, w))"

definition demo_put_universe :: "(Universe \<Rightarrow> Universe) \<Rightarrow> Universe \<Rightarrow> demo \<Rightarrow> (error + Universe) \<times> demo" where
  "demo_put_universe f u w =
     (case find (same_universe (Namespace u) (Name u)) (dUniverses w) of
        None \<Rightarrow> (Inl ENotFound, w)
      | Some v \<Rightarrow> (Inr (f v), w\<lparr>dUniverses := map (\<lambda>v. if same_universe (Namespace u) (Name u) v then f v else v) (dUniverses w)\<rparr>))"

text \<open>A status update is refused when the specification or its generation has changed in between.\<close>

definition demo_put_status :: "Universe \<Rightarrow> demo \<Rightarrow> (error + Universe) \<times> demo" where
  "demo_put_status u w =
     (case find (same_universe (Namespace u) (Name u)) (dUniverses w) of
        None \<Rightarrow> (Inl ENotFound, w)
      | Some v \<Rightarrow> (if uSpec v = uSpec u \<and> Generation v = Generation u then demo_put_universe (\<lambda>v. v\<lparr>uStatus := uStatus u\<rparr>) u w else (Inl EConflict, w)))"

definition demo_running :: gcp_object where
  "demo_running = \<lparr> SelfLink = ''link'', GcpStatus = ''RUNNING'', State = ''RUNNABLE'',
     TimeCreated = ''now'', Endpoint = ''10.0.0.1'', MasterAuthCa = Some [] \<rparr>"

definition demo_services :: "demo services" where
  "demo_services = \<lparr>
     svc_get = (\<lambda>t k ns n w. (or_not_found (map_option snd (find (same_key t k ns n) (dObjects w))), w)),
     svc_list = (\<lambda>t k ns sel w. (Inr (map snd (filter (\<lambda>p. fst p = t \<and> rKind (snd p) = k \<and>
        (ns = [] \<or> Namespace (snd p) = ns) \<and>
        list_all (\<lambda>(l, v). mlookup (Labels (snd p)) l = Some v) sel) (dObjects w))), w)),
     svc_create = demo_create,
     svc_update = demo_update,
     svc_delete = demo_delete,
     svc_get_universe = (\<lambda>ns n w. (or_not_found (find (same_universe ns n) (dUniverses w)), w)),
     svc_create_universe = demo_create_universe,
     svc_update_universe = (\<lambda>u. demo_put_universe (\<lambda>v. u) u),
     svc_status_universe = demo_put_status,
     svc_delete_universe = (\<lambda>u w. (None, w\<lparr>dUniverses := filter (\<lambda>v. \<not> same_universe (Namespace u) (Name u) v) (dUniverses w)\<rparr>)),
     svc_get_trigger = (\<lambda>ns n w. (or_not_found (find (same_universe ns n) (dTriggers w)), w)),
     svc_status_trigger = (\<lambda>t w. (Inr t, w)),
     svc_set_controller_reference = (\<lambda>okind ons oname x. if Namespace x = ons then Some (okind, oname) else Controller x),
     svc_contains_finalizer = (\<lambda>fs f. f \<in> set fs),
     svc_add_finalizer = (\<lambda>fs f. fs @ [f]),
     svc_remove_finalizer = (\<lambda>fs f. removeAll f fs),
     svc_new_for_config = (\<lambda>cfg. None),
     svc_dynamic_for_config = (\<lambda>cfg. None),
     svc_phase = (\<lambda>x. Inr ''Completed''),
     svc_list_ingresses = (\<lambda>t ns w. (Inr (dIngresses w), w)),
     svc_update_ingress = (\<lambda>t ns i w. (None, w\<lparr>dIngresses := map (\<lambda>j. if IngressName j = IngressName i then i else j) (dIngresses w)\<rparr>)),
     svc_gcp = (\<lambda>a args w. (Inr (Some demo_running), w)),
     svc_credentials = (\<lambda>w. (Inr ''token'', w)),
     svc_new_service = (\<lambda>a w. (None, w)),
     svc_new_repository = (\<lambda>r. None),
     svc_registry_tags = (\<lambda>r w. (Inr [''main-1'', ''pr-7-ab''], w)),
     svc_regexp = (\<lambda>re. Some (\<lambda>s. is_prefix (remove_all CHR ''^'' re) s)),
     svc_repo_request = (\<lambda>ow repo. None),
     svc_list_pulls = (\<lambda>tok ow repo state w. (Inr (case map_of (dPulls w) state of None \<Rightarrow> [] | Some ps \<Rightarrow> ps), w)),
     svc_do = (\<lambda>tok req w. (None, w)),
     svc_edit_labels = (\<lambda>tok ow repo n ls w.
        (None, w\<lparr>dPulls := map (\<lambda>(st, ps). (st, map (\<lambda>p. if Number p = Some n then p\<lparr>LabelPtrs := map Some ls\<rparr> else p) ps)) (dPulls w)\<rparr>)),
     svc_url_host = (\<lambda>u. Inr u),
     svc_write_file = (\<lambda>p c w. (None, w)),
     svc_helm_init = (\<lambda>cfg ns w. (None, w)),
     svc_helm_locate = (\<lambda>cfg u w. (Inr u, w)),
     svc_helm_load = (\<lambda>p w. (Inr p, w)),
     svc_helm_run = (\<lambda>cfg ns r c v w. (None, w)),
     svc_init_env = (\<lambda>k. []),
     svc_clock = dClock,
     svc_sleep = (\<lambda>d w. w\<lparr>dClock := dClock w + max 0 d\<rparr>),
     svc_pick = (\<lambda>n w. True),
     svc_backoff = (\<lambda>n. if n < 7 then 100000000 * 2 ^ n else 10000000000) \<rparr>"

definition demo_state :: "demo \<Rightarrow> demo st" where
  "demo_state w = \<lparr> world = w, penv = [], captured = zero_resource KSecret \<rparr>"

text \<open>The same with clusters that have a default namespace.\<close>

definition gke_demo :: "demo services" where
  "gke_demo = demo_services\<lparr>svc_get := (\<lambda>t k ns n w.
     if k = KNamespace \<and> n = ''default'' then (Inr ((zero_resource KNamespace)\<lparr>Name := ''default''\<rparr>), w)
     else svc_get demo_services t k ns n w)\<rparr>"

lemmas demo_defs = demo_services_def demo_state_def demo_world_def or_not_found_def demo_create_def
  demo_update_def demo_delete_def demo_create_universe_def demo_put_universe_def demo_put_status_def same_key_def
  same_universe_def demo_running_def

end
