(* ===== verification/Poll.thy ===== *)
theory Poll
  imports Demo
begin

text \<open>
  \<^verbatim>\<open>pkg/poll/poll.go\<close>: the polling loop every wait of the operator goes through.

  A probe is a program that answers an error or whether the condition holds.  The loop may run
  for ever, so it is a \<^theory_text>\<open>partial_function\<close> into \<open>option\<close>, and a run of it that never
  returns is \<open>Hang\<close>.  The context is its deadline; the only contexts the operator polls with
  are \<open>context.WithTimeout(context.Background(), d)\<close>.  The select between the context and the
  timer wakes when one of them is ready; when both are, Go picks one at random, which is the
  \<open>svc_pick\<close> of the services.  \<open>b.Duration()\<close> belongs to the backoff library: its n-th answer
  is \<open>b n\<close>.
\<close>

type_synonym ctx = "int option"
type_synonym 'w probe = "('w, error + bool, error + bool) go"

text \<open>The call \<open>f(ctx)\<close>.\<close>

definition probe_run :: "'w probe \<Rightarrow> ('w, unit, error + bool) go" where
  "probe_run f = scope f"

definition WithTimeout :: "'w services \<Rightarrow> int \<Rightarrow> ('w, 'r, ctx) go" where
  "WithTimeout S d = bnd (now S) (\<lambda>t. ret (Some (t + d)))"

lemma emits_WithTimeout [emits_intros]: "emits P (WithTimeout S d)"
  by (auto simp: WithTimeout_def intro!: emits_intros)

definition ctx_done :: "'w services \<Rightarrow> ctx \<Rightarrow> 'w \<Rightarrow> bool" where
  "ctx_done S ctx w = (case ctx of None \<Rightarrow> False | Some d \<Rightarrow> d \<le> svc_clock S w)"

definition DeadlineExceeded :: error where
  "DeadlineExceeded = EMsg ''context deadline exceeded''"

definition context_done_error :: error where
  "context_done_error = EWrap ''Context done while polling'' DeadlineExceeded"

definition IsAlwaysRetryable :: "error \<Rightarrow> bool" where
  "IsAlwaysRetryable e = True"

definition IsNeverRetryable :: "error \<Rightarrow> bool" where
  "IsNeverRetryable e = False"

definition minDuration :: "int \<Rightarrow> int \<Rightarrow> int" where
  "minDuration a b = (if a < b then a else b)"

section \<open>The loop\<close>

text \<open>What one turn of the loop comes to: the loop's answer, or the next turn.\<close>

datatype turn = Done "error option" | Broke string | Stuck | Again nat

text \<open>The end of a turn: sleep, capped by the time left, and the select.\<close>

definition poll_sleep :: "'w services \<Rightarrow> ctx \<Rightarrow> (nat \<Rightarrow> int) \<Rightarrow> nat \<Rightarrow> 'w st \<Rightarrow> int \<times> 'w st \<times> bool" where
  "poll_sleep S ctx b n s =
     (let t = svc_clock S (world s);
          d = (case ctx of None \<Rightarrow> b n | Some dl \<Rightarrow> minDuration (b n) (dl - t));
          w = svc_sleep S d (world s);
          fired = (t + d \<le> svc_clock S w)
      in (d, s\<lparr>world := w\<rparr>, ctx_done S ctx w \<and> (\<not> fired \<or> svc_pick S n w)))"

text \<open>One turn: the probe, the switch on its answer, the sleep.\<close>

definition poll_turn ::
  "'w services \<Rightarrow> ctx \<Rightarrow> (nat \<Rightarrow> int) \<Rightarrow> int \<Rightarrow> (error \<Rightarrow> bool) \<Rightarrow> 'w probe \<Rightarrow> nat \<Rightarrow> nat \<Rightarrow> 'w st \<Rightarrow>
     turn \<times> event list \<times> 'w st" where
  "poll_turn S ctx b numRetries r f n retries s =
     (case probe_run f s of (o1, es, s1) \<Rightarrow>
       (let rest = (\<lambda>retries'. case poll_sleep S ctx b n s1 of (d, s2, stop) \<Rightarrow>
              (if stop then (Done (Some context_done_error), es @ [EvSleep d], s2)
               else (Again retries', es @ [EvSleep d], s2)))
        in case o1 of
             Next (Inl e) \<Rightarrow>
               (if \<not> r e \<or> numRetries \<le> int retries then (Done (Some e), es, s1) else rest (Suc retries))
           | Next (Inr ok) \<Rightarrow> (if ok then (Done None, es, s1) else rest retries)
           | Return u \<Rightarrow> (Stuck, es, s1)
           | Panic p \<Rightarrow> (Broke p, es, s1)
           | Hang \<Rightarrow> (Stuck, es, s1)))"

partial_function (option) poll_loop ::
  "'w services \<Rightarrow> ctx \<Rightarrow> (nat \<Rightarrow> int) \<Rightarrow> int \<Rightarrow> (error \<Rightarrow> bool) \<Rightarrow> 'w probe \<Rightarrow> nat \<Rightarrow> nat \<Rightarrow> event list \<Rightarrow> 'w st \<Rightarrow>
     ((unit, error option) flow \<times> event list \<times> 'w st) option" where
  "poll_loop S ctx b numRetries r f n retries acc s =
     (case poll_turn S ctx b numRetries r f n retries s of (t, es, s') \<Rightarrow>
       (case t of
          Done e \<Rightarrow> Some (Next e, acc @ es, s')
        | Broke p \<Rightarrow> Some (Panic p, acc @ es, s')
        | Stuck \<Rightarrow> None
        | Again retries' \<Rightarrow> poll_loop S ctx b numRetries r f (Suc n) retries' (acc @ es) s'))"

declare poll_loop.simps [code]

definition WaitWithBackoffWithRetries ::
  "'w services \<Rightarrow> ctx \<Rightarrow> (nat \<Rightarrow> int) \<Rightarrow> int \<Rightarrow> (error \<Rightarrow> bool) \<Rightarrow> 'w probe \<Rightarrow> ('w, 'r, error option) go" where
  "WaitWithBackoffWithRetries S ctx b numRetries r f =
     (if numRetries < 0 then ret (Some (EMsg ''numRetries must be non-negative''))
      else (\<lambda>s. case poll_loop S ctx b numRetries r f 0 0 [] s of
                  None \<Rightarrow> (Hang, [], s)
                | Some (o1, es, s') \<Rightarrow>
                    (case o1 of Next e \<Rightarrow> (Next e, es, s') | Return u \<Rightarrow> (Hang, es, s')
                      | Panic p \<Rightarrow> (Panic p, es, s') | Hang \<Rightarrow> (Hang, es, s'))))"

definition WaitWithBackoff :: "'w services \<Rightarrow> ctx \<Rightarrow> (nat \<Rightarrow> int) \<Rightarrow> 'w probe \<Rightarrow> ('w, 'r, error option) go" where
  "WaitWithBackoff S ctx b f = WaitWithBackoffWithRetries S ctx b 0 IsNeverRetryable f"

definition WaitWithRetries ::
  "'w services \<Rightarrow> ctx \<Rightarrow> int \<Rightarrow> (error \<Rightarrow> bool) \<Rightarrow> 'w probe \<Rightarrow> ('w, 'r, error option) go" where
  "WaitWithRetries S ctx numRetries r f = WaitWithBackoffWithRetries S ctx (svc_backoff S) numRetries r f"

definition Wait :: "'w services \<Rightarrow> ctx \<Rightarrow> 'w probe \<Rightarrow> ('w, 'r, error option) go" where
  "Wait S ctx f = WaitWithBackoff S ctx (svc_backoff S) f"

section \<open>The turns a run of the loop goes through\<close>

inductive poll_reach ::
  "'w services \<Rightarrow> ctx \<Rightarrow> (nat \<Rightarrow> int) \<Rightarrow> int \<Rightarrow> (error \<Rightarrow> bool) \<Rightarrow> 'w probe \<Rightarrow> 'w st \<Rightarrow>
     nat \<Rightarrow> nat \<Rightarrow> event list \<Rightarrow> 'w st \<Rightarrow> bool"
  for S ctx b N r f s0 where
  start: "poll_reach S ctx b N r f s0 0 0 [] s0"
| again: "poll_reach S ctx b N r f s0 n k acc s \<Longrightarrow>
     poll_turn S ctx b N r f n k s = (Again k', es, s') \<Longrightarrow>
     poll_reach S ctx b N r f s0 (Suc n) k' (acc @ es) s'"

text \<open>The loop from any turn it reaches is the loop from the start.\<close>

lemma poll_reach_loop:
  "poll_reach S ctx b N r f s0 n k acc s \<Longrightarrow>
     poll_loop S ctx b N r f 0 0 [] s0 = poll_loop S ctx b N r f n k acc s"
proof (induction rule: poll_reach.induct)
  case (again n k acc s k' es s')
  then show ?case by (simp add: poll_loop.simps[of S ctx b N r f n k acc s])
qed simp

text \<open>A run that returns ends in a turn that is not followed by another.\<close>

definition loop_end :: "turn \<Rightarrow> (unit, error option) flow \<Rightarrow> bool" where
  "loop_end t o1 = ((\<exists>e. t = Done e \<and> o1 = Next e) \<or> (\<exists>p. t = Broke p \<and> o1 = Panic p))"

lemma poll_loop_end:
  assumes run: "poll_loop S ctx b N r f n k acc s = Some (o1, es, s')"
    and reach: "poll_reach S ctx b N r f s0 n k acc s"
  shows "\<exists>m j acc' u t es'. poll_reach S ctx b N r f s0 m j acc' u \<and>
    poll_turn S ctx b N r f m j u = (t, es', s') \<and> es = acc' @ es' \<and> loop_end t o1"
proof -
  let ?P = "\<lambda>S' ctx' b' N' r' f' n k acc s y.
    S' = S \<and> ctx' = ctx \<and> b' = b \<and> N' = N \<and> r' = r \<and> f' = f \<and> poll_reach S ctx b N r f s0 n k acc s \<longrightarrow>
    (\<exists>m j acc' u t es'. poll_reach S ctx b N r f s0 m j acc' u \<and>
      poll_turn S ctx b N r f m j u = (t, es', snd (snd y)) \<and> fst (snd y) = acc' @ es' \<and> loop_end t (fst y))"
  have "?P S ctx b N r f n k acc s (o1, es, s')"
  proof (rule poll_loop.raw_induct [where P = ?P, OF _ run])
    fix poll S' ctx' b' N' r' f' n k acc s y
    assume IH: "\<And>S' ctx' b' N' r' f' n k acc s y. poll S' ctx' b' N' r' f' n k acc s = Some y \<Longrightarrow>
        ?P S' ctx' b' N' r' f' n k acc s y"
      and eq: "(case poll_turn S' ctx' b' N' r' f' n k s of (t, es, s') \<Rightarrow>
        (case t of Done e \<Rightarrow> Some (Next e, acc @ es, s') | Broke p \<Rightarrow> Some (Panic p, acc @ es, s')
          | Stuck \<Rightarrow> None | Again k' \<Rightarrow> poll S' ctx' b' N' r' f' (Suc n) k' (acc @ es) s')) = Some y"
    show "?P S' ctx' b' N' r' f' n k acc s y"
    proof (intro impI, elim conjE)
      assume same: "S' = S" "ctx' = ctx" "b' = b" "N' = N" "r' = r" "f' = f"
        and reach: "poll_reach S ctx b N r f s0 n k acc s"
      obtain t es s' where turn: "poll_turn S ctx b N r f n k s = (t, es, s')"
        by (cases "poll_turn S ctx b N r f n k s") auto
      show "\<exists>m j acc' u t es'. poll_reach S ctx b N r f s0 m j acc' u \<and>
        poll_turn S ctx b N r f m j u = (t, es', snd (snd y)) \<and> fst (snd y) = acc' @ es' \<and> loop_end t (fst y)"
      proof (cases t)
        case (Again k')
        with eq turn same have "poll S ctx b N r f (Suc n) k' (acc @ es) s' = Some y" by simp
        from IH [OF this] poll_reach.again [OF reach] turn Again show ?thesis by simp
      next
        case (Done e)
        with eq turn same have "y = (Next e, acc @ es, s')" by simp
        with reach turn Done show ?thesis
          by (intro exI[of _ n] exI[of _ k] exI[of _ acc] exI[of _ s] exI[of _ t] exI[of _ es])
            (simp add: loop_end_def)
      next
        case (Broke p)
        with eq turn same have "y = (Panic p, acc @ es, s')" by simp
        with reach turn Broke show ?thesis
          by (intro exI[of _ n] exI[of _ k] exI[of _ acc] exI[of _ s] exI[of _ t] exI[of _ es])
            (simp add: loop_end_def)
      next
        case Stuck
        with eq turn same show ?thesis by simp
      qed
    qed
  qed
  with reach show ?thesis by simp
qed

text \<open>The wrapper around the loop, taken apart once.\<close>

lemma wait_cases:
  assumes run: "(WaitWithBackoffWithRetries S ctx b N r f :: ('w, 'r, error option) go) s0 = (o1, es, s')"
    and N: "0 \<le> N" and o1: "o1 \<noteq> Hang"
  obtains n k acc s t es' where "poll_reach S ctx b N r f s0 n k acc s"
    and "poll_turn S ctx b N r f n k s = (t, es', s')" and "es = acc @ es'"
    and "(\<exists>e. t = Done e \<and> o1 = Next e) \<or> (\<exists>p. t = Broke p \<and> o1 = Panic p)"
proof -
  from run N o1 obtain o2 where loop: "poll_loop S ctx b N r f 0 0 [] s0 = Some (o2, es, s')"
    and o2: "o1 = (case o2 of Next e \<Rightarrow> Next e | Return u \<Rightarrow> Hang | Panic p \<Rightarrow> Panic p | Hang \<Rightarrow> Hang)"
    by (auto simp: WaitWithBackoffWithRetries_def split: option.splits flow.splits)
  from poll_loop_end [OF loop poll_reach.start] obtain n k acc s t es'
    where "poll_reach S ctx b N r f s0 n k acc s" "poll_turn S ctx b N r f n k s = (t, es', s')"
      "es = acc @ es'" "loop_end t o2" by blast
  with o2 that show ?thesis by (fastforce simp: loop_end_def)
qed

lemma turn_Again_events:
  "poll_turn S ctx b N r f n k s = (Again k', es, s') \<Longrightarrow>
    (k' = k \<and> outcome (probe_run f) s = Next (Inr False) \<or>
     k' = Suc k \<and> int k < N \<and> (\<exists>e. r e \<and> outcome (probe_run f) s = Next (Inl e)))"
  by (auto simp: poll_turn_def Let_def outcome_def split: prod.splits flow.splits sum.splits if_splits)

text \<open>The retries spent never pass the limit, nor the turns taken.\<close>

lemma poll_reach_retries:
  "poll_reach S ctx b N r f s0 n k acc s \<Longrightarrow> k \<le> n \<and> (int k \<le> N \<or> k = 0)"
  by (induction rule: poll_reach.induct) (auto dest!: turn_Again_events)

lemma poll_reach_never:
  "poll_reach S ctx b N IsNeverRetryable f s0 n k acc s \<Longrightarrow> k = 0"
  by (induction rule: poll_reach.induct) (auto dest!: turn_Again_events simp: IsNeverRetryable_def)

lemma turn_Done_None:
  "poll_turn S ctx b N r f n k s = (Done None, es, s') \<Longrightarrow>
    probe_run f s = (Next (Inr True), es, s')"
  by (auto simp: poll_turn_def Let_def split: prod.splits flow.splits sum.splits if_splits)

lemma turn_Done_Some:
  "poll_turn S ctx b N r f n k s = (Done (Some e), es, s') \<Longrightarrow>
    probe_run f s = (Next (Inl e), es, s') \<and> (\<not> r e \<or> N \<le> int k) \<or>
    e = context_done_error \<and> ctx_done S ctx (world s')"
  by (auto simp: poll_turn_def poll_sleep_def Let_def split: prod.splits flow.splits sum.splits if_splits)

lemma sleep_capped:
  "poll_sleep S (Some dl) b n s = (d, s', stop) \<Longrightarrow> d \<le> b n \<and> d \<le> dl - svc_clock S (world s)"
  by (auto simp: poll_sleep_def minDuration_def Let_def split: if_splits)

section \<open>Events of a wait\<close>

lemma turn_events:
  assumes f: "sat P (\<lambda>_. True) (\<lambda>_. True) f" and sleep: "\<And>d. P (EvSleep d)"
    and turn: "poll_turn S ctx b N r f n k s = (t, es, s')"
  shows "\<forall>e \<in> set es. P e"
proof -
  have "sat P (\<lambda>_. True) (\<lambda>_. True) (probe_run f)"
    unfolding probe_run_def by (rule sat_scope [OF f])
  then have "\<forall>e \<in> set (events (probe_run f) s). P e"
    by (auto simp: sat_def)
  with sleep turn show ?thesis
    by (auto simp: poll_turn_def events_def Let_def split: prod.splits flow.splits sum.splits if_splits)
qed

lemma reach_events:
  assumes f: "sat P (\<lambda>_. True) (\<lambda>_. True) f" and sleep: "\<And>d. P (EvSleep d)"
  shows "poll_reach S ctx b N r f s0 n k acc s \<Longrightarrow> \<forall>e \<in> set acc. P e"
proof (induction rule: poll_reach.induct)
  case (again n k acc s k' es s')
  with turn_events [OF f sleep again.hyps(2)] show ?case by auto
qed simp

lemma sat_WaitWithBackoffWithRetries:
  assumes f: "sat P (\<lambda>_. True) (\<lambda>_. True) f" and sleep: "\<And>d. P (EvSleep d)"
  shows "sat P (\<lambda>_. True) R (WaitWithBackoffWithRetries S ctx b N r f :: ('w, 'r, error option) go)"
  unfolding sat_def
proof (intro allI)
  fix s0
  obtain o1 es s' where run: "(WaitWithBackoffWithRetries S ctx b N r f :: ('w, 'r, error option) go) s0 = (o1, es, s')"
    by (cases "(WaitWithBackoffWithRetries S ctx b N r f :: ('w, 'r, error option) go) s0") auto
  have noret: "o1 \<noteq> Return q" for q
    using run by (auto simp: WaitWithBackoffWithRetries_def split: if_splits option.splits flow.splits)
  have es: "\<forall>e \<in> set es. P e"
  proof (cases "N < 0")
    case True
    with run show ?thesis by (simp add: WaitWithBackoffWithRetries_def)
  next
    case N: False
    show ?thesis
    proof (cases "poll_loop S ctx b N r f 0 0 [] s0")
      case None
      with run N show ?thesis by (simp add: WaitWithBackoffWithRetries_def)
    next
      case (Some y)
      then obtain o2 where "poll_loop S ctx b N r f 0 0 [] s0 = Some (o2, es, s')"
        using run N by (cases y) (auto simp: WaitWithBackoffWithRetries_def split: flow.splits)
      from poll_loop_end [OF this poll_reach.start] show ?thesis
        using reach_events [OF f sleep] turn_events [OF f sleep] by fastforce
    qed
  qed
  with run noret show "(\<forall>e \<in> set (events (WaitWithBackoffWithRetries S ctx b N r f :: ('w, 'r, error option) go) s0). P e) \<and>
      (\<forall>x. outcome (WaitWithBackoffWithRetries S ctx b N r f :: ('w, 'r, error option) go) s0 = Next x \<longrightarrow> True) \<and>
      (\<forall>q. outcome (WaitWithBackoffWithRetries S ctx b N r f) s0 = Return q \<longrightarrow> R q)"
    by (simp add: run_defs)
qed

lemma emits_Wait [emits_intros]: "emits P f \<Longrightarrow> (\<And>d. P (EvSleep d)) \<Longrightarrow> emits P (Wait S ctx f)"
  unfolding emits_sat Wait_def WaitWithBackoff_def by (rule sat_WaitWithBackoffWithRetries)

section \<open>Probes that answer or panic\<close>

text \<open>
  The contract of the status probes: whatever the services answer, the probe answers too, with
  no error, or it panics with one of the messages \<open>T\<close>.  A wait over such a probe can end in these
  ways only.
\<close>

locale answering_probe =
  fixes f :: "'w probe" and T :: "string set"
  assumes answers: "(\<exists>ok. outcome (probe_run f) s = Next (Inr ok)) \<or> (\<exists>p \<in> T. outcome (probe_run f) s = Panic p)"
begin

lemma turn_answers:
  "poll_turn S ctx b N r f n k s = (t, es, s') \<Longrightarrow>
     t = Done None \<or> t = Done (Some context_done_error) \<or> t = Again k \<or> (\<exists>p \<in> T. t = Broke p)"
  using answers[of s]
  by (auto simp: poll_turn_def outcome_def Let_def split: prod.splits if_splits)

lemma wait_answers:
  "outcome (Wait S ctx f :: ('w, 'r, error option) go) s \<in> {Next None, Next (Some context_done_error), Hang} \<union> Panic ` T"
proof -
  obtain o1 es s' where run: "(WaitWithBackoffWithRetries S ctx (svc_backoff S) 0 IsNeverRetryable f :: ('w, 'r, error option) go) s = (o1, es, s')"
    by (cases "(WaitWithBackoffWithRetries S ctx (svc_backoff S) 0 IsNeverRetryable f :: ('w, 'r, error option) go) s") auto
  have "o1 = Hang \<or> o1 = Next None \<or> o1 = Next (Some context_done_error) \<or> o1 \<in> Panic ` T"
  proof (cases "o1 = Hang")
    case False
    show ?thesis
      by (rule wait_cases [OF run _ False]) (auto dest: turn_answers)
  qed simp
  with run show ?thesis by (auto simp: Wait_def WaitWithBackoff_def outcome_def)
qed

lemma wait_panics:
  "outcome (Wait S ctx f :: ('w, 'r, error option) go) s = Panic p \<Longrightarrow> p \<in> T"
  using wait_answers [of S ctx s, where ?'r = 'r] by auto

lemma wait_nil_healthy:
  assumes "(Wait S ctx f :: ('w, 'r, error option) go) s = (Next None, es, s')"
  shows "\<exists>u es'. probe_run f u = (Next (Inr True), es', s')"
proof -
  have run: "(WaitWithBackoffWithRetries S ctx (svc_backoff S) 0 IsNeverRetryable f :: ('w, 'r, error option) go) s = (Next None, es, s')"
    using assms by (simp add: Wait_def WaitWithBackoff_def)
  show ?thesis by (rule wait_cases [OF run]) (auto dest: turn_Done_None)
qed

end

section \<open>Termination\<close>

text \<open>
  What the termination of a wait rests on: time passes (the probe does not turn the clock back, a
  sleep lasts until its timer or the deadline), the backoff library never answers less than some
  positive duration, the probe returns, and the select, when both its cases are ready, takes the
  context's infinitely often.
\<close>

definition timely :: "'w services \<Rightarrow> int \<Rightarrow> (nat \<Rightarrow> int) \<Rightarrow> int \<Rightarrow> 'w probe \<Rightarrow> bool" where
  "timely S dl b m f \<longleftrightarrow> 0 < m \<and> (\<forall>n. m \<le> b n) \<and>
     (\<forall>d w. min (svc_clock S w + d) dl \<le> svc_clock S (svc_sleep S d w)) \<and>
     (\<forall>n. \<exists>n' \<ge> n. \<forall>w. svc_pick S n' w) \<and>
     (\<forall>s. outcome (probe_run f) s \<noteq> Hang \<and> svc_clock S (world s) \<le> svc_clock S (world (final (probe_run f) s)))"

lemma probe_run_no_return: "probe_run f s \<noteq> (Return u, es, s')"
  by (auto simp: probe_run_def scope_def split: prod.splits flow.splits)

text \<open>A turn that is followed by another has brought the clock forward, up to the deadline.\<close>

lemma turn_Again_clock:
  assumes timely: "timely S dl b m f"
    and turn: "poll_turn S (Some dl) b N r f n k s = (Again k', es, s')"
  shows "min dl (svc_clock S (world s) + m) \<le> svc_clock S (world s')"
    and "dl \<le> svc_clock S (world s') \<Longrightarrow> \<not> (\<forall>w. svc_pick S n w)"
proof -
  obtain o1 es1 s1 where p: "probe_run f s = (o1, es1, s1)" by (cases "probe_run f s") auto
  define t where "t = svc_clock S (world s1)"
  define d where "d = minDuration (b n) (dl - t)"
  have ts: "svc_clock S (world s) \<le> t"
    using timely p unfolding timely_def t_def by (auto simp: final_def dest: spec[of _ s])
  have s': "s' = s1\<lparr>world := svc_sleep S d (world s1)\<rparr>"
    and go: "\<not> (ctx_done S (Some dl) (svc_sleep S d (world s1)) \<and>
       (\<not> t + d \<le> svc_clock S (svc_sleep S d (world s1)) \<or> svc_pick S n (svc_sleep S d (world s1))))"
    using turn p
    by (auto simp: poll_turn_def poll_sleep_def Let_def t_def d_def split: prod.splits flow.splits sum.splits if_splits)
  have "min (t + d) dl \<le> svc_clock S (world s')"
    using timely unfolding timely_def s' t_def by simp
  moreover have "min dl (t + m) \<le> min (t + d) dl"
    using timely unfolding timely_def d_def minDuration_def by (auto simp: min_def dest: spec[of _ n])
  ultimately show "min dl (svc_clock S (world s) + m) \<le> svc_clock S (world s')"
    using ts by (auto simp: min_def split: if_splits)
  show "dl \<le> svc_clock S (world s') \<Longrightarrow> \<not> (\<forall>w. svc_pick S n w)"
    using go s' by (auto simp: ctx_done_def)
qed

lemma turn_not_stuck:
  "timely S dl b m f \<Longrightarrow> poll_turn S ctx b N r f n k s \<noteq> (Stuck, es, s')"
  using probe_run_no_return [of f s]
  by (auto simp: poll_turn_def timely_def outcome_def Let_def split: prod.splits flow.splits sum.splits if_splits
      dest!: spec[of _ s])

lemma poll_loop_terminates_by:
  assumes timely: "timely S dl b m f" and pick: "\<forall>w. svc_pick S n' w"
  shows "n \<le> n' \<Longrightarrow> dl \<le> svc_clock S (world s) + m * int (Suc n' - n) \<Longrightarrow>
    poll_loop S (Some dl) b N r f n k acc s \<noteq> None"
proof (induction "n' - n" arbitrary: n k acc s)
  case 0
  then have n: "n = n'" by simp
  obtain t es s' where turn: "poll_turn S (Some dl) b N r f n k s = (t, es, s')"
    by (cases "poll_turn S (Some dl) b N r f n k s") auto
  have "\<nexists>k'. t = Again k'"
  proof
    assume "\<exists>k'. t = Again k'"
    then obtain k' where "t = Again k'" ..
    with turn have again: "poll_turn S (Some dl) b N r f n k s = (Again k', es, s')" by simp
    have "dl \<le> svc_clock S (world s')"
      using turn_Again_clock(1) [OF timely again] "0.prems" n by (simp add: min_def split: if_splits)
    with turn_Again_clock(2) [OF timely again] pick n show False by simp
  qed
  with turn turn_not_stuck [OF timely] show ?case
    by (cases t) (auto simp: poll_loop.simps[of S "Some dl" b N r f n k acc s])
next
  case (Suc j)
  then have n: "n < n'" by simp
  obtain t es s' where turn: "poll_turn S (Some dl) b N r f n k s = (t, es, s')"
    by (cases "poll_turn S (Some dl) b N r f n k s") auto
  show ?case
  proof (cases t)
    case (Again k')
    with turn have again: "poll_turn S (Some dl) b N r f n k s = (Again k', es, s')" by simp
    have m: "0 < m" using timely by (simp add: timely_def)
    define q where "q = m * int (Suc n' - Suc n)"
    have "int (Suc n' - n) = int (Suc n' - Suc n) + 1" using n by simp
    then have "m * int (Suc n' - n) = q + m" by (simp only: ring_distribs mult_1_right q_def)
    moreover have "0 \<le> q" using m by (simp add: q_def)
    ultimately have "dl \<le> svc_clock S (world s') + q"
      using turn_Again_clock(1) [OF timely again] Suc.prems(2) by linarith
    then have "dl \<le> svc_clock S (world s') + m * int (Suc n' - Suc n)" by (simp only: q_def)
    with Suc.hyps(1) [of "Suc n"] Suc.hyps(2) n show ?thesis
      using turn Again by (simp add: poll_loop.simps[of S "Some dl" b N r f n k acc s])
  qed (use turn turn_not_stuck [OF timely] in \<open>auto simp: poll_loop.simps[of S "Some dl" b N r f n k acc s]\<close>)
qed

lemma poll_loop_terminates:
  assumes timely: "timely S dl b m f"
  shows "poll_loop S (Some dl) b N r f 0 0 [] s \<noteq> None"
proof -
  have m: "0 < m" using timely by (simp add: timely_def)
  define n0 where "n0 = nat (dl - svc_clock S (world s))"
  obtain n' where n': "n0 \<le> n'" and pick: "\<forall>w. svc_pick S n' w"
    using timely unfolding timely_def by blast
  have "dl - svc_clock S (world s) \<le> int n0" by (simp add: n0_def)
  also have "\<dots> \<le> int (Suc n')" using n' by simp
  also have "\<dots> \<le> m * int (Suc n')" using m mult_le_cancel_right1[of "int (Suc n')" m] by simp
  finally have "dl \<le> svc_clock S (world s) + m * int (Suc n' - 0)" by simp
  then show ?thesis by (intro poll_loop_terminates_by [OF timely pick]) simp_all
qed

section \<open>Properties\<close>

text \<open>
  C31. A wait returns nil only after a probe that answered that the condition holds, and stops
  right there: the probe's events are the last of the run, its state is the final one, and no
  more errors were tolerated on the way than the limit.
\<close>

theorem wait_nil_after_success:
  assumes "(WaitWithBackoffWithRetries S ctx b N r f :: ('w, 'r, error option) go) s0 = (Next None, es, s')"
  shows "\<exists>n k acc s es'. poll_reach S ctx b N r f s0 n k acc s \<and> k \<le> n \<and> int k \<le> N \<and>
    probe_run f s = (Next (Inr True), es', s') \<and> es = acc @ es'"
proof -
  have N: "0 \<le> N" using assms by (auto simp: WaitWithBackoffWithRetries_def split: if_splits)
  show ?thesis
  proof (rule wait_cases [OF assms N])
    fix n k acc s t es'
    assume reach: "poll_reach S ctx b N r f s0 n k acc s" and es: "es = acc @ es'"
      and turn: "poll_turn S ctx b N r f n k s = (t, es', s')"
      and t: "(\<exists>e. t = Done e \<and> Next None = Next e) \<or> (\<exists>p. t = Broke p \<and> Next None = Panic p)"
    from turn t have "probe_run f s = (Next (Inr True), es', s')" by (auto dest: turn_Done_None)
    moreover have "k \<le> n" "int k \<le> N" using poll_reach_retries [OF reach] N by auto
    ultimately show ?thesis using reach es by blast
  qed simp
qed

text \<open>A probe that holds once a quarter of a second has passed, and one that always fails.\<close>

definition demo_late :: "demo probe" where
  "demo_late = (\<lambda>s. (Next (Inr (250000000 \<le> dClock (world s))), [], s))"

definition demo_failing :: "demo probe" where
  "demo_failing = (\<lambda>s. (Next (Inl (EMsg ''refused'')), [], s))"

theorem wait_nil_after_success_witness:
  "\<exists>n k acc s es'. poll_reach demo_services (Some 1000000000) (svc_backoff demo_services) 0 IsNeverRetryable demo_late
      (demo_state demo_world) n k acc s \<and> k \<le> n \<and> int k \<le> 0 \<and>
    probe_run demo_late s = (Next (Inr True), es', demo_state (demo_world\<lparr>dClock := 300000000\<rparr>)) \<and>
    [EvSleep 100000000, EvSleep 200000000] = acc @ es'"
proof (rule wait_nil_after_success)
  show "(WaitWithBackoffWithRetries demo_services (Some 1000000000) (svc_backoff demo_services) 0 IsNeverRetryable demo_late
      :: (demo, unit, error option) go) (demo_state demo_world) =
    (Next None, [EvSleep 100000000, EvSleep 200000000], demo_state (demo_world\<lparr>dClock := 300000000\<rparr>))"
    by code_simp
qed



text \<open>
  C33. A wait with a deadline returns: time passing, a positive least backoff, a probe that
  returns and a select that does not starve the context are enough.  It answers nil, an error, or
  panics when the probe does; it never runs for ever.
\<close>

theorem wait_returns:
  assumes "timely S dl b m f"
  shows "outcome (WaitWithBackoffWithRetries S (Some dl) b N r f :: ('w, 'r, error option) go) s \<noteq> Hang"
proof (cases "N < 0")
  case True
  then show ?thesis by (simp add: WaitWithBackoffWithRetries_def outcome_def)
next
  case False
  obtain o1 es s' where loop: "poll_loop S (Some dl) b N r f 0 0 [] s = Some (o1, es, s')"
    using poll_loop_terminates [OF assms, of N r s] by auto
  from poll_loop_end [OF loop poll_reach.start] have "(\<exists>e. o1 = Next e) \<or> (\<exists>p. o1 = Panic p)"
    by (auto simp: loop_end_def)
  with loop False show ?thesis
    by (auto simp: WaitWithBackoffWithRetries_def outcome_def)
qed

lemma demo_timely: "timely demo_services 1000000000 (svc_backoff demo_services) 100000000 demo_late"
  unfolding timely_def
proof (intro conjI allI)
  show "100000000 \<le> svc_backoff demo_services n" for n
  proof (cases "n < 7")
    case True
    have "(1::int) \<le> 2 ^ n" by simp
    with True show ?thesis by (simp add: demo_services_def)
  qed (simp add: demo_services_def)
qed (auto simp: demo_services_def demo_late_def probe_run_def scope_def run_defs)

theorem wait_returns_witness:
  "outcome (WaitWithBackoffWithRetries demo_services (Some 1000000000) (svc_backoff demo_services) 0 IsNeverRetryable demo_late
      :: (demo, unit, error option) go) (demo_state demo_world) \<noteq> Hang"
  by (rule wait_returns [OF demo_timely])

end
