(* ===== verification/Gcloud.thy ===== *)
theory Gcloud
  imports Poll
begin

text \<open>
  \<^verbatim>\<open>pkg/gcloud\<close>: the status of each Google Cloud resource, the connection to a GKE cluster and the
  look-up of a container image's tag.

  A status is a Go pair of a string and an error.  Every status function drops the error of its
  credentials (\<open>getToken\<close>), and that of \<open>NewService\<close> too: a service that was not made is nil, and
  the request through it panics (\<open>service_get\<close>).
\<close>

definition getToken :: "'w services \<Rightarrow> ('w, 'r, error + string) go" where
  "getToken S = find_credentials S"

lemma emits_getToken [emits_intros]: "(\<And>e. P (EvCredentials e)) \<Longrightarrow> emits P (getToken S)"
  by (simp add: getToken_def emits_intros)

type_synonym status = "string \<times> error option"

text \<open>\<open>service, _ := compute.NewService(...)\<close> and then \<open>Get(...).Do()\<close> through it; the other packages likewise.\<close>

definition service_get :: "'w services \<Rightarrow> gcp_api \<Rightarrow> string list \<Rightarrow> ('w, 'r, error + gcp_object option) go" where
  "service_get S a args = bnd (new_service S a) (\<lambda>err. case err of
       Some e \<Rightarrow> panic ''nil service''
     | None \<Rightarrow> gcp_get S a args)"

lemma emits_service_get [emits_intros]:
  "(\<And>e. P (EvNewService a e)) \<Longrightarrow> (\<And>e. P (EvGcp a args e)) \<Longrightarrow> emits P (service_get S a args)"
  unfolding service_get_def by (intro emits_intros)

definition GetComputeNetworkStatus :: "'w services \<Rightarrow> string \<Rightarrow> string \<Rightarrow> ('w, 'r, status) go" where
  "GetComputeNetworkStatus S projectID name =
     bnd (getToken S) (\<lambda>t.
     bnd (service_get S GcpNetwork [projectID, name]) (\<lambda>network. ret
       (case network of
          Inl err \<Rightarrow> (NotCreatedStatus, None)
        | Inr None \<Rightarrow> (NotCreatedStatus, None)
        | Inr (Some n) \<Rightarrow> (if SelfLink n \<noteq> [] then (RunningStatus, None) else (NotCreatedStatus, None)))))"

definition GetComputeSubNetworkStatus :: "'w services \<Rightarrow> string \<Rightarrow> string \<Rightarrow> string \<Rightarrow> ('w, 'r, status) go" where
  "GetComputeSubNetworkStatus S projectID name region =
     bnd (getToken S) (\<lambda>t.
     bnd (service_get S GcpSubnetwork [projectID, region, name]) (\<lambda>snw. ret
       (case snw of
          Inl err \<Rightarrow> (NotCreatedStatus, None)
        | Inr None \<Rightarrow> (NotCreatedStatus, None)
        | Inr (Some n) \<Rightarrow> (if SelfLink n \<noteq> [] then (RunningStatus, None) else (NotCreatedStatus, None)))))"

definition GetComputeRouterStatus :: "'w services \<Rightarrow> string \<Rightarrow> string \<Rightarrow> string \<Rightarrow> ('w, 'r, status) go" where
  "GetComputeRouterStatus S projectID name region =
     bnd (getToken S) (\<lambda>t.
     bnd (service_get S GcpRouter [projectID, region, name]) (\<lambda>computeRouter. ret
       (case computeRouter of
          Inl err \<Rightarrow> (NotCreatedStatus, None)
        | Inr None \<Rightarrow> (NotCreatedStatus, None)
        | Inr (Some n) \<Rightarrow> (if SelfLink n \<noteq> [] then (RunningStatus, None) else (NotCreatedStatus, None)))))"

text \<open>\<open>fmt.Sprintf("projects/%s/locations/%s/clusters/%s", projectID, location, name)\<close>.\<close>

definition cluster_link :: "string \<Rightarrow> string \<Rightarrow> string \<Rightarrow> string" where
  "cluster_link projectID location name =
     ''projects/'' @ projectID @ ''/locations/'' @ location @ ''/clusters/'' @ name"

definition GetContainerClusterStatus :: "'w services \<Rightarrow> string \<Rightarrow> string \<Rightarrow> string \<Rightarrow> ('w, 'r, status) go" where
  "GetContainerClusterStatus S projectID name location =
     bnd (getToken S) (\<lambda>t.
     bnd (service_get S GcpCluster [cluster_link projectID location name]) (\<lambda>c. ret
       (case c of
          Inl err \<Rightarrow> (NotCreatedStatus, None)
        | Inr None \<Rightarrow> (NotCreatedStatus, None)
        | Inr (Some n) \<Rightarrow> (if GcpStatus n = ''RUNNING'' then (RunningStatus, None) else (NotCreatedStatus, None)))))"

definition GetContainerNodepoolStatus ::
  "'w services \<Rightarrow> string \<Rightarrow> string \<Rightarrow> string \<Rightarrow> string \<Rightarrow> ('w, 'r, status) go" where
  "GetContainerNodepoolStatus S projectID name clusterName location =
     bnd (getToken S) (\<lambda>t.
     bnd (service_get S GcpNodePool [cluster_link projectID location clusterName @ ''/nodePools/'' @ name]) (\<lambda>c. ret
       (case c of
          Inl err \<Rightarrow> (NotCreatedStatus, None)
        | Inr None \<Rightarrow> (NotCreatedStatus, None)
        | Inr (Some n) \<Rightarrow> (if GcpStatus n = ''RUNNING'' then (RunningStatus, None) else (NotCreatedStatus, None)))))"

definition GetSQLInstanceStatus :: "'w services \<Rightarrow> string \<Rightarrow> string \<Rightarrow> ('w, 'r, status) go" where
  "GetSQLInstanceStatus S projectID name =
     bnd (getToken S) (\<lambda>t.
     bnd (service_get S GcpSQLInstance [projectID, name]) (\<lambda>i. ret
       (case i of
          Inl err \<Rightarrow> (NotCreatedStatus, None)
        | Inr None \<Rightarrow> (NotCreatedStatus, None)
        | Inr (Some n) \<Rightarrow> (if State n = ''RUNNABLE'' then (RunningStatus, None) else (NotCreatedStatus, None)))))"

definition GetSQLDatabaseStatus :: "'w services \<Rightarrow> string \<Rightarrow> string \<Rightarrow> string \<Rightarrow> ('w, 'r, status) go" where
  "GetSQLDatabaseStatus S projectID instanceName databaseName =
     bnd (getToken S) (\<lambda>t.
     bnd (service_get S GcpSQLDatabase [projectID, instanceName, databaseName]) (\<lambda>i. ret
       (case i of
          Inl err \<Rightarrow> (NotCreatedStatus, None)
        | Inr None \<Rightarrow> (NotCreatedStatus, None)
        | Inr (Some n) \<Rightarrow> (RunningStatus, None))))"

definition GetStorageBucketStatus :: "'w services \<Rightarrow> string \<Rightarrow> ('w, 'r, status) go" where
  "GetStorageBucketStatus S name =
     bnd (getToken S) (\<lambda>t.
     bnd (service_get S GcpBucket [name]) (\<lambda>snw. ret
       (case snw of
          Inl err \<Rightarrow> (NotCreatedStatus, None)
        | Inr None \<Rightarrow> (NotCreatedStatus, None)
        | Inr (Some n) \<Rightarrow> (if TimeCreated n \<noteq> [] then (RunningStatus, None) else (NotCreatedStatus, None)))))"

lemmas gcp_status_defs = GetComputeNetworkStatus_def GetComputeSubNetworkStatus_def
  GetComputeRouterStatus_def GetContainerClusterStatus_def GetContainerNodepoolStatus_def
  GetSQLInstanceStatus_def GetSQLDatabaseStatus_def GetStorageBucketStatus_def

lemma emits_gcp_status [emits_intros]:
  assumes "\<And>a args e. P (EvGcp a args e)" and "\<And>e. P (EvCredentials e)" and "\<And>a e. P (EvNewService a e)"
  shows "emits P (GetComputeNetworkStatus S p n)"
    and "emits P (GetComputeSubNetworkStatus S p n r)"
    and "emits P (GetComputeRouterStatus S p n r)"
    and "emits P (GetContainerClusterStatus S p n l)"
    and "emits P (GetContainerNodepoolStatus S p n c l)"
    and "emits P (GetSQLInstanceStatus S p n)"
    and "emits P (GetSQLDatabaseStatus S p i d)"
    and "emits P (GetStorageBucketStatus S n)"
  unfolding gcp_status_defs using assms by (intro emits_intros; simp)+

section \<open>The connection to a cluster\<close>

text \<open>
  \<open>base64.StdEncoding.DecodeString\<close> succeeds on groups of four characters of the alphabet, the
  last padded with at most two \<open>=\<close>; line breaks are skipped.
\<close>

definition base64_char :: "char \<Rightarrow> bool" where
  "base64_char c = (c \<in> set ''ABCDEFGHIJKLMNOPQRSTUVWXYZabcdefghijklmnopqrstuvwxyz0123456789+/'')"

fun base64_groups :: "string \<Rightarrow> bool" where
  "base64_groups [] = True"
| "base64_groups [a, b, c, d] = (base64_char a \<and> base64_char b \<and>
     (base64_char c \<and> (base64_char d \<or> d = CHR ''='') \<or> c = CHR ''='' \<and> d = CHR ''=''))"
| "base64_groups (a # b # c # d # e # r) = (base64_char a \<and> base64_char b \<and> base64_char c \<and> base64_char d \<and>
     base64_groups (e # r))"
| "base64_groups _ = False"

definition base64_ok :: "string \<Rightarrow> bool" where
  "base64_ok s = base64_groups (filter (\<lambda>c. c \<noteq> CHR 0x0A \<and> c \<noteq> CHR 0x0D) s)"

definition CorruptInputError :: error where
  "CorruptInputError = EMsg ''illegal base64 data''"

definition gke_probe :: "'w services \<Rightarrow> string \<Rightarrow> string \<Rightarrow> string \<Rightarrow> 'w probe" where
  "gke_probe S projectID gkeClusterName gkeLocation =
     bnd (new_service S GcpCluster) (\<lambda>err. case err of
       Some e \<Rightarrow> return (Inl e)
     | None \<Rightarrow>
       bnd (gcp_get S GcpCluster [cluster_link projectID gkeLocation gkeClusterName]) (\<lambda>cluster. case cluster of
         Inl err \<Rightarrow> return (Inr False)
       | Inr None \<Rightarrow> panic ''nil cluster''
       | Inr (Some c) \<Rightarrow>
           (if Endpoint c = [] then return (Inr False)
            else if GcpStatus c = ''RUNNING'' then return (Inr True)
            else return (Inr False))))"

definition dryRun_probe :: "'w services \<Rightarrow> target \<Rightarrow> 'w probe" where
  "dryRun_probe S clientset =
     bnd (k_get S clientset KNamespace [] ''default'') (\<lambda>ns. case ns of
       Inl err \<Rightarrow> return (Inr False)
     | Inr n \<Rightarrow> return (Inr True))"

definition dryRun :: "'w services \<Rightarrow> target \<Rightarrow> ('w, 'r, error option) go" where
  "dryRun S clientset =
     bnd (WithTimeout S (25 * Minute)) (\<lambda>ctx.
     bnd (Wait S ctx (dryRun_probe S clientset)) (\<lambda>err. case err of
       Some e \<Rightarrow> ret (Some (EWrap ''failed to dry run, remote cluster is created but not usable '' e))
     | None \<Rightarrow> ret None))"

definition GetGKEClientset ::
  "'w services \<Rightarrow> ctx \<Rightarrow> string \<Rightarrow> string \<Rightarrow> string \<Rightarrow> ('w, 'r, rest_config option \<times> error option) go" where
  "GetGKEClientset S ctx projectID gkeClusterName gkeLocation = scope (
     bnd (find_credentials S) (\<lambda>creds. case creds of
       Inl err \<Rightarrow> return (None, Some err)
     | Inr ts \<Rightarrow>
     bnd (Wait S ctx (gke_probe S projectID gkeClusterName gkeLocation)) (\<lambda>err. case err of
       Some e \<Rightarrow> return (None, Some e)
     | None \<Rightarrow>
     bnd (new_service S GcpCluster) (\<lambda>err. case err of
       Some e \<Rightarrow> panic ''nil service''
     | None \<Rightarrow>
     bnd (gcp_get S GcpCluster [cluster_link projectID gkeLocation gkeClusterName]) (\<lambda>cluster. case cluster of
       Inl err \<Rightarrow> panic ''nil cluster''
     | Inr None \<Rightarrow> panic ''nil cluster''
     | Inr (Some c) \<Rightarrow> (case MasterAuthCa c of
         None \<Rightarrow> panic ''nil MasterAuth''
       | Some ca \<Rightarrow>
           (if \<not> base64_ok ca
            then return (None, Some (EWrap ''failed to decode cluster CA cert: '' CorruptInputError))
            else let config = \<lparr> Host = ''https://'' @ Endpoint c, Insecure = True \<rparr> in
              bnd (clientset_or_err (NewForConfig S (Some config))) (\<lambda>remoteClientSet. case remoteClientSet of
                Inl e \<Rightarrow> return (None, Some (EWrap ''failed to initialise remoteClientset from config: '' e))
              | Inr clientset \<Rightarrow>
                  bnd (dryRun S clientset) (\<lambda>err. case err of
                    Some e \<Rightarrow> return (None, Some e)
                  | None \<Rightarrow> return (Some config, None))))))))))"

definition GetGKEClientsetWithTimeout ::
  "'w services \<Rightarrow> string \<Rightarrow> string \<Rightarrow> string \<Rightarrow> ('w, 'r, rest_config option \<times> error option) go" where
  "GetGKEClientsetWithTimeout S projectID gkeClusterName gkeLocation =
     bnd (WithTimeout S (20 * Minute)) (\<lambda>ctx.
     GetGKEClientset S ctx projectID gkeClusterName gkeLocation)"

lemma emits_gke [emits_intros]:
  assumes "\<And>a args e. P (EvGcp a args e)" and "\<And>e. P (EvCredentials e)" and "\<And>a e. P (EvNewService a e)"
    and "\<And>d. P (EvSleep d)" and "\<And>t e. P (EvGet t KNamespace [] ''default'' e)"
  shows "emits P (GetGKEClientsetWithTimeout S p c l)"
  using assms
  by (auto simp: GetGKEClientsetWithTimeout_def GetGKEClientset_def gke_probe_def dryRun_def dryRun_probe_def
      intro!: emits_intros)

section \<open>The tag of an image\<close>

fun first_match :: "(string \<Rightarrow> bool) \<Rightarrow> string list \<Rightarrow> string" where
  "first_match p [] = []"
| "first_match p (tag # tags) = (if p tag then tag else first_match p tags)"

text \<open>A pattern that does not compile leaves a nil expression, on which matching panics.\<close>

definition GetLatestTag :: "'w services \<Rightarrow> string \<Rightarrow> string \<Rightarrow> ('w, 'r, string \<times> error option) go" where
  "GetLatestTag S img regex = scope (
     let repository = hd (split_on CHR '':'' img) in
     case svc_new_repository S repository of
       Some err \<Rightarrow> return ([], Some err)
     | None \<Rightarrow>
         bnd (registry_tags S repository) (\<lambda>tags. case tags of
           Inl err \<Rightarrow> return ([], Some err)
         | Inr ts \<Rightarrow> (case svc_regexp S regex of
             None \<Rightarrow> (if ts = [] then return ([], None) else panic ''nil regexp'')
           | Some r \<Rightarrow> return (first_match r ts, None))))"

lemma first_match_split:
  "first_match p ts = t \<Longrightarrow> t \<noteq> [] \<Longrightarrow>
    \<exists>us vs. ts = us @ t # vs \<and> p t \<and> list_all (\<lambda>u. \<not> p u) us"
proof (induction ts)
  case (Cons u ts)
  show ?case
  proof (cases "p u")
    case True
    with Cons.prems show ?thesis by (intro exI[of _ "[]"] exI[of _ ts]) auto
  next
    case False
    with Cons obtain us vs where "ts = us @ t # vs" "p t" "list_all (\<lambda>u. \<not> p u) us" by auto
    with False show ?thesis by (intro exI[of _ "u # us"] exI[of _ vs]) auto
  qed
qed simp

lemma first_match_Nil: "first_match p ts = [] \<Longrightarrow> (p [] \<and> [] \<in> set ts) \<or> list_all (\<lambda>t. \<not> p t) ts"
  by (induction ts) (auto split: if_splits)

section \<open>What a status answers\<close>

text \<open>When Google Cloud's answer says that the resource runs, per API.\<close>

fun running :: "gcp_api \<Rightarrow> gcp_object \<Rightarrow> bool" where
  "running GcpNetwork n = (SelfLink n \<noteq> [])"
| "running GcpSubnetwork n = (SelfLink n \<noteq> [])"
| "running GcpRouter n = (SelfLink n \<noteq> [])"
| "running GcpCluster n = (GcpStatus n = ''RUNNING'')"
| "running GcpNodePool n = (GcpStatus n = ''RUNNING'')"
| "running GcpSQLInstance n = (State n = ''RUNNABLE'')"
| "running GcpSQLDatabase n = True"
| "running GcpBucket n = (TimeCreated n \<noteq> [])"

definition status_answer :: "gcp_api \<Rightarrow> error + gcp_object option \<Rightarrow> status" where
  "status_answer a r =
     ((case r of Inr (Some n) \<Rightarrow> if running a n then RunningStatus else NotCreatedStatus | _ \<Rightarrow> NotCreatedStatus), None)"

text \<open>
  A status asks for one object of one API, once, and answers from what it is told; it panics where
  the service could not be made.
\<close>

definition asks_status :: "'w services \<Rightarrow> gcp_api \<Rightarrow> string list \<Rightarrow> ('w, 'r, status) go \<Rightarrow> bool" where
  "asks_status S a args m \<longleftrightarrow> (\<forall>s. let c = svc_credentials S (world s); n = svc_new_service S a (snd c);
       r = svc_gcp S a args (snd n) in
     m s = (case fst n of
         Some e \<Rightarrow> (Panic ''nil service'', [EvCredentials (err_of (fst c)), EvNewService a (Some e)], s\<lparr>world := snd n\<rparr>)
       | None \<Rightarrow> (Next (status_answer a (fst r)),
            [EvCredentials (err_of (fst c)), EvNewService a None, EvGcp a args (err_of (fst r))], s\<lparr>world := snd r\<rparr>)))"

lemma asks_statusI:
  assumes "\<And>r. f r = status_answer a r"
  shows "asks_status S a args (bnd (getToken S) (\<lambda>t. bnd (service_get S a args) (\<lambda>x. ret (f x))))"
  using assms
  by (simp add: asks_status_def service_get_def getToken_def call_defs ask_def bnd_def Let_def split: prod.split option.split)

section \<open>Properties\<close>

text \<open>
  Each status function makes one request to its API, for the project, place and name it is
  given, and answers \<open>Healthy\<close> exactly when the API says that the resource runs.  It never returns
  an error: missing credentials, a failed request and a missing object are all \<open>NotReady\<close>; a service
  that cannot be made is a panic.
\<close>

theorem statuses_report_api:
  "asks_status S GcpNetwork [p, n] (GetComputeNetworkStatus S p n :: ('w, 'r, status) go) \<and>
   asks_status S GcpSubnetwork [p, g, n] (GetComputeSubNetworkStatus S p n g :: ('w, 'r, status) go) \<and>
   asks_status S GcpRouter [p, g, n] (GetComputeRouterStatus S p n g :: ('w, 'r, status) go) \<and>
   asks_status S GcpCluster [cluster_link p l n] (GetContainerClusterStatus S p n l :: ('w, 'r, status) go) \<and>
   asks_status S GcpNodePool [cluster_link p l c @ ''/nodePools/'' @ n] (GetContainerNodepoolStatus S p n c l :: ('w, 'r, status) go) \<and>
   asks_status S GcpSQLInstance [p, n] (GetSQLInstanceStatus S p n :: ('w, 'r, status) go) \<and>
   asks_status S GcpSQLDatabase [p, i, n] (GetSQLDatabaseStatus S p i n :: ('w, 'r, status) go) \<and>
   asks_status S GcpBucket [n] (GetStorageBucketStatus S n :: ('w, 'r, status) go)"
  unfolding gcp_status_defs
  by (intro conjI asks_statusI) (auto simp: status_answer_def split: sum.split option.split)

text \<open>
  \<open>GetLatestTag\<close> returns the first tag of the repository's list that matches the
  pattern; an empty answer without an error means that no tag matches (or that an empty one does).
\<close>

theorem latest_tag_first_match:
  assumes "(GetLatestTag S img regex :: ('w, 'r, string \<times> error option) go) s = (Next (tag, None), es, s')"
    and "svc_regexp S regex = Some r"
  shows "\<exists>ts w. svc_registry_tags S (hd (split_on CHR '':'' img)) (world s) = (Inr ts, w) \<and>
    (if tag = [] then (r [] \<and> [] \<in> set ts) \<or> list_all (\<lambda>t. \<not> r t) ts
     else \<exists>us vs. ts = us @ tag # vs \<and> r tag \<and> list_all (\<lambda>u. \<not> r u) us)"
proof -
  from assms obtain ts w where "svc_registry_tags S (hd (split_on CHR '':'' img)) (world s) = (Inr ts, w)"
    and "tag = first_match r ts"
    by (auto simp: GetLatestTag_def registry_tags_def ask_def scope_def bnd_def Let_def
        split: option.splits prod.splits sum.splits)
  then show ?thesis
    using first_match_split [of r ts tag] first_match_Nil [of r ts] by (cases "tag = []") auto
qed

theorem latest_tag_first_match_witness:
  "\<exists>ts w. svc_registry_tags demo_services (hd (split_on CHR '':'' ''gcr.io/org/app:old'')) (world (demo_state demo_world)) = (Inr ts, w) \<and>
    (if ''pr-7-ab'' = [] then (is_prefix ''pr-7-'' [] \<and> [] \<in> set ts) \<or> list_all (\<lambda>t. \<not> is_prefix ''pr-7-'' t) ts
     else \<exists>us vs. ts = us @ ''pr-7-ab'' # vs \<and> is_prefix ''pr-7-'' ''pr-7-ab'' \<and> list_all (\<lambda>u. \<not> is_prefix ''pr-7-'' u) us)"
proof (rule latest_tag_first_match)
  show "(GetLatestTag demo_services ''gcr.io/org/app:old'' ''^pr-7-'' :: (demo, unit, string \<times> error option) go) (demo_state demo_world) =
    (Next (''pr-7-ab'', None), [EvRegistryTags ''gcr.io/org/app'' None], demo_state demo_world)"
    by code_simp
  show "svc_regexp demo_services ''^pr-7-'' = Some (is_prefix ''pr-7-'')"
    by (simp add: demo_services_def remove_all_def)
qed

lemma Wait_nil:
  "(Wait S ctx f :: ('w, 'r, error option) go) s = (Next None, es, s') \<Longrightarrow>
    \<exists>u es1 es'. probe_run f u = (Next (Inr True), es', s') \<and> es = es1 @ es'"
proof -
  assume "(Wait S ctx f :: ('w, 'r, error option) go) s = (Next None, es, s')"
  then have run: "(WaitWithBackoffWithRetries S ctx (svc_backoff S) 0 IsNeverRetryable f :: ('w, 'r, error option) go) s = (Next None, es, s')"
    by (simp add: Wait_def WaitWithBackoff_def)
  show ?thesis by (rule wait_cases [OF run]) (auto dest: turn_Done_None)
qed

lemma Wait_no_return [simp]: "Wait S ctx f s \<noteq> (Return r, es, s')"
  by (auto simp: Wait_def WaitWithBackoff_def WaitWithBackoffWithRetries_def split: option.splits prod.splits flow.splits)

lemma dryRun_no_return [simp]: "dryRun S t s \<noteq> (Return r, es, s')"
  by (auto simp: dryRun_def WithTimeout_def now_def bnd_def split: prod.splits flow.splits option.splits)

lemma dryRun_nil:
  assumes "(dryRun S t :: ('w, 'r, error option) go) s = (Next None, es, s')"
  shows "EvGet t KNamespace [] ''default'' None \<in> set es"
proof -
  have "(Wait S (Some (svc_clock S (world s) + 25 * Minute)) (dryRun_probe S t) :: ('w, 'r, error option) go) s = (Next None, es, s')"
    using assms by (auto simp: dryRun_def WithTimeout_def now_def bnd_def split: prod.splits flow.splits option.splits)
  from Wait_nil [OF this] obtain u es1 es' where
    "probe_run (dryRun_probe S t) u = (Next (Inr True), es', s')" "es = es1 @ es'" by blast
  then show ?thesis
    by (auto simp: probe_run_def dryRun_probe_def k_get_def ask_def scope_def bnd_def split: prod.splits sum.splits)
qed

text \<open>
  C36. Connecting to a cluster gives a configuration or an error, never both and never neither.
  The configuration points at the endpoint Google Cloud gave for that very cluster, over TLS
  that is not verified, and a clientset made of it has read the cluster's default namespace.
\<close>

theorem gke_clientset_connects:
  assumes "(GetGKEClientset S ctx p c l :: ('w, 'r, rest_config option \<times> error option) go) s = (Next (cfg, err), es, s')"
  shows "(cfg = None) \<noteq> (err = None) \<and>
    (\<forall>config. cfg = Some config \<longrightarrow> Insecure config \<and>
      (\<exists>cl w w'. svc_gcp S GcpCluster [cluster_link p l c] w = (Inr (Some cl), w') \<and> Host config = ''https://'' @ Endpoint cl) \<and>
      (\<exists>t. NewForConfig S (Some config) = Some (Inr t) \<and> EvGet t KNamespace [] ''default'' None \<in> set es))"
  using assms
  by (auto simp: GetGKEClientset_def scope_def bnd_def find_credentials_def new_service_def gcp_get_def ask_def
      clientset_or_err_def Let_def dest!: dryRun_nil
      split: prod.splits flow.splits sum.splits option.splits if_splits) blast+

theorem gke_clientset_connects_witness:
  "\<exists>t. NewForConfig gke_demo (Some \<lparr> Host = ''https://10.0.0.1'', Insecure = True \<rparr>) = Some (Inr t) \<and>
     EvGet t KNamespace [] ''default'' None \<in> set (events (GetGKEClientset gke_demo None ''p'' ''main'' ''asia-southeast1''
       :: (demo, unit, rest_config option \<times> error option) go) (demo_state demo_world))"
proof -
  let ?run = "GetGKEClientset gke_demo None ''p'' ''main'' ''asia-southeast1''
    :: (demo, unit, rest_config option \<times> error option) go"
  have "outcome ?run (demo_state demo_world) = Next (Some \<lparr> Host = ''https://10.0.0.1'', Insecure = True \<rparr>, None)"
    by code_simp
  then have "?run (demo_state demo_world) = (Next (Some \<lparr> Host = ''https://10.0.0.1'', Insecure = True \<rparr>, None),
      events ?run (demo_state demo_world), final ?run (demo_state demo_world))"
    by (simp add: run_defs prod_eq_iff)
  from gke_clientset_connects [OF this] show ?thesis by blast
qed

end
