(* ===== verification/Wait.thy ===== *)
theory Wait
  imports Gcloud
begin

text \<open>
  \<^verbatim>\<open>controllers/wait.go\<close>: one wait per kind of Google Cloud resource, each a poll of its status
  for at most \<open>GlobalResourceTimeOutMinutes\<close>.  The nine closures differ in the status they ask for
  only; \<open>status_probe\<close> is their common body.
\<close>

definition status_probe :: "('w, error + bool, status) go \<Rightarrow> 'w probe" where
  "status_probe status =
     bnd status (\<lambda>(state, err). case err of
       Some e \<Rightarrow> return (Inl e)
     | None \<Rightarrow> (if state = RunningStatus then return (Inr True) else return (Inr False)))"

definition waitFor :: "'w services \<Rightarrow> 'w probe \<Rightarrow> ('w, 'r, error option) go" where
  "waitFor S f = bnd (WithTimeout S (GlobalResourceTimeOutMinutes * Minute)) (\<lambda>ctx. Wait S ctx f)"

definition waitForContainerCluster :: "'w services \<Rightarrow> string \<Rightarrow> string \<Rightarrow> string \<Rightarrow> ('w, 'r, error option) go" where
  "waitForContainerCluster S projectID name location =
     waitFor S (status_probe (GetContainerClusterStatus S projectID name location))"

definition waitForContainerNodePool ::
  "'w services \<Rightarrow> string \<Rightarrow> string \<Rightarrow> string \<Rightarrow> string \<Rightarrow> ('w, 'r, error option) go" where
  "waitForContainerNodePool S projectID name clusterName location =
     waitFor S (status_probe (GetContainerNodepoolStatus S projectID name clusterName location))"

definition waitForComputeNetwork :: "'w services \<Rightarrow> string \<Rightarrow> string \<Rightarrow> ('w, 'r, error option) go" where
  "waitForComputeNetwork S projectID name =
     waitFor S (status_probe (GetComputeNetworkStatus S projectID name))"

definition waitForComputeSubnetwork :: "'w services \<Rightarrow> string \<Rightarrow> string \<Rightarrow> string \<Rightarrow> ('w, 'r, error option) go" where
  "waitForComputeSubnetwork S projectID name location =
     waitFor S (status_probe (GetComputeSubNetworkStatus S projectID name location))"

definition waitForSQLInstance :: "'w services \<Rightarrow> string \<Rightarrow> string \<Rightarrow> ('w, 'r, error option) go" where
  "waitForSQLInstance S projectID name =
     waitFor S (status_probe (GetSQLInstanceStatus S projectID name))"

definition waitForSQLDatabase :: "'w services \<Rightarrow> string \<Rightarrow> string \<Rightarrow> string \<Rightarrow> ('w, 'r, error option) go" where
  "waitForSQLDatabase S projectID name instanceName =
     waitFor S (status_probe (GetSQLDatabaseStatus S projectID instanceName name))"

definition waitForComputeRouter :: "'w services \<Rightarrow> string \<Rightarrow> string \<Rightarrow> string \<Rightarrow> ('w, 'r, error option) go" where
  "waitForComputeRouter S projectID name region =
     waitFor S (status_probe (GetComputeRouterStatus S projectID name region))"

definition waitForComputeRouterNAT :: "'w services \<Rightarrow> string \<Rightarrow> string \<Rightarrow> string \<Rightarrow> ('w, 'r, error option) go" where
  "waitForComputeRouterNAT S projectID name region =
     waitFor S (status_probe (GetComputeRouterStatus S projectID name region))"

definition waitForStorageBucket :: "'w services \<Rightarrow> string \<Rightarrow> ('w, 'r, error option) go" where
  "waitForStorageBucket S name = waitFor S (status_probe (GetStorageBucketStatus S name))"

lemmas wait_defs = waitForContainerCluster_def waitForContainerNodePool_def waitForComputeNetwork_def
  waitForComputeSubnetwork_def waitForSQLInstance_def waitForSQLDatabase_def waitForComputeRouter_def
  waitForComputeRouterNAT_def waitForStorageBucket_def

lemma emits_status_probe [emits_intros]: "emits P m \<Longrightarrow> emits P (status_probe m)"
  by (auto simp: status_probe_def intro!: emits_intros)

lemma emits_waitFor [emits_intros]: "emits P f \<Longrightarrow> (\<And>d. P (EvSleep d)) \<Longrightarrow> emits P (waitFor S f)"
  by (auto simp: waitFor_def intro!: emits_intros)

lemma emits_waits [emits_intros]:
  assumes "\<And>a args e. P (EvGcp a args e)" and "\<And>e. P (EvCredentials e)" and "\<And>a e. P (EvNewService a e)"
    and "\<And>d. P (EvSleep d)"
  shows "emits P (waitForContainerCluster S p n l)"
    and "emits P (waitForContainerNodePool S p n c l)"
    and "emits P (waitForComputeNetwork S p n)"
    and "emits P (waitForComputeSubnetwork S p n l)"
    and "emits P (waitForSQLInstance S p n)"
    and "emits P (waitForSQLDatabase S p n i)"
    and "emits P (waitForComputeRouter S p n r)"
    and "emits P (waitForComputeRouterNAT S p n r)"
    and "emits P (waitForStorageBucket S n)"
  unfolding wait_defs using assms by (intro emits_intros; simp)+

section \<open>Every status probe answers\<close>

lemma status_asked:
  "asks_status S GcpCluster [cluster_link p l n] (GetContainerClusterStatus S p n l)"
  "asks_status S GcpNodePool [cluster_link p l c @ ''/nodePools/'' @ n] (GetContainerNodepoolStatus S p n c l)"
  "asks_status S GcpNetwork [p, n] (GetComputeNetworkStatus S p n)"
  "asks_status S GcpSubnetwork [p, g, n] (GetComputeSubNetworkStatus S p n g)"
  "asks_status S GcpSQLInstance [p, n] (GetSQLInstanceStatus S p n)"
  "asks_status S GcpSQLDatabase [p, i, n] (GetSQLDatabaseStatus S p i n)"
  "asks_status S GcpRouter [p, g, n] (GetComputeRouterStatus S p n g)"
  "asks_status S GcpBucket [n] (GetStorageBucketStatus S n)"
  unfolding gcp_status_defs
  by (rule asks_statusI, auto simp: status_answer_def split: sum.split option.split)+

text \<open>No status function returns an error: a failed request is \<open>NotReady\<close>, and only a nil service panics.\<close>

lemma answering_status: "asks_status S a args m \<Longrightarrow> answering_probe (status_probe m) {''nil service''}"
proof
  fix s
  assume "asks_status S a args m"
  then show "(\<exists>ok. outcome (probe_run (status_probe m)) s = Next (Inr ok)) \<or>
      (\<exists>p \<in> {''nil service''}. outcome (probe_run (status_probe m)) s = Panic p)"
    by (auto simp: asks_status_def status_answer_def outcome_def probe_run_def status_probe_def scope_def bnd_def Let_def
        split: option.split dest!: spec [of _ s])
qed

interpretation cluster_probe: answering_probe "status_probe (GetContainerClusterStatus S p n l)" "{''nil service''}" for S p n l
  by (rule answering_status) (rule status_asked)

interpretation nodepool_probe: answering_probe "status_probe (GetContainerNodepoolStatus S p n c l)" "{''nil service''}" for S p n c l
  by (rule answering_status) (rule status_asked)

interpretation network_probe: answering_probe "status_probe (GetComputeNetworkStatus S p n)" "{''nil service''}" for S p n
  by (rule answering_status) (rule status_asked)

interpretation subnetwork_probe: answering_probe "status_probe (GetComputeSubNetworkStatus S p n l)" "{''nil service''}" for S p n l
  by (rule answering_status) (rule status_asked)

interpretation sqlinstance_probe: answering_probe "status_probe (GetSQLInstanceStatus S p n)" "{''nil service''}" for S p n
  by (rule answering_status) (rule status_asked)

interpretation sqldatabase_probe: answering_probe "status_probe (GetSQLDatabaseStatus S p i n)" "{''nil service''}" for S p i n
  by (rule answering_status) (rule status_asked)

interpretation router_probe: answering_probe "status_probe (GetComputeRouterStatus S p n l)" "{''nil service''}" for S p n l
  by (rule answering_status) (rule status_asked)

interpretation bucket_probe: answering_probe "status_probe (GetStorageBucketStatus S n)" "{''nil service''}" for S n
  by (rule answering_status) (rule status_asked)

section \<open>How a wait ends\<close>

definition ends_well :: "('w, 'r, error option) go \<Rightarrow> bool" where
  "ends_well m \<longleftrightarrow> (\<forall>s. outcome m s \<in> {Next None, Next (Some context_done_error), Hang, Panic ''nil service''})"

lemma waitFor_run: "waitFor S f s = Wait S (Some (svc_clock S (world s) + GlobalResourceTimeOutMinutes * Minute)) f s"
  by (simp add: waitFor_def WithTimeout_def bnd_def now_def split: prod.split flow.split)

lemma ends_wellI: "answering_probe f {''nil service''} \<Longrightarrow> ends_well (waitFor S f)"
  unfolding ends_well_def outcome_def waitFor_run
  using answering_probe.wait_answers [of f "{''nil service''}" S _ _, unfolded outcome_def] by auto

text \<open>Services in which time passes, and the least backoff is positive.\<close>

definition time_passes :: "'w services \<Rightarrow> int \<Rightarrow> bool" where
  "time_passes S m \<longleftrightarrow> 0 < m \<and> (\<forall>n. m \<le> svc_backoff S n) \<and>
     (\<forall>d w. svc_clock S w + d \<le> svc_clock S (svc_sleep S d w)) \<and>
     (\<forall>n. \<exists>n' \<ge> n. \<forall>w. svc_pick S n' w) \<and>
     (\<forall>w. svc_clock S w \<le> svc_clock S (snd (svc_credentials S w))) \<and>
     (\<forall>a w. svc_clock S w \<le> svc_clock S (snd (svc_new_service S a w))) \<and>
     (\<forall>a args w. svc_clock S w \<le> svc_clock S (snd (svc_gcp S a args w)))"

lemma timely_status:
  assumes S: "time_passes S m" and status: "asks_status S a args p"
  shows "timely S dl (svc_backoff S) m (status_probe p)"
proof -
  have service: "svc_clock S w \<le> svc_clock S (snd (svc_new_service S a (snd (svc_credentials S w))))" for w
    using S unfolding time_passes_def by (meson order_trans)
  have clock: "svc_clock S w \<le> svc_clock S (snd (svc_gcp S a args (snd (svc_new_service S a (snd (svc_credentials S w))))))" for w
    using S service [of w] unfolding time_passes_def by (meson order_trans)
  have "outcome (probe_run (status_probe p)) s \<noteq> Hang \<and>
      svc_clock S (world s) \<le> svc_clock S (world (final (probe_run (status_probe p)) s))" for s
    using status clock [of "world s"] service [of "world s"]
    by (auto simp: asks_status_def probe_run_def status_probe_def scope_def bnd_def status_answer_def
        run_defs Let_def split: option.split dest!: spec[of _ s])
  moreover have "min (svc_clock S w + d) dl \<le> svc_clock S (svc_sleep S d w)" for d w
    using S unfolding time_passes_def by (meson min.coboundedI1)
  ultimately show ?thesis
    using S unfolding timely_def time_passes_def by blast
qed

lemma waitFor_returns:
  assumes "time_passes S m" and "asks_status S a args p"
  shows "outcome (waitFor S (status_probe p) :: ('w, 'r, error option) go) s \<noteq> Hang"
proof -
  let ?dl = "svc_clock S (world s) + GlobalResourceTimeOutMinutes * Minute"
  obtain o1 es s' where loop: "poll_loop S (Some ?dl) (svc_backoff S) 0 IsNeverRetryable (status_probe p) 0 0 [] s = Some (o1, es, s')"
    using poll_loop_terminates [OF timely_status [OF assms], of ?dl 0 IsNeverRetryable s] by auto
  from poll_loop_end [OF loop poll_reach.start] have "(\<exists>e. o1 = Next e) \<or> (\<exists>q. o1 = Panic q)"
    by (auto simp: loop_end_def)
  with loop show ?thesis
    by (auto simp: outcome_def waitFor_run Wait_def WaitWithBackoff_def WaitWithBackoffWithRetries_def)
qed

section \<open>Properties\<close>

text \<open>
  A wait for a resource of Google Cloud never returns an error of the API: if it returns, it is nil or
  that its context was done; it panics only where the client of the API could not be made.
\<close>

theorem waits_end_well:
  "ends_well (waitForContainerCluster S p n l :: ('w, 'r, error option) go) \<and>
   ends_well (waitForContainerNodePool S p n c l :: ('w, 'r, error option) go) \<and>
   ends_well (waitForComputeNetwork S p n :: ('w, 'r, error option) go) \<and>
   ends_well (waitForComputeSubnetwork S p n l :: ('w, 'r, error option) go) \<and>
   ends_well (waitForSQLInstance S p n :: ('w, 'r, error option) go) \<and>
   ends_well (waitForSQLDatabase S p n i :: ('w, 'r, error option) go) \<and>
   ends_well (waitForComputeRouter S p n l :: ('w, 'r, error option) go) \<and>
   ends_well (waitForComputeRouterNAT S p n l :: ('w, 'r, error option) go) \<and>
   ends_well (waitForStorageBucket S n :: ('w, 'r, error option) go)"
  unfolding wait_defs
  by (intro conjI ends_wellI cluster_probe.answering_probe_axioms nodepool_probe.answering_probe_axioms
      network_probe.answering_probe_axioms subnetwork_probe.answering_probe_axioms
      sqlinstance_probe.answering_probe_axioms sqldatabase_probe.answering_probe_axioms
      router_probe.answering_probe_axioms bucket_probe.answering_probe_axioms)

text \<open>
  When time passes, every wait for a resource of Google Cloud returns.
\<close>

theorem waits_return:
  assumes "time_passes S m"
  shows "outcome (waitForContainerCluster S p n l :: ('w, 'r, error option) go) s \<noteq> Hang \<and>
   outcome (waitForContainerNodePool S p n c l :: ('w, 'r, error option) go) s \<noteq> Hang \<and>
   outcome (waitForComputeNetwork S p n :: ('w, 'r, error option) go) s \<noteq> Hang \<and>
   outcome (waitForComputeSubnetwork S p n l :: ('w, 'r, error option) go) s \<noteq> Hang \<and>
   outcome (waitForSQLInstance S p n :: ('w, 'r, error option) go) s \<noteq> Hang \<and>
   outcome (waitForSQLDatabase S p n i :: ('w, 'r, error option) go) s \<noteq> Hang \<and>
   outcome (waitForComputeRouter S p n l :: ('w, 'r, error option) go) s \<noteq> Hang \<and>
   outcome (waitForComputeRouterNAT S p n l :: ('w, 'r, error option) go) s \<noteq> Hang \<and>
   outcome (waitForStorageBucket S n :: ('w, 'r, error option) go) s \<noteq> Hang"
  unfolding wait_defs
  by (intro conjI waitFor_returns [OF assms]) (rule status_asked)+

theorem waits_return_witness:
  "outcome (waitForContainerCluster demo_services ''p'' ''n'' ''l'' :: (demo, unit, error option) go) (demo_state demo_world) \<noteq> Hang"
proof -
  have S: "time_passes demo_services 100000000"
    unfolding time_passes_def
  proof (intro conjI allI)
    show "100000000 \<le> svc_backoff demo_services n" for n
    proof (cases "n < 7")
      case True
      have "(1::int) \<le> 2 ^ n" by simp
      with True show ?thesis by (simp add: demo_services_def)
    qed (simp add: demo_services_def)
  qed (auto simp: demo_services_def)
  show ?thesis by (rule conjunct1 [OF waits_return [OF S]])
qed

end
