(* ===== verification/ClusterAdmin.thy ===== *)
theory ClusterAdmin
  imports Wait
begin

text \<open>
  \<^verbatim>\<open>controllers/cluster-admin.go\<close>: the service account the operator gives itself in a cluster
  it has created, and the administrator's role.

  The code makes every object it needs the same way: get it and, when it is not found, create it.
  \<open>ensure\<close> is that step where any other error of the get is an error of the function,
  \<open>ensure_lenient\<close> where the code does not look at other errors.  In the code the error of a
  create is a new variable of the inner block (\<open>_, err := ...\<close>), so that the outer \<open>err\<close> is still the
  get's when the next guard reads it: it is NotFound there, and the function goes on.
\<close>

definition obj :: "kind \<Rightarrow> string \<Rightarrow> string \<Rightarrow> spec \<Rightarrow> resource" where
  "obj k ns n sp = (zero_resource k)\<lparr>Namespace := ns, Name := n, rSpec := sp\<rparr>"

definition ensure :: "'w services \<Rightarrow> target \<Rightarrow> resource \<Rightarrow> ('w, 'r, error option) go" where
  "ensure S t x =
     bnd (k_get S t (rKind x) (Namespace x) (Name x)) (\<lambda>r. case r of
       Inr y \<Rightarrow> ret None
     | Inl e \<Rightarrow> (if IsNotFound (Some e) then bnd (k_create S t x) (\<lambda>c. ret (err_of c)) else ret (Some e)))"

definition ensure_lenient :: "'w services \<Rightarrow> target \<Rightarrow> resource \<Rightarrow> ('w, 'r, error option) go" where
  "ensure_lenient S t x =
     bnd (k_get S t (rKind x) (Namespace x) (Name x)) (\<lambda>r. case r of
       Inr y \<Rightarrow> ret None
     | Inl e \<Rightarrow> (if IsNotFound (Some e) then bnd (k_create S t x) (\<lambda>c. ret (err_of c)) else ret None))"

text \<open>\<open>if err != nil { return ... }\<close>\<close>

definition try_do :: "('w, 'r, error option) go \<Rightarrow> (error \<Rightarrow> 'r) \<Rightarrow> ('w, 'r, 'a) go \<Rightarrow> ('w, 'r, 'a) go" where
  "try_do m f k = bnd m (\<lambda>err. case err of Some e \<Rightarrow> return (f e) | None \<Rightarrow> k)"

section \<open>The objects\<close>

definition strs :: "string list \<Rightarrow> val" where
  "strs xs = VList (map VStr xs)"

definition ManagementClusterPolicyRules :: val where
  "ManagementClusterPolicyRules = VList
     [VObj [(''APIGroups'', strs [''*'']), (''Resources'', strs [''*'']), (''Verbs'', strs [''*''])],
      VObj [(''NonResourceURLs'', strs [''*'']), (''Verbs'', strs [''*''])]]"

definition cluster_role :: "string \<Rightarrow> val \<Rightarrow> resource" where
  "cluster_role n rules = obj KClusterRole [] n [(''Rules'', rules)]"

definition sa_subject :: "string \<Rightarrow> string \<Rightarrow> val" where
  "sa_subject n ns = VObj [(''Kind'', VStr ''ServiceAccount''), (''Name'', VStr n), (''Namespace'', VStr ns)]"

definition user_subject :: "string \<Rightarrow> val" where
  "user_subject n = VObj [(''Kind'', VStr ''User''), (''Name'', VStr n)]"

definition cluster_role_binding :: "string \<Rightarrow> string \<Rightarrow> val \<Rightarrow> resource" where
  "cluster_role_binding n role subject = obj KClusterRoleBinding [] n
     [(''RoleRef'', VObj [(''APIGroup'', VStr ''rbac.authorization.k8s.io''), (''Kind'', VStr ''ClusterRole''), (''Name'', VStr role)]),
      (''Subjects'', VList [subject])]"

definition service_account :: "string \<Rightarrow> string \<Rightarrow> resource" where
  "service_account ns n = obj KServiceAccount ns n []"

definition token_secret :: "string \<Rightarrow> string \<Rightarrow> resource" where
  "token_secret ns n = (obj KSecret ns (n @ ''sasecret'') [(''Type'', VStr ''kubernetes.io/service-account-token'')])
     \<lparr>Annotations := Some [(''kubernetes.io/service-account.name'', n)]\<rparr>"

lemmas object_defs = cluster_role_def cluster_role_binding_def service_account_def token_secret_def obj_def

section \<open>The operations\<close>

text \<open>
  The typed client returns a zero secret beside its error, never nil, so \<open>isNil\<close> of what the get
  returned is false and the probe answers true as soon as a get succeeds.
\<close>

definition token_probe :: "'w services \<Rightarrow> target \<Rightarrow> string \<Rightarrow> string \<Rightarrow> 'w probe" where
  "token_probe S t namespace name =
     bnd (k_get S t KSecret namespace (name @ ''sasecret'')) (\<lambda>r. case r of
       Inl err \<Rightarrow> seq (assign (zero_resource KSecret)) (return (Inl err))
     | Inr createdServiceAccountSecret \<Rightarrow>
         seq (assign createdServiceAccountSecret) (return (Inr True)))"

definition CreateClusterAdminToken ::
  "'w services \<Rightarrow> clientset \<Rightarrow> string \<Rightarrow> string \<Rightarrow> ('w, 'r, resource option \<times> error option) go" where
  "CreateClusterAdminToken S clientset namespace name = scope (through clientset (\<lambda>t.
     try_do (ensure S t (cluster_role name ManagementClusterPolicyRules)) (\<lambda>e. (None, Some e)) (
     try_do (ensure S t (cluster_role_binding name name (sa_subject name namespace))) (\<lambda>e. (None, Some e)) (
     try_do (ensure S t (service_account namespace name)) (\<lambda>e. (None, Some e)) (
     try_do (ensure S t (token_secret namespace name)) (\<lambda>e. (None, Some e)) (
     bnd (WithTimeout S (20 * Minute)) (\<lambda>ctxWithTimeOut.
     seq (assign (zero_resource KSecret)) (
     bnd (Wait S ctxWithTimeOut (token_probe S t namespace name)) (\<lambda>_.
     bnd fetch (\<lambda>createdServiceAccountSecret.
     return (Some createdServiceAccountSecret, None)))))))))))"

definition CreateAdminUser :: "'w services \<Rightarrow> rest_config option \<Rightarrow> string \<Rightarrow> ('w, 'r, error option) go" where
  "CreateAdminUser S externalRestConfig userEmail = scope (
     bnd (clientset_or_err (NewForConfig S externalRestConfig)) (\<lambda>clientset. case clientset of
       Inl err \<Rightarrow> return (Some err)
     | Inr t \<Rightarrow>
         try_do (ensure S t (cluster_role ''pr-admin'' ManagementClusterPolicyRules)) Some (
         try_do (ensure S t (cluster_role_binding ''pr-admin'' ''pr-admin'' (user_subject userEmail))) Some (
         return None))))"

section \<open>The contract of a creator\<close>

text \<open>
  A creator comes back with an error or nil, and creates nothing but its object, after having
  been told that it is not there.  An ensurer's nil means that the object is there: the API server
  handed it out or accepted it.
\<close>

definition settled :: "target \<Rightarrow> resource \<Rightarrow> event list \<Rightarrow> bool" where
  "settled t x es = (EvGet t (rKind x) (Namespace x) (Name x) None \<in> set es \<or> EvCreate t x None \<in> set es)"

definition creates_only :: "target \<Rightarrow> resource set \<Rightarrow> event \<Rightarrow> bool" where
  "creates_only t X e = (case e of EvCreate t' x r \<Rightarrow> t' = t \<and> x \<in> X | EvGet t' k ns n r \<Rightarrow> t' = t | EvSleep d \<Rightarrow> True | _ \<Rightarrow> False)"

lemma creates_only_simps [simp]:
  "creates_only t X (EvCreate t' x r) \<longleftrightarrow> t' = t \<and> x \<in> X"
  "creates_only t X (EvGet t' k ns n r) \<longleftrightarrow> t' = t"
  "creates_only t X (EvSleep d)"
  by (simp_all add: creates_only_def)

locale creator =
  fixes mk :: "target \<Rightarrow> resource \<Rightarrow> ('w, 'r, error option) go"
  assumes comes_back: "\<exists>e es s'. mk t x s = (Next e, es, s')"
    and creates_guarded: "traces (guarded G) (mk t x)"
    and creates_x: "emits (creates_only t {x}) (mk t x)"
begin

lemma creates_in: "x \<in> X \<Longrightarrow> emits (creates_only t X) (mk t x)"
  by (rule emits_weaken [OF creates_x]) (auto simp: creates_only_def split: event.splits)

lemma guarded_try: "traces (guarded G) k \<Longrightarrow> traces (guarded G) (try_do (mk t x) f k)"
  by (auto simp: try_do_def intro!: traces_intros creates_guarded)

lemma creates_try: "x \<in> X \<Longrightarrow> emits (creates_only t X) k \<Longrightarrow> emits (creates_only t X) (try_do (mk t x) f k)"
  by (auto simp: try_do_def intro!: emits_intros creates_in)

lemma run_tryE:
  assumes "try_do (mk t x) f k s = (o1, es, s')"
  obtains (failed) e where "o1 = Return (f e)" and "mk t x s = (Next (Some e), es, s')"
  | (went_on) es1 s1 es2 where "mk t x s = (Next None, es1, s1)" and "k s1 = (o1, es2, s')" and "es = es1 @ es2"
proof -
  from comes_back obtain e es1 s1 where run: "mk t x s = (Next e, es1, s1)" by blast
  show thesis
  proof (cases e)
    case None
    with run assms went_on show thesis
      by (cases "k s1") (auto simp: try_do_def bnd_Next)
  next
    case (Some e')
    with run assms failed show thesis by (auto simp: try_do_def bnd_Next)
  qed
qed

end

locale ensurer = creator +
  assumes settles: "mk t x s = (Next None, es, s') \<Longrightarrow> settled t x es"
begin

lemma run_try_settledE:
  assumes "try_do (mk t x) f k s = (o1, es, s')"
  obtains (failed) e where "o1 = Return (f e)" and "mk t x s = (Next (Some e), es, s')"
  | (went_on) es1 s1 es2 where "settled t x es1" and "k s1 = (o1, es2, s')" and "es = es1 @ es2"
  using assms by (rule run_tryE) (use settles that in blast)+

end

lemma settled_append [simp]: "settled t x es \<Longrightarrow> settled t x (es @ es')" "settled t x es' \<Longrightarrow> settled t x (es @ es')"
  by (auto simp: settled_def)

lemma ensure_comes_back: "\<exists>e es s'. ensure S t x s = (Next e, es, s')"
  by (simp add: ensure_def k_get_def k_create_def ask_def bnd_def split: prod.split sum.split)

lemma ensure_lenient_comes_back: "\<exists>e es s'. ensure_lenient S t x s = (Next e, es, s')"
  by (simp add: ensure_lenient_def k_get_def k_create_def ask_def bnd_def split: prod.split sum.split)

lemma ensure_settles: "ensure S t x s = (Next None, es, s') \<Longrightarrow> settled t x es"
  by (auto simp: ensure_def k_get_def k_create_def ask_def bnd_def settled_def err_of_def
      split: prod.splits sum.splits if_splits)

interpretation strict: ensurer "ensure S" for S
proof unfold_locales
  show "\<exists>e es s'. ensure S t x s = (Next e, es, s')" for t x s by (rule ensure_comes_back)
  show "traces (guarded G) (ensure S t x)" for G t x
    unfolding ensure_def by (intro traces_get_create traces_intros) simp_all
  show "emits (creates_only t {x}) (ensure S t x)" for t x
    unfolding ensure_def by (intro emits_intros) simp_all
  show "ensure S t x s = (Next None, es, s') \<Longrightarrow> settled t x es" for t x s es s'
    by (rule ensure_settles)
qed

interpretation lenient: creator "ensure_lenient S" for S
proof unfold_locales
  show "\<exists>e es s'. ensure_lenient S t x s = (Next e, es, s')" for t x s by (rule ensure_lenient_comes_back)
  show "traces (guarded G) (ensure_lenient S t x)" for G t x
    unfolding ensure_lenient_def by (intro traces_get_create traces_intros) simp_all
  show "emits (creates_only t {x}) (ensure_lenient S t x)" for t x
    unfolding ensure_lenient_def by (intro emits_intros) simp_all
qed

section \<open>The wait for the token\<close>

lemma Wait_first_turn:
  "probe_run f s = (Next (Inl e), es, s') \<Longrightarrow> Wait S ctx f s = (Next (Some e), es, s')"
  "probe_run f s = (Next (Inr True), es, s') \<Longrightarrow> Wait S ctx f s = (Next None, es, s')"
  by (simp_all add: Wait_def WaitWithBackoff_def WaitWithBackoffWithRetries_def poll_loop.simps poll_turn_def
      IsNeverRetryable_def)

text \<open>The wait is one get, whatever it answers, and its error is dropped.\<close>

lemma token_wait:
  "\<exists>r w. svc_get S t KSecret ns (n @ ''sasecret'') (world s) = (r, w) \<and>
    Wait S ctx (token_probe S t ns n) s =
      (Next (err_of r), [EvGet t KSecret ns (n @ ''sasecret'') (err_of r)],
       s\<lparr>world := w, captured := (case r of Inl e \<Rightarrow> zero_resource KSecret | Inr x \<Rightarrow> x)\<rparr>)"
proof -
  obtain r w where r: "svc_get S t KSecret ns (n @ ''sasecret'') (world s) = (r, w)"
    by (cases "svc_get S t KSecret ns (n @ ''sasecret'') (world s)")
  have "probe_run (token_probe S t ns n) s =
    (Next (case r of Inl e \<Rightarrow> Inl e | Inr x \<Rightarrow> Inr True), [EvGet t KSecret ns (n @ ''sasecret'') (err_of r)],
     s\<lparr>world := w, captured := (case r of Inl e \<Rightarrow> zero_resource KSecret | Inr x \<Rightarrow> x)\<rparr>)"
    using r by (simp add: probe_run_def token_probe_def scope_def bnd_def seq_def assign_def k_get_def ask_def
        split: sum.split)
  with r show ?thesis by (cases r) (auto dest: Wait_first_turn)
qed

lemma WithTimeout_run: "WithTimeout S d s = (Next (Some (svc_clock S (world s) + d)), [], s)"
  by (simp add: WithTimeout_def bnd_def now_def)

lemma emits_token_probe [emits_intros]: "(\<And>e. P (EvGet t KSecret ns (n @ ''sasecret'') e)) \<Longrightarrow> emits P (token_probe S t ns n)"
  by (auto simp: token_probe_def intro!: emits_intros)

text \<open>What the function does after its four ensures.\<close>

definition admin_objects :: "string \<Rightarrow> string \<Rightarrow> resource list" where
  "admin_objects ns n = [cluster_role n ManagementClusterPolicyRules, cluster_role_binding n n (sa_subject n ns),
     service_account ns n, token_secret ns n]"

lemma token_run:
  assumes "(CreateClusterAdminToken S (Some t) ns n :: ('w, 'r, resource option \<times> error option) go) s = (o1, es, s')"
  obtains (failed) e where "o1 = Next (None, Some e)"
  | (answered) r w w' es1 where "o1 = Next (Some (case r of Inl e \<Rightarrow> zero_resource KSecret | Inr x \<Rightarrow> x), None)"
      and "svc_get S t KSecret ns (n @ ''sasecret'') w = (r, w')"
      and "es = es1 @ [EvGet t KSecret ns (n @ ''sasecret'') (err_of r)]"
      and "\<forall>x \<in> set (admin_objects ns n). settled t x es1"
proof -
  define tail where "tail = (bnd (WithTimeout S (20 * Minute)) (\<lambda>ctx. seq (assign (zero_resource KSecret)) (
     bnd (Wait S ctx (token_probe S t ns n)) (\<lambda>_. bnd fetch (\<lambda>sec. return (Some sec, None)))))
     :: ('w, resource option \<times> error option, resource option \<times> error option) go)"
  have tail: "\<exists>r w w'. svc_get S t KSecret ns (n @ ''sasecret'') w = (r, w') \<and>
     o2 = Return (Some (case r of Inl e \<Rightarrow> zero_resource KSecret | Inr x \<Rightarrow> x), None) \<and>
     es2 = [EvGet t KSecret ns (n @ ''sasecret'') (err_of r)]" if "tail s1 = (o2, es2, s2)" for s1 o2 es2 s2
  proof -
    let ?ctx = "Some (svc_clock S (world s1) + 20 * Minute)"
    from token_wait [of S t ns n "s1\<lparr>captured := zero_resource KSecret\<rparr>" ?ctx] obtain r w' where
      "svc_get S t KSecret ns (n @ ''sasecret'') (world s1) = (r, w')"
      "(Wait S ?ctx (token_probe S t ns n) :: ('w, resource option \<times> error option, error option) go)
          (s1\<lparr>captured := zero_resource KSecret\<rparr>) =
        (Next (err_of r), [EvGet t KSecret ns (n @ ''sasecret'') (err_of r)],
         s1\<lparr>world := w', captured := (case r of Inl e \<Rightarrow> zero_resource KSecret | Inr x \<Rightarrow> x)\<rparr>)" by auto
    with that show ?thesis
      by (auto simp: tail_def WithTimeout_run bnd_def seq_def assign_def fetch_def)
  qed
  have body: "CreateClusterAdminToken S (Some t) ns n = (scope (
     try_do (ensure S t (cluster_role n ManagementClusterPolicyRules)) (\<lambda>e. (None, Some e)) (
     try_do (ensure S t (cluster_role_binding n n (sa_subject n ns))) (\<lambda>e. (None, Some e)) (
     try_do (ensure S t (service_account ns n)) (\<lambda>e. (None, Some e)) (
     try_do (ensure S t (token_secret ns n)) (\<lambda>e. (None, Some e)) tail))))
       :: ('w, 'r, resource option \<times> error option) go)"
    by (simp add: CreateClusterAdminToken_def tail_def)
  have "(\<exists>e. o1 = Next (None, Some e)) \<or>
     (\<exists>r w w'. o1 = Next (Some (case r of Inl e \<Rightarrow> zero_resource KSecret | Inr x \<Rightarrow> x), None) \<and>
       svc_get S t KSecret ns (n @ ''sasecret'') w = (r, w') \<and> es \<noteq> [] \<and>
       last es = EvGet t KSecret ns (n @ ''sasecret'') (err_of r) \<and>
       (\<forall>x \<in> set (admin_objects ns n). settled t x (butlast es)))"
    using assms unfolding body scope_def
    by (auto 4 3 elim!: strict.run_try_settledE split: prod.splits flow.splits
        dest!: tail simp: admin_objects_def butlast_append)
  then show thesis
  proof (elim disjE exE conjE)
    fix r w w'
    assume "o1 = Next (Some (case r of Inl e \<Rightarrow> zero_resource KSecret | Inr x \<Rightarrow> x), None)"
      and "svc_get S t KSecret ns (n @ ''sasecret'') w = (r, w')" and es: "es \<noteq> []"
      and ev: "last es = EvGet t KSecret ns (n @ ''sasecret'') (err_of r)"
      and "\<forall>x \<in> set (admin_objects ns n). settled t x (butlast es)"
    moreover have "es = butlast es @ [EvGet t KSecret ns (n @ ''sasecret'') (err_of r)]"
      using append_butlast_last_id [OF es] by (simp add: ev)
    ultimately show thesis using answered by blast
  qed (rule failed)
qed

section \<open>Events\<close>

lemma emits_ensure [emits_intros]:
  "(\<And>e. P (EvGet t (rKind x) (Namespace x) (Name x) e)) \<Longrightarrow> (\<And>e. P (EvCreate t x e)) \<Longrightarrow> emits P (ensure S t x)"
  "(\<And>e. P (EvGet t (rKind x) (Namespace x) (Name x) e)) \<Longrightarrow> (\<And>e. P (EvCreate t x e)) \<Longrightarrow> emits P (ensure_lenient S t x)"
  by (auto simp: ensure_def ensure_lenient_def intro!: emits_intros)

lemma emits_try_do [emits_intros]: "emits P m \<Longrightarrow> emits P k \<Longrightarrow> emits P (try_do m f k)"
  by (auto simp: try_do_def intro!: emits_intros)

lemma traces_try_do [traces_intros]: "traces Q m \<Longrightarrow> traces Q k \<Longrightarrow> traces Q (try_do m f k)"
  unfolding try_do_def by (intro traces_intros) (simp_all add: traces_def)

lemma traces_through [traces_intros]:
  "compositional Q \<Longrightarrow> (\<And>t. cs = Some t \<Longrightarrow> traces Q (f t)) \<Longrightarrow> traces Q (through cs f)"
  by (cases cs) (auto intro: traces_panic)

lemma emits_admin:
  assumes "\<And>k ns n e. P (EvGet t k ns n e)" and "\<And>x e. P (EvCreate t x e)" and "\<And>d. P (EvSleep d)"
  shows "emits P (CreateClusterAdminToken S (Some t) ns n)"
    and "NewForConfig S cfg = Some (Inr t) \<Longrightarrow> emits P (CreateAdminUser S cfg email)"
  using assms by (auto simp: CreateClusterAdminToken_def CreateAdminUser_def clientset_or_err_def intro!: emits_intros)

lemma guarded_token_wait: "traces (guarded G) (Wait S ctx (token_probe S t ns n))"
  by (rule traces_no_create) (intro emits_intros is_create_simps)

lemma guarded_process [traces_intros]:
  "traces (guarded G) (WithTimeout S d)" "traces (guarded G) (assign x)" "traces (guarded G) fetch"
  "traces (guarded G) (clientset_or_err r)" "traces (guarded G) (new_clientset S cfg)"
  by (rule traces_no_create, intro emits_intros)+

lemma guarded_admin_token: "traces (guarded G) (CreateClusterAdminToken S cs ns n)"
  unfolding CreateClusterAdminToken_def
  by (intro traces_intros strict.guarded_try guarded_token_wait)

lemma guarded_admin_user: "traces (guarded G) (CreateAdminUser S cfg email)"
  unfolding CreateAdminUser_def
  by (intro traces_intros strict.guarded_try)

section \<open>Properties\<close>

text \<open>
  C35. The administrator's token: with a clientset, \<open>CreateClusterAdminToken\<close> always returns, with an
  error or with a secret.  Every object it creates is one of its four, in its cluster, and is created
  right after a get of it that answered NotFound.  When it returns a secret, all four objects are
  there, and the secret is what one last get answered, the zero secret (an empty token) when that
  get failed.
\<close>

theorem admin_token_settles:
  fixes S :: "'w services" and ns n :: string and t :: target
  defines "run \<equiv> (CreateClusterAdminToken S (Some t) ns n :: ('w, 'r, resource option \<times> error option) go)"
  shows "((\<exists>e. outcome run s = Next (None, Some e)) \<or>
    (\<exists>r w w' es1. outcome run s = Next (Some (case r of Inl e \<Rightarrow> zero_resource KSecret | Inr x \<Rightarrow> x), None) \<and>
      svc_get S t KSecret ns (n @ ''sasecret'') w = (r, w') \<and>
      events run s = es1 @ [EvGet t KSecret ns (n @ ''sasecret'') (err_of r)] \<and>
      list_all (\<lambda>x. settled t x es1) (admin_objects ns n))) \<and>
    list_all (creates_only t (set (admin_objects ns n))) (events run s) \<and> guarded any_create (events run s)"
proof -
  obtain o1 es s' where run: "run s = (o1, es, s')" by (cases "run s") auto
  then have o1: "outcome run s = o1" and es: "events run s = es" by (simp_all add: run_defs)
  have "(\<exists>e. o1 = Next (None, Some e)) \<or>
    (\<exists>r w w' es1. o1 = Next (Some (case r of Inl e \<Rightarrow> zero_resource KSecret | Inr x \<Rightarrow> x), None) \<and>
      svc_get S t KSecret ns (n @ ''sasecret'') w = (r, w') \<and>
      es = es1 @ [EvGet t KSecret ns (n @ ''sasecret'') (err_of r)] \<and>
      list_all (\<lambda>x. settled t x es1) (admin_objects ns n))"
    using run [unfolded run_def] by (rule token_run) (auto simp: list_all_iff)
  moreover have "emits (creates_only t (set (admin_objects ns n))) run"
    unfolding run_def CreateClusterAdminToken_def
    by (auto intro!: emits_intros strict.creates_try simp: admin_objects_def)
  ultimately show ?thesis
    using tracesD [OF guarded_admin_token, of any_create S "Some t" ns n s]
    unfolding o1 es by (auto simp: list_all_iff run_def es [symmetric] dest: emitsD)
qed

text \<open>
  \<open>CreateAdminUser\<close> gives the user the role \<open>pr-admin\<close>: nil means that the role and its
  binding to that user are in the cluster.
\<close>

theorem admin_user_settles:
  assumes "(CreateAdminUser S cfg email :: ('w, 'r, error option) go) s = (Next None, es, s')"
  shows "\<exists>t. NewForConfig S cfg = Some (Inr t) \<and>
    settled t (cluster_role ''pr-admin'' ManagementClusterPolicyRules) es \<and>
    settled t (cluster_role_binding ''pr-admin'' ''pr-admin'' (user_subject email)) es"
proof -
  obtain t where t: "NewForConfig S cfg = Some (Inr t)"
    using assms by (auto simp: CreateAdminUser_def clientset_or_err_def scope_def split: option.splits sum.splits)
  with assms show ?thesis
    by (auto simp: CreateAdminUser_def clientset_or_err_def scope_def elim!: strict.run_try_settledE
        split: prod.splits flow.splits)
qed

theorem admin_user_settles_witness:
  "\<exists>t. NewForConfig demo_services (Some \<lparr> Host = ''https://c'', Insecure = True \<rparr>) = Some (Inr t) \<and>
    settled t (cluster_role ''pr-admin'' ManagementClusterPolicyRules)
      (events (CreateAdminUser demo_services (Some \<lparr> Host = ''https://c'', Insecure = True \<rparr>) ''a@b.c''
        :: (demo, unit, error option) go) (demo_state demo_world)) \<and>
    settled t (cluster_role_binding ''pr-admin'' ''pr-admin'' (user_subject ''a@b.c''))
      (events (CreateAdminUser demo_services (Some \<lparr> Host = ''https://c'', Insecure = True \<rparr>) ''a@b.c''
        :: (demo, unit, error option) go) (demo_state demo_world))"
proof (rule admin_user_settles)
  let ?run = "CreateAdminUser demo_services (Some \<lparr> Host = ''https://c'', Insecure = True \<rparr>) ''a@b.c''
    :: (demo, unit, error option) go"
  have "outcome ?run (demo_state demo_world) = Next None" by code_simp
  then show "?run (demo_state demo_world) =
      (Next None, events ?run (demo_state demo_world), final ?run (demo_state demo_world))"
    by (simp add: run_defs prod_eq_iff)
qed

end
