(* ===== verification/Addons.thy ===== *)
theory Addons
  imports ClusterAdmin
begin

text \<open>
  What the operator installs in a cluster it has created.

  \<^item> \<^verbatim>\<open>controllers/velero.go\<close>: Velero, its backups and restores, and the waits for them.
  \<^item> \<^verbatim>\<open>controllers/nginx.go\<close>, \<^verbatim>\<open>controllers/external-secrets.go\<close> and \<^verbatim>\<open>pkg/helm/helm.go\<close>: the other
    Helm charts.
  \<^item> \<^verbatim>\<open>controllers/resource-patcher.go\<close> and \<^verbatim>\<open>controllers/externaldns.go\<close>: two deployments with
    their accounts.

  The four functions that install a chart start with the same statements, \<open>helm_login\<close>: they put
  the cluster's certificate in a file and its token, its address and that file in environment
  variables of the process, from which \<open>cli.New\<close> reads Helm's settings.  They end with the same
  statements too, \<open>helm_install\<close>.  The reads through a nil pointer (\<open>externalRestConfig.Host\<close>,
  \<open>secret.Data\<close>) and the calls on a nil clientset are panics.
\<close>

section \<open>Helm\<close>

definition data_of :: "string \<Rightarrow> resource \<Rightarrow> string" where
  "data_of k x = (case map_of (rData x) k of None \<Rightarrow> [] | Some v \<Rightarrow> v)"

definition deref_or_panic :: "'a option \<Rightarrow> ('w, 'r, 'a) go" where
  "deref_or_panic p = (case p of None \<Rightarrow> panic ''nil pointer dereference'' | Some x \<Rightarrow> ret x)"

definition no_dots :: "string \<Rightarrow> string" where
  "no_dots h = remove_all CHR ''.'' h"

text \<open>
  From \<open>url.Parse\<close> to \<open>cli.New\<close>.  \<open>file_of\<close> is what the function makes of the host to name the
  file: with its dots removed in the package \<open>controllers\<close>, as it is in \<open>pkg/helm\<close>.
\<close>

definition login_front ::
  "'w services \<Rightarrow> (string \<Rightarrow> string) \<Rightarrow> resource option \<Rightarrow> rest_config option \<Rightarrow> ('w, error option, unit) go" where
  "login_front S file_of secret externalRestConfig =
     bnd (deref_or_panic externalRestConfig) (\<lambda>cfg.
     case svc_url_host S (Host cfg) of
       Inl err \<Rightarrow> return (Some err)
     | Inr host \<Rightarrow>
         let caPath = ''/tmp/'' @ file_of host in
         bnd (deref_or_panic secret) (\<lambda>sec.
         let bearerToken = data_of ''token'' sec; caData = data_of ''ca.crt'' sec in
         try_do (write_file S caPath caData) Some (
         seq (setenv ''HELM_KUBETOKEN'' bearerToken) (
         seq (setenv ''HELM_KUBEAPISERVER'' (Host cfg)) (
         setenv ''HELM_KUBECAFILE'' caPath)))))"

text \<open>\<open>settings := cli.New()\<close> then reads the three variables back.\<close>

definition helm_login ::
  "'w services \<Rightarrow> (string \<Rightarrow> string) \<Rightarrow> resource option \<Rightarrow> rest_config option \<Rightarrow> ('w, error option, helm_settings) go" where
  "helm_login S file_of secret externalRestConfig =
     bnd (login_front S file_of secret externalRestConfig) (\<lambda>_. cli_New S)"

text \<open>
  From \<open>actionConfig.Init\<close> to the release's \<open>Run\<close>.  What a failed \<open>loader.Load\<close> does is an
  argument: the package \<open>controllers\<close> returns the error, \<open>pkg/helm\<close> panics.
\<close>

definition helm_install ::
  "'w services \<Rightarrow> helm_settings \<Rightarrow> string \<Rightarrow> string \<Rightarrow> string \<Rightarrow> val \<Rightarrow>
     (error \<Rightarrow> ('w, error option, unit) go) \<Rightarrow> ('w, error option, unit) go" where
  "helm_install S settings name namespace url vals load_failed =
     try_do (helm_init S settings namespace) Some (
     bnd (helm_locate S settings url) (\<lambda>chartPath. case chartPath of
       Inl err \<Rightarrow> return (Some err)
     | Inr path \<Rightarrow>
     bnd (helm_load S path) (\<lambda>chart. case chart of
       Inl err \<Rightarrow> load_failed err
     | Inr c \<Rightarrow>
     try_do (helm_run S settings namespace name c vals) Some (ret ()))))"

definition namespace_obj :: "string \<Rightarrow> resource" where
  "namespace_obj n = obj KNamespace [] n []"

definition velero_vals :: "'w services \<Rightarrow> val" where
  "velero_vals S = VObj
     [(''configuration'', VObj
        [(''provider'', VStr ''gcp''),
         (''backupStorageLocation'', VObj
            [(''bucket'', VStr (VeleroBackupBucket S)), (''name'', VStr ''default''),
             (''config'', VObj [(''serviceAccount'', VStr (VeleroSaId S))])])]),
      (''initContainers'', VList [VObj
        [(''name'', VStr ''velero-plugin-for-gcp''), (''image'', VStr ''velero/velero-plugin-for-gcp:v1.5.0''),
         (''volumeMounts'', VList [VObj [(''mountPath'', VStr ''/target''), (''name'', VStr ''plugins'')]])]]),
      (''credentials'', VObj [(''useSecret'', VBool False)]),
      (''serviceAccount'', VObj [(''server'', VObj [(''annotations'', VObj
        [(''iam.gke.io/gcp-service-account'', VStr (VeleroSaId S))])])])]"

text \<open>The rest of \<open>deployVelero\<close>, once it has its settings.\<close>

definition velero_chart :: "'w services \<Rightarrow> clientset \<Rightarrow> helm_settings \<Rightarrow> ('w, error option, error option) go" where
  "velero_chart S clientset settings =
     through clientset (\<lambda>t.
     bnd (k_get S t KNamespace [] ''velero'') (\<lambda>r. case r of
       Inr ns \<Rightarrow> return None
     | Inl err \<Rightarrow> (if IsNotFound (Some err) then
         bnd (k_create S t (namespace_obj ''velero'')) (\<lambda>_.
         seq (helm_install S settings ''velero'' ''velero''
           ''https://github.com/vmware-tanzu/helm-charts/releases/download/velero-2.31.3/velero-2.31.3.tgz''
           (velero_vals S) (\<lambda>e. return (Some e))) (return None))
       else return None)))"

definition deployVelero ::
  "'w services \<Rightarrow> clientset \<Rightarrow> resource option \<Rightarrow> rest_config option \<Rightarrow> ('w, 'r, error option) go" where
  "deployVelero S clientset secret externalRestConfig = scope (
     bnd (helm_login S no_dots secret externalRestConfig) (velero_chart S clientset))"

definition nginx_vals :: val where
  "nginx_vals = VObj [(''publishService'', VObj [(''enabled'', VBool True)])]"

definition deployNginxIngress ::
  "'w services \<Rightarrow> clientset \<Rightarrow> resource option \<Rightarrow> rest_config option \<Rightarrow> ('w, 'r, error option) go" where
  "deployNginxIngress S clientset secret externalRestConfig = scope (
     bnd (helm_login S no_dots secret externalRestConfig) (\<lambda>settings.
     through clientset (\<lambda>t.
     bnd (k_get S t KNamespace [] ''nginx-ingress'') (\<lambda>r. case r of
       Inr ns \<Rightarrow> return None
     | Inl err \<Rightarrow> (if IsNotFound (Some err) then
         bnd (k_create S t (namespace_obj ''nginx-ingress'')) (\<lambda>_.
         seq (helm_install S settings ''nginx-ingress-controller'' ''nginx-ingress''
           ''https://charts.bitnami.com/bitnami/nginx-ingress-controller-9.1.2.tgz''
           nginx_vals (\<lambda>e. return (Some e))) (return None))
       else return None)))))"

definition external_secrets_vals :: val where
  "external_secrets_vals = VObj [(''serviceAccount'', VObj [(''annotations'', VObj
     [(''iam.gke.io/gcp-service-account'', VStr ExternalSecretSaId)])])]"

definition deployExternalSecret ::
  "'w services \<Rightarrow> clientset \<Rightarrow> resource option \<Rightarrow> rest_config option \<Rightarrow> ('w, 'r, error option) go" where
  "deployExternalSecret S clientset secret externalRestConfig = scope (
     bnd (helm_login S no_dots secret externalRestConfig) (\<lambda>settings.
     through clientset (\<lambda>t.
     bnd (k_get S t KDeployment ''kube-system'' ''external-secrets-kubernetes-external-secrets'') (\<lambda>r. case r of
       Inr d \<Rightarrow> return None
     | Inl err \<Rightarrow> (if IsNotFound (Some err) then
         seq (helm_install S settings ''external-secrets'' ''kube-system''
           ''https://external-secrets.github.io/kubernetes-external-secrets/kubernetes-external-secrets-8.5.4.tgz''
           external_secrets_vals (\<lambda>e. return (Some e))) (return None)
       else return None)))))"

definition DeployHelm ::
  "'w services \<Rightarrow> clientset \<Rightarrow> resource option \<Rightarrow> rest_config option \<Rightarrow> string \<Rightarrow> string \<Rightarrow> string \<Rightarrow>
     ('w, 'r, error option) go" where
  "DeployHelm S clientset secret externalRestConfig name namespace chartUrl = scope (
     bnd (helm_login S (\<lambda>h. h) secret externalRestConfig) (\<lambda>settings.
     through clientset (\<lambda>t.
     bnd (k_get S t KNamespace [] namespace) (\<lambda>r. case r of
       Inr ns \<Rightarrow> return None
     | Inl err \<Rightarrow> (if IsNotFound (Some err) then
         bnd (k_create S t (namespace_obj namespace)) (\<lambda>_.
         seq (helm_install S settings name namespace chartUrl (VObj []) (\<lambda>e. panic ''chart not loaded'')) (return None))
       else return None)))))"

section \<open>Velero's backups and restores\<close>

definition backup_obj :: "string list \<Rightarrow> string \<Rightarrow> resource" where
  "backup_obj namespaces name = obj KBackup ''velero'' name
     [(''csiSnapshotTimeout'', VStr ''10m0s''), (''defaultVolumesToRestic'', VBool False), (''hooks'', VObj []),
      (''includedNamespaces'', strs namespaces), (''metadata'', VObj []), (''storageLocation'', VStr ''default''),
      (''ttl'', VStr ''720h0m0s''), (''volumeSnapshotLocations'', strs [''default'']),
      (''labelSelector'', VObj [(''matchExpressions'', VList [VObj
        [(''key'', VStr ''backup''), (''operator'', VStr ''NotIn''), (''values'', strs [''ignore''])]])])]"

definition restore_obj :: "string \<Rightarrow> string \<Rightarrow> resource" where
  "restore_obj name backUpName = obj KRestore ''velero'' name
     [(''backupName'', VStr backUpName),
      (''excludedResources'', strs [''nodes'', ''events'', ''events.events.k8s.io'', ''backups.velero.io'',
         ''restores.velero.io'', ''resticrepositories.velero.io'']),
      (''hooks'', VObj []), (''includedNamespaces'', strs [''*''])]"

text \<open>Both look first, create when the look answers NotFound, and return nil on any other error of it.\<close>

definition createBackUp ::
  "'w services \<Rightarrow> rest_config option \<Rightarrow> string list \<Rightarrow> string \<Rightarrow> ('w, 'r, error option) go" where
  "createBackUp S externalRestConfig namespaces name = scope (
     bnd (clientset_or_err (DynamicForConfig S externalRestConfig)) (\<lambda>dynamicClient. case dynamicClient of
       Inl err \<Rightarrow> return (Some err)
     | Inr t \<Rightarrow> try_do (ensure_lenient S t (backup_obj namespaces name)) Some (return None)))"

definition createRestore ::
  "'w services \<Rightarrow> resource option \<Rightarrow> rest_config option \<Rightarrow> string \<Rightarrow> string \<Rightarrow> ('w, 'r, error option) go" where
  "createRestore S secret externalRestConfig name backUpName = scope (
     bnd (clientset_or_err (DynamicForConfig S externalRestConfig)) (\<lambda>dynamicClient. case dynamicClient of
       Inl err \<Rightarrow> return (Some err)
     | Inr t \<Rightarrow> try_do (ensure_lenient S t (restore_obj name backUpName)) Some (return None)))"

text \<open>
  The two waits differ in what a failed get means: for the backup it ends the wait with the
  error, for the restore it is another turn.  \<open>svc_phase\<close> is the library's conversion of the
  object, with its phase.
\<close>

definition backup_probe :: "'w services \<Rightarrow> rest_config option \<Rightarrow> string \<Rightarrow> 'w probe" where
  "backup_probe S externalRestConfig name =
     bnd (clientset_or_err (DynamicForConfig S externalRestConfig)) (\<lambda>dynamicClient. case dynamicClient of
       Inl err \<Rightarrow> return (Inl err)
     | Inr t \<Rightarrow>
     bnd (k_get S t KBackup ''velero'' name) (\<lambda>r. case r of
       Inl err \<Rightarrow> return (Inl err)
     | Inr resource \<Rightarrow> (case svc_phase S resource of
         Inl err \<Rightarrow> return (Inl err)
       | Inr phase \<Rightarrow> (if phase = ''Completed'' then return (Inr True) else return (Inr False)))))"

definition waitForBackUp :: "'w services \<Rightarrow> rest_config option \<Rightarrow> string \<Rightarrow> ('w, 'r, error option) go" where
  "waitForBackUp S externalRestConfig name = waitFor S (backup_probe S externalRestConfig name)"

definition restore_probe :: "'w services \<Rightarrow> rest_config option \<Rightarrow> string \<Rightarrow> 'w probe" where
  "restore_probe S externalRestConfig name =
     bnd (clientset_or_err (DynamicForConfig S externalRestConfig)) (\<lambda>dynamicClient. case dynamicClient of
       Inl err \<Rightarrow> return (Inl err)
     | Inr t \<Rightarrow>
     bnd (k_get S t KRestore ''velero'' name) (\<lambda>r. case r of
       Inl err \<Rightarrow> return (Inr False)
     | Inr resource \<Rightarrow> (case svc_phase S resource of
         Inl err \<Rightarrow> return (Inl err)
       | Inr phase \<Rightarrow> (if phase = ''Completed'' then return (Inr True) else return (Inr False)))))"

definition waitForRestore :: "'w services \<Rightarrow> rest_config option \<Rightarrow> string \<Rightarrow> ('w, 'r, error option) go" where
  "waitForRestore S externalRestConfig name = waitFor S (restore_probe S externalRestConfig name)"

section \<open>The deployments\<close>

definition env_var :: "string \<Rightarrow> string \<Rightarrow> val" where
  "env_var n v = VObj [(''Name'', VStr n), (''Value'', VStr v)]"

text \<open>A deployment of one container, recreated on change, whose pods carry the label \<open>app\<close>.\<close>

definition deployment_obj :: "string \<Rightarrow> string \<Rightarrow> string \<Rightarrow> (string \<times> val) list \<Rightarrow> resource" where
  "deployment_obj ns name img fs = obj KDeployment ns name
     [(''Strategy'', VObj [(''Type'', VStr ''Recreate'')]),
      (''Selector'', VObj [(''MatchLabels'', VObj [(''app'', VStr name)])]),
      (''Template'', VObj [(''Labels'', VObj [(''app'', VStr name)]),
         (''Spec'', VObj [(''ServiceAccountName'', VStr name),
            (''Containers'', VList [VObj ([(''Name'', VStr name), (''Image'', VStr img)] @ fs)])])])]"

definition resource_patcher_sa :: "'w services \<Rightarrow> resource" where
  "resource_patcher_sa S = (service_account ''kube-system'' ''resource-patcher'')
     \<lparr>Annotations := Some [(''iam.gke.io/gcp-service-account'', ResourcePatcherSaId S)]\<rparr>"

definition resource_patcher_deployment :: "string \<Rightarrow> string \<Rightarrow> string \<Rightarrow> resource" where
  "resource_patcher_deployment targetClusterProjectID allowTag subID =
     deployment_obj ''kube-system'' ''resource-patcher'' ''asia.gcr.io/org-operation/org/resource-patcher:main-96a348a''
       [(''Env'', VList [env_var ''GCP_PROJECT_ID'' targetClusterProjectID, env_var ''ALLOW_TAG'' allowTag,
          env_var ''SUB_ID'' subID])]"

definition deployResourcePatcher ::
  "'w services \<Rightarrow> clientset \<Rightarrow> string \<Rightarrow> string \<Rightarrow> string \<Rightarrow> ('w, 'r, error option) go" where
  "deployResourcePatcher S clientset targetClusterProjectID allowTag subID = scope (through clientset (\<lambda>t.
     try_do (ensure S t (cluster_role ''resource-patcher'' ManagementClusterPolicyRules)) Some (
     try_do (ensure S t (cluster_role_binding ''resource-patcher'' ''resource-patcher''
       (sa_subject ''resource-patcher'' ''kube-system''))) Some (
     try_do (ensure_lenient S t (resource_patcher_sa S)) Some (
     try_do (ensure_lenient S t (resource_patcher_deployment targetClusterProjectID allowTag subID)) Some (
     return None))))))"

definition policy_rule :: "string list \<Rightarrow> string list \<Rightarrow> string list \<Rightarrow> val" where
  "policy_rule groups resources verbs =
     VObj [(''APIGroups'', strs groups), (''Resources'', strs resources), (''Verbs'', strs verbs)]"

definition ExternalDNSPolicyRules :: val where
  "ExternalDNSPolicyRules = VList
     [policy_rule [''''] [''services'', ''endpoints'', ''pods''] [''get'', ''watch'', ''list''],
      policy_rule [''networking.k8s.io''] [''ingresses''] [''get'', ''watch'', ''list''],
      policy_rule [''''] [''nodes''] [''list'', ''watch'']]"

definition external_dns_deployment :: "string \<Rightarrow> string \<Rightarrow> string \<Rightarrow> resource" where
  "external_dns_deployment domainFilter zoneIdFilter apiToken =
     deployment_obj ''default'' ''external-dns'' ''k8s.gcr.io/external-dns/external-dns:v0.12.2''
       [(''Args'', strs [''--source=ingress'', ''--domain-filter='' @ domainFilter, ''--provider=cloudflare'',
          ''--cloudflare-proxied'', ''--zone-id-filter='' @ zoneIdFilter]),
        (''Env'', VList [env_var ''CF_API_TOKEN'' apiToken])]"

text \<open>\<open>_, err = ... .Create(...); if err != nil { return err }\<close>\<close>

definition create_or_return ::
  "'w services \<Rightarrow> target \<Rightarrow> resource \<Rightarrow> ('w, error option, 'a) go \<Rightarrow> ('w, error option, 'a) go" where
  "create_or_return S t x k = try_do (bnd (k_create S t x) (\<lambda>c. ret (err_of c))) Some k"

definition deployExternalDns :: "'w services \<Rightarrow> clientset \<Rightarrow> ('w, 'r, error option) go" where
  "deployExternalDns S clientset = scope (through clientset (\<lambda>t.
     bnd (k_get S t KDeployment ''default'' ''external-dns'') (\<lambda>r. case r of
       Inr d \<Rightarrow> return None
     | Inl err \<Rightarrow> (if IsNotFound (Some err) then
         bnd (getenv S CloudFlareDomainFilter) (\<lambda>domainFilter.
         bnd (getenv S CloudFlareZoneIdFilter) (\<lambda>zoneIdFilter.
         bnd (getenv S CloudFlareApiToken) (\<lambda>apiToken.
         create_or_return S t (external_dns_deployment domainFilter zoneIdFilter apiToken) (
         create_or_return S t (service_account ''default'' ''external-dns'') (
         create_or_return S t (cluster_role ''external-dns'' ExternalDNSPolicyRules) (
         create_or_return S t (cluster_role_binding ''external-dns-viewer'' ''external-dns''
           (sa_subject ''external-dns'' ''default'')) (
         return None)))))))
       else return None))))"

section \<open>Logging in\<close>

definition login_settings :: "(string \<Rightarrow> string) \<Rightarrow> string \<Rightarrow> resource \<Rightarrow> rest_config \<Rightarrow> helm_settings" where
  "login_settings file_of host sec cfg =
     \<lparr> KubeToken = data_of ''token'' sec, KubeAPIServer = Host cfg, KubeCaFile = ''/tmp/'' @ file_of host \<rparr>"

definition login_event :: "event \<Rightarrow> bool" where
  "login_event e = (case e of EvWriteFile p r \<Rightarrow> True | EvSetenv k v \<Rightarrow> True | _ \<Rightarrow> False)"

text \<open>In a run of its own, a login reads back from the environment what it put there.\<close>

lemma helm_login_run:
  assumes "(helm_login S file_of (Some sec) (Some cfg) :: ('w, error option, helm_settings) go) s = (o1, es, s')"
  obtains (failed) e where "o1 = Return (Some e)" and "list_all login_event es"
  | (logged_in) host where "svc_url_host S (Host cfg) = Inr host"
      and "o1 = Next (login_settings file_of host sec cfg)" and "list_all login_event es"
proof (cases "svc_url_host S (Host cfg)")
  case (Inl e)
  with assms have "o1 = Return (Some e)" "es = []"
    by (simp_all add: helm_login_def login_front_def deref_or_panic_def return_def [symmetric])
  with failed show thesis by simp
next
  case (Inr host)
  show thesis
  proof (cases "fst (svc_write_file S (''/tmp/'' @ file_of host) (data_of ''ca.crt'' sec) (world s))")
    case None
    with assms Inr have "o1 = Next (login_settings file_of host sec cfg) \<and> list_all login_event es"
      by (auto simp: helm_login_def login_front_def deref_or_panic_def Let_def try_do_def write_file_def ask_def bnd_def seq_def
          setenv_def cli_New_def login_settings_def login_event_def split: prod.splits)
    with Inr logged_in show thesis by blast
  next
    case (Some e)
    with assms Inr have "o1 = Return (Some e) \<and> list_all login_event es"
      by (auto simp: helm_login_def login_front_def deref_or_panic_def Let_def try_do_def write_file_def ask_def bnd_def
          login_event_def split: prod.splits)
    with failed show thesis by blast
  qed
qed

section \<open>The contract of a chart\<close>

text \<open>What an installation does after its guard: all of it with the settings it logged in with.\<close>

definition install_event :: "target \<Rightarrow> helm_settings \<Rightarrow> event \<Rightarrow> bool" where
  "install_event t c e = (case e of EvCreate t' x r \<Rightarrow> t' = t | EvHelmInit c' ns r \<Rightarrow> c' = c
     | EvHelmLocate u r \<Rightarrow> True | EvHelmLoad p r \<Rightarrow> True | EvHelmRun c' ns rel vals r \<Rightarrow> c' = c | _ \<Rightarrow> False)"

definition is_helm :: "event \<Rightarrow> bool" where
  "is_helm e = (case e of EvHelmInit c ns r \<Rightarrow> True | EvHelmLocate u r \<Rightarrow> True | EvHelmLoad p r \<Rightarrow> True
     | EvHelmRun c ns rel vals r \<Rightarrow> True | _ \<Rightarrow> False)"

lemma install_event_simps [simp]:
  "install_event t c (EvCreate t' x r) \<longleftrightarrow> t' = t"
  "install_event t c (EvHelmInit c' ns r) \<longleftrightarrow> c' = c"
  "install_event t c (EvHelmLocate u r)"
  "install_event t c (EvHelmLoad p r)"
  "install_event t c (EvHelmRun c' ns rel vals r) \<longleftrightarrow> c' = c"
  by (simp_all add: install_event_def)

lemma is_helm_simps [simp]:
  "is_helm (EvHelmInit c ns r)" "is_helm (EvHelmLocate u r)" "is_helm (EvHelmLoad p r)"
  "is_helm (EvHelmRun c ns rel vals r)" "\<not> is_helm (EvGet t k ns n r)"
  by (simp_all add: is_helm_def)

lemma login_set:
  assumes "list_all login_event es"
  shows "list_all (\<lambda>e. \<not> is_helm e) es" and "EvGet t k ns n r \<notin> set es" and "EvHelmRun c ns rel vals r \<notin> set es"
proof -
  have "login_event e \<Longrightarrow> \<not> is_helm e" for e by (cases e) (auto simp: login_event_def is_helm_def)
  with assms show "list_all (\<lambda>e. \<not> is_helm e) es" by (auto simp: list_all_iff)
  show "EvGet t k ns n r \<notin> set es" "EvHelmRun c ns rel vals r \<notin> set es"
    using assms by (auto simp: list_all_iff login_event_def)
qed

lemma install_set:
  assumes "list_all (install_event t c) es"
  shows "EvGet t' k ns n r \<notin> set es" and "EvHelmRun c' ns rel vals r \<in> set es \<Longrightarrow> c' = c"
  using assms by (auto simp: list_all_iff install_event_def)

text \<open>
  A chart logs in, asks for its guard object and, only when that is not found, installs.  The
  function's other arguments are fixed.
\<close>

locale chart =
  fixes S :: "'w services"
    and deploy :: "clientset \<Rightarrow> resource option \<Rightarrow> rest_config option \<Rightarrow> ('w, 'r, error option) go"
    and file_of :: "string \<Rightarrow> string"
    and guard :: "kind \<times> string \<times> string"
  assumes phases: "deploy (Some t) (Some sec) (Some cfg) s = (o1, es, s') \<Longrightarrow>
      ((\<exists>e. o1 = Next (Some e)) \<and> list_all login_event es) \<or>
      (\<exists>pre r post host. list_all login_event pre \<and> svc_url_host S (Host cfg) = Inr host \<and>
         es = pre @ EvGet t (fst guard) (fst (snd guard)) (snd (snd guard)) r # post \<and>
         (if r = Some ENotFound then list_all (install_event t (login_settings file_of host sec cfg)) post
          else post = [] \<and> o1 = Next None))"
    and nil_config: "outcome (deploy cs sc None) s = Panic ''nil pointer dereference''"
begin

lemma run_cases:
  fixes t :: target and sec :: resource and cfg :: rest_config and s :: "'w st"
  defines "run \<equiv> deploy (Some t) (Some sec) (Some cfg)"
    and "guard_get \<equiv> \<lambda>r. EvGet t (fst guard) (fst (snd guard)) (snd (snd guard)) r"
  obtains (no_login) e where "outcome run s = Next (Some e)" and "list_all login_event (events run s)"
  | (installs) pre post host where "list_all login_event pre" and "svc_url_host S (Host cfg) = Inr host"
      and "events run s = pre @ guard_get (Some ENotFound) # post"
      and "list_all (install_event t (login_settings file_of host sec cfg)) post"
  | (skips) pre r where "list_all login_event pre" and "r \<noteq> Some ENotFound"
      and "events run s = pre @ [guard_get r]" and "outcome run s = Next None"
proof -
  obtain o1 es s' where run: "deploy (Some t) (Some sec) (Some cfg) s = (o1, es, s')"
    by (cases "deploy (Some t) (Some sec) (Some cfg) s") auto
  then have es: "events run s = es" "outcome run s = o1" by (simp_all add: run_defs run_def)
  from phases [OF run] show thesis
  proof (elim disjE conjE exE)
    fix pre r post host
    assume "list_all login_event pre" "svc_url_host S (Host cfg) = Inr host"
      "es = pre @ EvGet t (fst guard) (fst (snd guard)) (snd (snd guard)) r # post"
      "if r = Some ENotFound then list_all (install_event t (login_settings file_of host sec cfg)) post
       else post = [] \<and> o1 = Next None"
    with es installs skips show thesis by (cases "r = Some ENotFound") (auto simp: guard_get_def)
  qed (use es no_login in blast)
qed

lemma no_helm_without_guard:
  assumes "EvGet t (fst guard) (fst (snd guard)) (snd (snd guard)) (Some ENotFound) \<notin>
      set (events (deploy (Some t) (Some sec) (Some cfg)) s)"
  shows "list_all (\<lambda>e. \<not> is_helm e) (events (deploy (Some t) (Some sec) (Some cfg)) s)"
  using assms by (cases rule: run_cases [of t sec cfg s]) (auto simp: login_set)

lemma guard_there_skips:
  assumes "EvGet t (fst guard) (fst (snd guard)) (snd (snd guard)) r \<in>
      set (events (deploy (Some t) (Some sec) (Some cfg)) s)" and "r \<noteq> Some ENotFound"
  shows "outcome (deploy (Some t) (Some sec) (Some cfg)) s = Next None \<and>
    list_all (\<lambda>e. \<not> is_helm e) (events (deploy (Some t) (Some sec) (Some cfg)) s)"
  using assms by (cases rule: run_cases [of t sec cfg s]) (auto simp: login_set install_set)

lemma helm_uses_own_cluster:
  assumes "EvHelmRun c ns rel vals r \<in> set (events (deploy (Some t) (Some sec) (Some cfg)) s)"
  shows "\<exists>host. svc_url_host S (Host cfg) = Inr host \<and> c = login_settings file_of host sec cfg \<and>
    EvGet t (fst guard) (fst (snd guard)) (snd (snd guard)) (Some ENotFound) \<in>
      set (events (deploy (Some t) (Some sec) (Some cfg)) s)"
  using assms by (cases rule: run_cases [of t sec cfg s]) (auto simp: login_set dest: install_set(2))

end

text \<open>The shape the four functions have, once.\<close>

lemma chart_phases:
  assumes inst: "\<And>c. emits (install_event t c) (inst c)"
    and run: "(scope (bnd (helm_login S file_of (Some sec) (Some cfg)) (\<lambda>settings.
      bnd (k_get S t gk gns gn) (\<lambda>r. case r of
        Inr x \<Rightarrow> return None
      | Inl err \<Rightarrow> (if IsNotFound (Some err) then inst settings else return None))))
      :: ('w, 'r, error option) go) s = (o1, es, s')"
  shows "((\<exists>e. o1 = Next (Some e)) \<and> list_all login_event es) \<or>
      (\<exists>pre r post host. list_all login_event pre \<and> svc_url_host S (Host cfg) = Inr host \<and>
         es = pre @ EvGet t gk gns gn r # post \<and>
         (if r = Some ENotFound then list_all (install_event t (login_settings file_of host sec cfg)) post
          else post = [] \<and> o1 = Next None))"
proof -
  obtain o2 es2 s2 where login: "(helm_login S file_of (Some sec) (Some cfg) :: ('w, error option, helm_settings) go) s = (o2, es2, s2)"
    by (cases "(helm_login S file_of (Some sec) (Some cfg) :: ('w, error option, helm_settings) go) s") auto
  from login show ?thesis
  proof (cases rule: helm_login_run)
    case (failed e)
    with login run show ?thesis by (intro disjI1) (auto simp: scope_def bnd_Return)
  next
    case (logged_in host)
    let ?c = "login_settings file_of host sec cfg"
    obtain r w where r: "svc_get S t gk gns gn (world s2) = (r, w)" by (cases "svc_get S t gk gns gn (world s2)")
    let ?s3 = "s2\<lparr>world := w\<rparr>"
    show ?thesis
    proof (cases "r = Inl ENotFound")
      case True
      obtain o4 es4 s4 where i: "inst ?c ?s3 = (o4, es4, s4)" by (cases "inst ?c ?s3") auto
      have "list_all (install_event t ?c) es4"
        using inst [of ?c] i by (auto simp: emits_def events_def list_all_iff dest: spec[of _ ?s3])
      moreover have "es = es2 @ EvGet t gk gns gn (Some ENotFound) # es4"
        using run login logged_in r True i
        by (auto simp: scope_def bnd_def k_get_def ask_def split: flow.splits)
      ultimately show ?thesis using logged_in by (intro disjI2 exI conjI) auto
    next
      case False
      then have "es = es2 @ [EvGet t gk gns gn (err_of r)]" "o1 = Next None" "err_of r \<noteq> Some ENotFound"
        using run login logged_in r
        by (auto simp: scope_def bnd_def k_get_def ask_def IsNotFound_def err_of_def split: flow.splits sum.splits if_splits)
      with logged_in show ?thesis by (intro disjI2 exI conjI) auto
    qed
  qed
qed

lemma emits_helm_install:
  "(\<And>e. emits (install_event t c) (lf e)) \<Longrightarrow> emits (install_event t c) (helm_install S c name ns url vals lf)"
  by (auto simp: helm_install_def intro!: emits_intros)

lemma nil_login: "scope (bnd (helm_login S f sc None) k) = panic ''nil pointer dereference''"
  by (rule ext) (simp add: helm_login_def login_front_def deref_or_panic_def scope_def bnd_def panic_def)

interpretation velero: chart S "deployVelero S" no_dots "(KNamespace, [], ''velero'')" for S
proof unfold_locales
  fix t sec cfg s o1 es s'
  assume "deployVelero S (Some t) (Some sec) (Some cfg) s = (o1, es, s')"
  then show "((\<exists>e. o1 = Next (Some e)) \<and> list_all login_event es) \<or>
      (\<exists>pre r post host. list_all login_event pre \<and> svc_url_host S (Host cfg) = Inr host \<and>
         es = pre @ EvGet t (fst (KNamespace, [], ''velero'')) (fst (snd (KNamespace, [], ''velero'')))
           (snd (snd (KNamespace, [], ''velero''))) r # post \<and>
         (if r = Some ENotFound then list_all (install_event t (login_settings no_dots host sec cfg)) post
          else post = [] \<and> o1 = Next None))"
    unfolding deployVelero_def velero_chart_def through_Some fst_conv snd_conv
    by (rule chart_phases [rotated]) (auto intro!: emits_intros emits_helm_install)
qed (simp add: deployVelero_def nil_login outcome_def)

interpretation nginx: chart S "deployNginxIngress S" no_dots "(KNamespace, [], ''nginx-ingress'')" for S
proof unfold_locales
  fix t sec cfg s o1 es s'
  assume "deployNginxIngress S (Some t) (Some sec) (Some cfg) s = (o1, es, s')"
  then show "((\<exists>e. o1 = Next (Some e)) \<and> list_all login_event es) \<or>
      (\<exists>pre r post host. list_all login_event pre \<and> svc_url_host S (Host cfg) = Inr host \<and>
         es = pre @ EvGet t (fst (KNamespace, [], ''nginx-ingress'')) (fst (snd (KNamespace, [], ''nginx-ingress'')))
           (snd (snd (KNamespace, [], ''nginx-ingress''))) r # post \<and>
         (if r = Some ENotFound then list_all (install_event t (login_settings no_dots host sec cfg)) post
          else post = [] \<and> o1 = Next None))"
    unfolding deployNginxIngress_def through_Some fst_conv snd_conv
    by (rule chart_phases [rotated]) (auto intro!: emits_intros emits_helm_install)
qed (simp add: deployNginxIngress_def nil_login outcome_def)

interpretation secrets: chart S "deployExternalSecret S" no_dots
  "(KDeployment, ''kube-system'', ''external-secrets-kubernetes-external-secrets'')" for S
proof unfold_locales
  fix t sec cfg s o1 es s'
  let ?g = "(KDeployment, ''kube-system'', ''external-secrets-kubernetes-external-secrets'')"
  assume "deployExternalSecret S (Some t) (Some sec) (Some cfg) s = (o1, es, s')"
  then show "((\<exists>e. o1 = Next (Some e)) \<and> list_all login_event es) \<or>
      (\<exists>pre r post host. list_all login_event pre \<and> svc_url_host S (Host cfg) = Inr host \<and>
         es = pre @ EvGet t (fst ?g) (fst (snd ?g)) (snd (snd ?g)) r # post \<and>
         (if r = Some ENotFound then list_all (install_event t (login_settings no_dots host sec cfg)) post
          else post = [] \<and> o1 = Next None))"
    unfolding deployExternalSecret_def through_Some fst_conv snd_conv
    by (rule chart_phases [rotated]) (auto intro!: emits_intros emits_helm_install)
qed (simp add: deployExternalSecret_def nil_login outcome_def)

interpretation helm: chart S "\<lambda>cs sec cfg. DeployHelm S cs sec cfg name namespace chartUrl" "\<lambda>h. h"
  "(KNamespace, [], namespace)" for S name namespace chartUrl
proof unfold_locales
  fix t sec cfg s o1 es s'
  assume "DeployHelm S (Some t) (Some sec) (Some cfg) name namespace chartUrl s = (o1, es, s')"
  then show "((\<exists>e. o1 = Next (Some e)) \<and> list_all login_event es) \<or>
      (\<exists>pre r post host. list_all login_event pre \<and> svc_url_host S (Host cfg) = Inr host \<and>
         es = pre @ EvGet t (fst (KNamespace, [], namespace)) (fst (snd (KNamespace, [], namespace)))
           (snd (snd (KNamespace, [], namespace))) r # post \<and>
         (if r = Some ENotFound then list_all (install_event t (login_settings (\<lambda>h. h) host sec cfg)) post
          else post = [] \<and> o1 = Next None))"
    unfolding DeployHelm_def through_Some fst_conv snd_conv
    by (rule chart_phases [rotated]) (auto intro!: emits_intros emits_helm_install)
qed (simp add: DeployHelm_def nil_login outcome_def)

section \<open>Properties\<close>

text \<open>
  C28. In a run of its own, in which no other login comes between its own and the reading of the
  settings, a Helm chart is run only after the guard object of the chart was asked for and not found
  in the same call, and with the token, the address and the certificate file of the very cluster
  the function was given: the settings it read back from the environment are its own.
\<close>

theorem charts_use_own_cluster:
  "(EvHelmRun c ns rel vals r \<in> set (events (deployVelero S (Some t) (Some sec) (Some cfg) :: ('w, 'r, error option) go) s) \<longrightarrow>
     (\<exists>host. svc_url_host S (Host cfg) = Inr host \<and> c = login_settings no_dots host sec cfg \<and>
        EvGet t KNamespace [] ''velero'' (Some ENotFound) \<in>
          set (events (deployVelero S (Some t) (Some sec) (Some cfg) :: ('w, 'r, error option) go) s))) \<and>
   (EvHelmRun c ns rel vals r \<in> set (events (deployNginxIngress S (Some t) (Some sec) (Some cfg) :: ('w, 'r, error option) go) s) \<longrightarrow>
     (\<exists>host. svc_url_host S (Host cfg) = Inr host \<and> c = login_settings no_dots host sec cfg \<and>
        EvGet t KNamespace [] ''nginx-ingress'' (Some ENotFound) \<in>
          set (events (deployNginxIngress S (Some t) (Some sec) (Some cfg) :: ('w, 'r, error option) go) s))) \<and>
   (EvHelmRun c ns rel vals r \<in> set (events (deployExternalSecret S (Some t) (Some sec) (Some cfg) :: ('w, 'r, error option) go) s) \<longrightarrow>
     (\<exists>host. svc_url_host S (Host cfg) = Inr host \<and> c = login_settings no_dots host sec cfg \<and>
        EvGet t KDeployment ''kube-system'' ''external-secrets-kubernetes-external-secrets'' (Some ENotFound) \<in>
          set (events (deployExternalSecret S (Some t) (Some sec) (Some cfg) :: ('w, 'r, error option) go) s))) \<and>
   (EvHelmRun c ns rel vals r \<in> set (events (DeployHelm S (Some t) (Some sec) (Some cfg) name nsp url :: ('w, 'r, error option) go) s) \<longrightarrow>
     (\<exists>host. svc_url_host S (Host cfg) = Inr host \<and> c = login_settings (\<lambda>h. h) host sec cfg \<and>
        EvGet t KNamespace [] nsp (Some ENotFound) \<in>
          set (events (DeployHelm S (Some t) (Some sec) (Some cfg) name nsp url :: ('w, 'r, error option) go) s)))"
  by (intro conjI impI velero.helm_uses_own_cluster [unfolded fst_conv snd_conv]
      nginx.helm_uses_own_cluster [unfolded fst_conv snd_conv]
      secrets.helm_uses_own_cluster [unfolded fst_conv snd_conv]
      helm.helm_uses_own_cluster [unfolded fst_conv snd_conv])

definition demo_secret :: resource where
  "demo_secret = (obj KSecret ''kube-system'' ''tempsasecret'' [])\<lparr>rData := [(''token'', ''tok''), (''ca.crt'', ''pem'')]\<rparr>"

definition demo_config :: rest_config where
  "demo_config = \<lparr> Host = ''https://10.0.0.1'', Insecure = True \<rparr>"

theorem charts_use_own_cluster_witness:
  "\<exists>host. svc_url_host demo_services (Host demo_config) = Inr host \<and>
    \<lparr> KubeToken = ''tok'', KubeAPIServer = ''https://10.0.0.1'', KubeCaFile = ''/tmp/https://10001'' \<rparr> =
      login_settings no_dots host demo_secret demo_config \<and>
    EvGet (Remote ''c'') KNamespace [] ''nginx-ingress'' (Some ENotFound) \<in>
      set (events (deployNginxIngress demo_services (Some (Remote ''c'')) (Some demo_secret) (Some demo_config)
        :: (demo, unit, error option) go) (demo_state demo_world))"
proof (rule mp)
  let ?run = "deployNginxIngress demo_services (Some (Remote ''c'')) (Some demo_secret) (Some demo_config) :: (demo, unit, error option) go"
  let ?c = "\<lparr> KubeToken = ''tok'', KubeAPIServer = ''https://10.0.0.1'', KubeCaFile = ''/tmp/https://10001'' \<rparr>"
  show "EvHelmRun ?c ''nginx-ingress'' ''nginx-ingress-controller'' nginx_vals None \<in> set (events ?run (demo_state demo_world)) \<longrightarrow>
      (\<exists>host. svc_url_host demo_services (Host demo_config) = Inr host \<and>
        ?c = login_settings no_dots host demo_secret demo_config \<and>
        EvGet (Remote ''c'') KNamespace [] ''nginx-ingress'' (Some ENotFound) \<in> set (events ?run (demo_state demo_world)))"
    by (rule conjunct1 [OF conjunct2 [OF charts_use_own_cluster]])
  show "EvHelmRun ?c ''nginx-ingress'' ''nginx-ingress-controller'' nginx_vals None \<in> set (events ?run (demo_state demo_world))"
    by code_simp
qed

text \<open>A chart is touched only after an object was created.\<close>

definition helm_after :: "target \<Rightarrow> resource \<Rightarrow> event list \<Rightarrow> bool" where
  "helm_after t x es \<longleftrightarrow> (\<forall>us e vs. es = us @ e # vs \<and> is_helm e \<longrightarrow> (\<exists>c. EvCreate t x c \<in> set us))"

lemma compositional_helm_after [traces_intros]: "compositional (helm_after t x)"
proof -
  have "helm_after t x (xs @ ys)" if xs: "helm_after t x xs" and ys: "helm_after t x ys" for xs ys
    unfolding helm_after_def
  proof (intro allI impI)
    fix us e vs
    assume "xs @ ys = us @ e # vs \<and> is_helm e"
    then have split: "xs @ ys = us @ e # vs" and e: "is_helm e" by simp_all
    from split consider (left) zs where "us @ [e] @ zs = xs" | (right) zs where "us = xs @ zs" "ys = zs @ e # vs"
      by (auto simp: append_eq_append_conv2 Cons_eq_append_conv append_eq_Cons_conv)
    then show "\<exists>c. EvCreate t x c \<in> set us"
    proof cases
      case left
      with xs e show ?thesis unfolding helm_after_def by (metis append_Cons append_Nil)
    next
      case right
      with ys e show ?thesis unfolding helm_after_def by auto
    qed
  qed
  moreover have "helm_after t x []" by (simp add: helm_after_def)
  ultimately show ?thesis by (simp add: compositional_def)
qed

lemma traces_before_helm: "emits (\<lambda>e. \<not> is_helm e) m \<Longrightarrow> traces (helm_after t x) m"
  by (rule traces_emits [OF compositional_helm_after]) (auto simp: helm_after_def Cons_eq_append_conv)

lemma helm_after_create: "traces (helm_after t x) (bnd (k_create S t x) k)"
proof -
  have "helm_after t x (EvCreate t x c # es)" for c es
    by (auto simp: helm_after_def Cons_eq_append_conv is_helm_def)
  then show ?thesis by (simp add: traces_def compositional_helm_after k_create_def events_ask)
qed

lemma emits_login_plain: "emits (\<lambda>e. \<not> is_helm e) (helm_login S f sec cfg)"
  by (auto simp: helm_login_def login_front_def deref_or_panic_def try_do_def Let_def is_helm_def intro!: emits_intros)

lemma charts_after_namespace:
  "traces (helm_after t (namespace_obj ''velero'')) (deployVelero S (Some t) sec cfg)"
  "traces (helm_after t (namespace_obj ''nginx-ingress'')) (deployNginxIngress S (Some t) sec cfg)"
proof -
  have get: "traces (helm_after t x) (k_get S t k ns n)" for x k ns n
    by (rule traces_before_helm) (auto intro!: emits_intros)
  show "traces (helm_after t (namespace_obj ''velero'')) (deployVelero S (Some t) sec cfg)"
    "traces (helm_after t (namespace_obj ''nginx-ingress'')) (deployNginxIngress S (Some t) sec cfg)"
    unfolding deployVelero_def velero_chart_def deployNginxIngress_def through_Some
    by (intro traces_intros traces_before_helm [OF emits_login_plain] get helm_after_create)+
qed


text \<open>The second call in a world where the first one's chart failed to load.\<close>

definition failing_helm :: "demo services" where
  "failing_helm = demo_services\<lparr>svc_helm_load := (\<lambda>p w. (Inl (EMsg ''no chart''), w))\<rparr>"


text \<open>
  Without a connection to the cluster the installations do not fail, they panic: the
  configuration's address is read before anything is checked.
\<close>

theorem charts_panic_without_config:
  "outcome (deployVelero S cs sec None :: ('w, 'r, error option) go) s = Panic ''nil pointer dereference'' \<and>
   outcome (deployNginxIngress S cs sec None :: ('w, 'r, error option) go) s = Panic ''nil pointer dereference'' \<and>
   outcome (deployExternalSecret S cs sec None :: ('w, 'r, error option) go) s = Panic ''nil pointer dereference'' \<and>
   outcome (DeployHelm S cs sec None name nsp url :: ('w, 'r, error option) go) s = Panic ''nil pointer dereference''"
  by (intro conjI velero.nil_config nginx.nil_config secrets.nil_config helm.nil_config)

section \<open>Backups, restores and deployments\<close>

lemma lenient_nil:
  "ensure_lenient S t x s = (Next None, es, s') \<Longrightarrow>
    settled t x es \<or> (\<exists>e. e \<noteq> ENotFound \<and> EvGet t (rKind x) (Namespace x) (Name x) (Some e) \<in> set es)"
  by (auto simp: ensure_lenient_def k_get_def k_create_def ask_def bnd_def settled_def err_of_def IsNotFound_def
      split: prod.splits sum.splits if_splits) blast

text \<open>A nil of a creator that overlooks errors: the object is there, or the look failed otherwise.\<close>

definition overlooked :: "target \<Rightarrow> resource \<Rightarrow> event list \<Rightarrow> bool" where
  "overlooked t x es = (\<exists>e. e \<noteq> ENotFound \<and> EvGet t (rKind x) (Namespace x) (Name x) (Some e) \<in> set es)"

lemma overlooked_append [simp]:
  "overlooked t x es \<Longrightarrow> overlooked t x (es @ es')" "overlooked t x es' \<Longrightarrow> overlooked t x (es @ es')"
  by (auto simp: overlooked_def)

lemma lenient_tryE:
  assumes "try_do (ensure_lenient S t x) f k s = (o1, es, s')"
  obtains (failed) e where "o1 = Return (f e)"
  | (went_on) es1 s1 es2 where "settled t x es1 \<or> overlooked t x es1" and "k s1 = (o1, es2, s')" and "es = es1 @ es2"
  using assms
proof (cases rule: lenient.run_tryE)
  case (went_on es1 s1 es2)
  with lenient_nil [OF went_on(1)] that show thesis by (auto simp: overlooked_def)
qed (rule that(1))

lemma Wait_error:
  "(Wait S ctx f :: ('w, 'r, error option) go) s = (Next (Some e), es, s') \<Longrightarrow>
    e = context_done_error \<or> (\<exists>u es1. probe_run f u = (Next (Inl e), es1, s'))"
proof -
  assume "(Wait S ctx f :: ('w, 'r, error option) go) s = (Next (Some e), es, s')"
  then have run: "(WaitWithBackoffWithRetries S ctx (svc_backoff S) 0 IsNeverRetryable f :: ('w, 'r, error option) go) s = (Next (Some e), es, s')"
    by (simp add: Wait_def WaitWithBackoff_def)
  show ?thesis by (rule wait_cases [OF run]) (auto dest: turn_Done_Some)
qed

lemma backup_probe_run:
  "DynamicForConfig S cfg = Some (Inr t) \<Longrightarrow> svc_get S t KBackup ''velero'' n (world s) = (Inl e, w) \<Longrightarrow>
    probe_run (backup_probe S cfg n) s = (Next (Inl e), [EvGet t KBackup ''velero'' n (Some e)], s\<lparr>world := w\<rparr>)"
  by (simp add: probe_run_def backup_probe_def clientset_or_err_def k_get_def ask_def bnd_def scope_def)

lemma create_or_returnE:
  assumes "create_or_return S t x k s = (o1, es, s')"
  obtains (failed) e where "o1 = Return (Some e)"
  | (created) es2 s1 where "es = EvCreate t x None # es2" and "k s1 = (o1, es2, s')"
proof -
  obtain c w where c: "svc_create S t x (world s) = (c, w)" by (cases "svc_create S t x (world s)")
  show thesis
  proof (cases c)
    case (Inl e)
    with assms c failed show thesis
      by (auto simp: create_or_return_def try_do_def k_create_def ask_def bnd_def)
  next
    case (Inr y)
    with assms c created show thesis
      by (cases "k (s\<lparr>world := w\<rparr>)") (auto simp: create_or_return_def try_do_def k_create_def ask_def bnd_def)
  qed
qed

text \<open>
  \<open>createBackUp\<close> and \<open>createRestore\<close> return nil when the object is in Velero's namespace of
  that cluster, but also when the look for it failed otherwise than with NotFound: then nothing was
  created.  What they create is the backup of exactly the namespaces asked for, and the restore of
  the backup asked for.
\<close>

theorem backup_nil:
  assumes "(createBackUp S cfg nss n :: ('w, 'r, error option) go) s = (Next None, es, s')"
    and "(createRestore S sec cfg' n' b :: ('w, 'r, error option) go) u = (Next None, fs, u')"
  shows "(\<exists>t. DynamicForConfig S cfg = Some (Inr t) \<and>
      (settled t (backup_obj nss n) es \<or> overlooked t (backup_obj nss n) es)) \<and>
    (\<exists>t. DynamicForConfig S cfg' = Some (Inr t) \<and>
      (settled t (restore_obj n' b) fs \<or> overlooked t (restore_obj n' b) fs))"
proof
  obtain t where t: "DynamicForConfig S cfg = Some (Inr t)"
    using assms(1) by (auto simp: createBackUp_def clientset_or_err_def scope_def split: option.splits sum.splits)
  with assms(1) show "\<exists>t. DynamicForConfig S cfg = Some (Inr t) \<and>
      (settled t (backup_obj nss n) es \<or> overlooked t (backup_obj nss n) es)"
    by (auto simp: createBackUp_def clientset_or_err_def scope_def elim!: lenient_tryE split: prod.splits flow.splits)
  obtain t' where t': "DynamicForConfig S cfg' = Some (Inr t')"
    using assms(2) by (auto simp: createRestore_def clientset_or_err_def scope_def split: option.splits sum.splits)
  with assms(2) show "\<exists>t. DynamicForConfig S cfg' = Some (Inr t) \<and>
      (settled t (restore_obj n' b) fs \<or> overlooked t (restore_obj n' b) fs)"
    by (auto simp: createRestore_def clientset_or_err_def scope_def elim!: lenient_tryE split: prod.splits flow.splits)
qed

text \<open>One API server that takes the backup, one that cannot be reached when the restore is looked for.\<close>

definition no_restores :: "demo services" where
  "no_restores = demo_services\<lparr>svc_get := (\<lambda>t k ns n w.
     if k = KRestore then (Inl (EMsg ''unavailable''), w) else svc_get demo_services t k ns n w)\<rparr>"

theorem backup_nil_witness:
  "(\<exists>t. DynamicForConfig no_restores (Some demo_config) = Some (Inr t) \<and>
      (settled t (backup_obj [''shop''] ''pr-1'') (events (createBackUp no_restores (Some demo_config) [''shop''] ''pr-1''
          :: (demo, unit, error option) go) (demo_state demo_world)) \<or>
       overlooked t (backup_obj [''shop''] ''pr-1'') (events (createBackUp no_restores (Some demo_config) [''shop''] ''pr-1''
          :: (demo, unit, error option) go) (demo_state demo_world)))) \<and>
    (\<exists>t. DynamicForConfig no_restores (Some demo_config) = Some (Inr t) \<and>
      (settled t (restore_obj ''pr-1'' ''pr-1'') (events (createRestore no_restores (Some demo_secret) (Some demo_config) ''pr-1'' ''pr-1''
          :: (demo, unit, error option) go) (demo_state demo_world)) \<or>
       overlooked t (restore_obj ''pr-1'' ''pr-1'') (events (createRestore no_restores (Some demo_secret) (Some demo_config) ''pr-1'' ''pr-1''
          :: (demo, unit, error option) go) (demo_state demo_world))))"
proof (rule backup_nil)
  let ?b = "createBackUp no_restores (Some demo_config) [''shop''] ''pr-1'' :: (demo, unit, error option) go"
  let ?r = "createRestore no_restores (Some demo_secret) (Some demo_config) ''pr-1'' ''pr-1'' :: (demo, unit, error option) go"
  have "outcome ?b (demo_state demo_world) = Next None" by code_simp
  then show "?b (demo_state demo_world) = (Next None, events ?b (demo_state demo_world), final ?b (demo_state demo_world))"
    by (simp add: run_defs prod_eq_iff)
  have "outcome ?r (demo_state demo_world) = Next None" by code_simp
  then show "?r (demo_state demo_world) = (Next None, events ?r (demo_state demo_world), final ?r (demo_state demo_world))"
    by (simp add: run_defs prod_eq_iff)
qed

text \<open>
  The wait for a backup and the wait for a restore treat a failed look differently.  The
  wait for a backup ends at once with the error of its first look; the error of a wait for a
  restore is never one of the API: it is the deadline, or the client or the object could not
  be made.  Both answer nil only after they have read an object whose phase is \<open>Completed\<close>.
\<close>

theorem velero_waits:
  assumes "DynamicForConfig S cfg = Some (Inr t)"
    and "svc_get S t KBackup ''velero'' n (world s) = (Inl e, w)"
  shows "(waitForBackUp S cfg n :: ('w, 'r, error option) go) s =
      (Next (Some e), [EvGet t KBackup ''velero'' n (Some e)], s\<lparr>world := w\<rparr>) \<and>
    (outcome (waitForRestore S cfg n :: ('w, 'r, error option) go) u = Next (Some e') \<longrightarrow>
      e' = context_done_error \<or> (\<exists>x. svc_phase S x = Inl e')) \<and>
    (outcome (waitForRestore S cfg n :: ('w, 'r, error option) go) u = Next None \<longrightarrow>
      (\<exists>x. svc_phase S x = Inr ''Completed'' \<and>
        EvGet t KRestore ''velero'' n None \<in> set (events (waitForRestore S cfg n :: ('w, 'r, error option) go) u)))"
proof (intro conjI impI)
  show "(waitForBackUp S cfg n :: ('w, 'r, error option) go) s =
      (Next (Some e), [EvGet t KBackup ''velero'' n (Some e)], s\<lparr>world := w\<rparr>)"
    unfolding waitForBackUp_def waitFor_run by (rule Wait_first_turn) (rule backup_probe_run [OF assms])
next
  assume "outcome (waitForRestore S cfg n :: ('w, 'r, error option) go) u = Next (Some e')"
  then obtain es v where "(waitForRestore S cfg n :: ('w, 'r, error option) go) u = (Next (Some e'), es, v)"
    by (cases "(waitForRestore S cfg n :: ('w, 'r, error option) go) u") (auto simp: outcome_def)
  then have "e' = context_done_error \<or> (\<exists>u es1. probe_run (restore_probe S cfg n) u = (Next (Inl e'), es1, v))"
    unfolding waitForRestore_def waitFor_run by (rule Wait_error)
  then show "e' = context_done_error \<or> (\<exists>x. svc_phase S x = Inl e')"
    using assms(1) by (auto simp: probe_run_def restore_probe_def clientset_or_err_def k_get_def ask_def bnd_def scope_def
        split: prod.splits sum.splits if_splits)
next
  assume "outcome (waitForRestore S cfg n :: ('w, 'r, error option) go) u = Next None"
  then obtain es v where run: "(waitForRestore S cfg n :: ('w, 'r, error option) go) u = (Next None, es, v)"
    by (cases "(waitForRestore S cfg n :: ('w, 'r, error option) go) u") (auto simp: outcome_def)
  then have "\<exists>u' es1 es'. probe_run (restore_probe S cfg n) u' = (Next (Inr True), es', v) \<and> es = es1 @ es'"
    unfolding waitForRestore_def waitFor_run by (rule Wait_nil)
  then show "\<exists>x. svc_phase S x = Inr ''Completed'' \<and>
      EvGet t KRestore ''velero'' n None \<in> set (events (waitForRestore S cfg n :: ('w, 'r, error option) go) u)"
    using assms(1) run by (auto simp: events_def probe_run_def restore_probe_def clientset_or_err_def k_get_def ask_def
        bnd_def scope_def split: prod.splits sum.splits if_splits)
qed

theorem velero_waits_witness:
  "(waitForBackUp demo_services (Some demo_config) ''pr-1'' :: (demo, unit, error option) go) (demo_state demo_world) =
      (Next (Some ENotFound), [EvGet (Remote ''https://10.0.0.1'') KBackup ''velero'' ''pr-1'' (Some ENotFound)],
       (demo_state demo_world)\<lparr>world := world (demo_state demo_world)\<rparr>)"
proof (rule conjunct1 [OF velero_waits])
  show "DynamicForConfig demo_services (Some demo_config) = Some (Inr (Remote ''https://10.0.0.1''))"
    by code_simp
  have "svc_get demo_services (Remote ''https://10.0.0.1'') KBackup ''velero'' ''pr-1'' (world (demo_state demo_world)) =
      (Inl ENotFound, world (demo_state demo_world))" by code_simp
  then show "svc_get demo_services (Remote ''https://10.0.0.1'') KBackup ''velero'' ''pr-1'' (world (demo_state demo_world)) =
      (Inl ENotFound, world (demo_state demo_world))" .
qed

text \<open>
  The resource patcher: nil means that the role and its binding are in the cluster; the
  account and the deployment are there too unless the look for them failed otherwise than with
  NotFound.
\<close>

theorem resource_patcher_settles:
  assumes "(deployResourcePatcher S (Some t) project tag sub :: ('w, 'r, error option) go) s = (Next None, es, s')"
  shows "settled t (cluster_role ''resource-patcher'' ManagementClusterPolicyRules) es \<and>
    settled t (cluster_role_binding ''resource-patcher'' ''resource-patcher'' (sa_subject ''resource-patcher'' ''kube-system'')) es \<and>
    (settled t (resource_patcher_sa S) es \<or> overlooked t (resource_patcher_sa S) es) \<and>
    (settled t (resource_patcher_deployment project tag sub) es \<or>
     overlooked t (resource_patcher_deployment project tag sub) es)"
  using assms unfolding deployResourcePatcher_def through_Some scope_def
  by (auto elim!: strict.run_try_settledE lenient_tryE split: prod.splits flow.splits)

theorem resource_patcher_settles_witness:
  "let es = events (deployResourcePatcher demo_services (Some Mgmt) ''proj'' ''main'' ''gcr-sub'' :: (demo, unit, error option) go) (demo_state demo_world)
   in settled Mgmt (cluster_role ''resource-patcher'' ManagementClusterPolicyRules) es \<and>
    settled Mgmt (cluster_role_binding ''resource-patcher'' ''resource-patcher'' (sa_subject ''resource-patcher'' ''kube-system'')) es \<and>
    (settled Mgmt (resource_patcher_sa demo_services) es \<or> overlooked Mgmt (resource_patcher_sa demo_services) es) \<and>
    (settled Mgmt (resource_patcher_deployment ''proj'' ''main'' ''gcr-sub'') es \<or>
     overlooked Mgmt (resource_patcher_deployment ''proj'' ''main'' ''gcr-sub'') es)"
  unfolding Let_def
proof (rule resource_patcher_settles)
  let ?r = "deployResourcePatcher demo_services (Some Mgmt) ''proj'' ''main'' ''gcr-sub'' :: (demo, unit, error option) go"
  have "outcome ?r (demo_state demo_world) = Next None" by code_simp
  then show "?r (demo_state demo_world) = (Next None, events ?r (demo_state demo_world), final ?r (demo_state demo_world))"
    by (simp add: run_defs prod_eq_iff)
qed

text \<open>
  The external-dns deployment guards everything it needs: a nil means that the account, the
  role and the binding were all created together with it, or that the deployment was not found
  missing, and then nothing at all was created, whatever is missing of the rest.
\<close>

theorem external_dns_all_or_nothing:
  assumes "(deployExternalDns S (Some t) :: ('w, 'r, error option) go) s = (Next None, es, s')"
  shows "(EvCreate t (service_account ''default'' ''external-dns'') None \<in> set es \<and>
      EvCreate t (cluster_role ''external-dns'' ExternalDNSPolicyRules) None \<in> set es \<and>
      EvCreate t (cluster_role_binding ''external-dns-viewer'' ''external-dns'' (sa_subject ''external-dns'' ''default'')) None \<in> set es \<and>
      EvCreate t (external_dns_deployment (env_get S s CloudFlareDomainFilter) (env_get S s CloudFlareZoneIdFilter)
        (env_get S s CloudFlareApiToken)) None \<in> set es) \<or>
    (\<exists>r. r \<noteq> Some ENotFound \<and> es = [EvGet t KDeployment ''default'' ''external-dns'' r])"
proof -
  obtain r w where r: "svc_get S t KDeployment ''default'' ''external-dns'' (world s) = (r, w)"
    by (cases "svc_get S t KDeployment ''default'' ''external-dns'' (world s)")
  show ?thesis
  proof (cases "r = Inl ENotFound")
    case True
    with assms r show ?thesis
      by (auto simp: deployExternalDns_def scope_def k_get_def ask_def bnd_def getenv_def env_get_def elim!: create_or_returnE
          split: prod.splits flow.splits)
  next
    case False
    with assms r have "es = [EvGet t KDeployment ''default'' ''external-dns'' (err_of r)]" "err_of r \<noteq> Some ENotFound"
      by (cases r; simp add: deployExternalDns_def scope_def k_get_def ask_def bnd_def IsNotFound_def)+
    then show ?thesis by blast
  qed
qed

theorem external_dns_all_or_nothing_witness:
  "let es = events (deployExternalDns demo_services (Some Mgmt) :: (demo, unit, error option) go) (demo_state demo_world)
   in (EvCreate Mgmt (service_account ''default'' ''external-dns'') None \<in> set es \<and>
      EvCreate Mgmt (cluster_role ''external-dns'' ExternalDNSPolicyRules) None \<in> set es \<and>
      EvCreate Mgmt (cluster_role_binding ''external-dns-viewer'' ''external-dns'' (sa_subject ''external-dns'' ''default'')) None \<in> set es \<and>
      EvCreate Mgmt (external_dns_deployment (env_get demo_services (demo_state demo_world) CloudFlareDomainFilter)
        (env_get demo_services (demo_state demo_world) CloudFlareZoneIdFilter)
        (env_get demo_services (demo_state demo_world) CloudFlareApiToken)) None \<in> set es) \<or>
    (\<exists>r. r \<noteq> Some ENotFound \<and> es = [EvGet Mgmt KDeployment ''default'' ''external-dns'' r])"
  unfolding Let_def
proof (rule external_dns_all_or_nothing)
  let ?r = "deployExternalDns demo_services (Some Mgmt) :: (demo, unit, error option) go"
  have "outcome ?r (demo_state demo_world) = Next None" by code_simp
  then show "?r (demo_state demo_world) = (Next None, events ?r (demo_state demo_world), final ?r (demo_state demo_world))"
    by (simp add: run_defs prod_eq_iff)
qed

end
