(* ===== verification/Utils.thy ===== *)
theory Utils
  imports Services
begin

text \<open>
  \<^verbatim>\<open>controllers/utils.go\<close>.  \<open>addmap\<close> is given twice: on map values, as the other theories use it,
  and on references into a heap of maps, as Go runs it, where it writes into its first argument.
  The second refines the first and shows who sees the write.
\<close>

definition isNil :: "'a option \<Rightarrow> bool" where
  "isNil p = (p = None)"

definition entries :: "gomap \<Rightarrow> (string \<times> string) list" where
  "entries m = (case m of None \<Rightarrow> [] | Some xs \<Rightarrow> xs)"

definition addmap :: "gomap \<Rightarrow> gomap \<Rightarrow> gomap" where
  "addmap a b = (if isNil a then b
     else Some (fold (\<lambda>(k, v) m. AList.update k v m) (entries b) (entries a)))"

definition getLabelSelector :: "string \<Rightarrow> gomap" where
  "getLabelSelector i = Some [(''universe'', i)]"

fun stringInSlice :: "string \<Rightarrow> string list \<Rightarrow> bool" where
  "stringInSlice a [] = False"
| "stringInSlice a (b # bs) = (b = a \<or> stringInSlice a bs)"

lemma stringInSlice_iff [simp]: "stringInSlice a xs \<longleftrightarrow> a \<in> set xs"
  by (induction xs) auto

lemma fold_update_lookup:
  "distinct (map fst ys) \<Longrightarrow>
    map_of (fold (\<lambda>(k, v) m. AList.update k v m) ys xs) k = (case map_of ys k of Some v \<Rightarrow> Some v | None \<Rightarrow> map_of xs k)"
proof (induction ys arbitrary: xs)
  case (Cons y ys)
  obtain l v where y: "y = (l, v)" by (cases y)
  with Cons.prems have "map_of ys l = None" by (auto simp: map_of_eq_None_iff)
  with Cons y show ?case by (auto simp: update_conv' split: option.splits)
qed simp

lemma fold_update_distinct:
  "distinct (map fst xs) \<Longrightarrow> distinct (map fst (fold (\<lambda>(k, v) m. AList.update k v m) ys xs))"
  by (induction ys arbitrary: xs) (auto simp: distinct_update)

lemma mlookup_entries: "mlookup m k = map_of (entries m) k"
  by (simp add: mlookup_def entries_def split: option.split)

lemma addmap_lookup:
  "wf_gomap b \<Longrightarrow> mlookup (addmap a b) k = (case mlookup b k of Some v \<Rightarrow> Some v | None \<Rightarrow> mlookup a k)"
  by (cases a) (auto simp: addmap_def isNil_def mlookup_entries wf_gomap_def entries_def
      fold_update_lookup split: option.split)

lemma addmap_wf: "wf_gomap a \<Longrightarrow> wf_gomap b \<Longrightarrow> wf_gomap (addmap a b)"
  by (cases a) (auto simp: addmap_def isNil_def wf_gomap_def entries_def fold_update_distinct)

lemma addmap_universe [simp]: "mlookup (addmap m (getLabelSelector i)) ''universe'' = Some i"
  by (simp add: addmap_lookup getLabelSelector_def wf_gomap_def)

lemma addmap_other [simp]:
  "k \<noteq> ''universe'' \<Longrightarrow> mlookup (addmap m (getLabelSelector i)) k = mlookup m k"
  by (simp add: addmap_lookup getLabelSelector_def wf_gomap_def)

section \<open>The same on the heap\<close>

text \<open>A map variable is nil or a reference; a heap holds the contents of each reference.\<close>

type_synonym mapref = "nat option"
type_synonym mapheap = "nat \<Rightarrow> (string \<times> string) list"

definition deref :: "mapheap \<Rightarrow> mapref \<Rightarrow> gomap" where
  "deref h a = map_option h a"

text \<open>The loop's assignments, one by one, into the cell of \<open>a\<close>.\<close>

fun store_all :: "nat \<Rightarrow> (string \<times> string) list \<Rightarrow> mapheap \<Rightarrow> mapheap" where
  "store_all l [] h = h"
| "store_all l ((k, v) # kvs) h = store_all l kvs (h(l := AList.update k v (h l)))"

definition addmap_heap :: "mapref \<Rightarrow> mapref \<Rightarrow> mapheap \<Rightarrow> mapref \<times> mapheap" where
  "addmap_heap a b h = (case a of None \<Rightarrow> (b, h)
     | Some l \<Rightarrow> (a, store_all l (entries (deref h b)) h))"

lemma store_all_cell: "store_all l kvs h l = fold (\<lambda>(k, v) m. AList.update k v m) kvs (h l)"
  by (induction kvs arbitrary: h) auto

lemma store_all_other: "l' \<noteq> l \<Longrightarrow> store_all l kvs h l' = h l'"
  by (induction kvs arbitrary: h) auto

section \<open>Properties\<close>

text \<open>
  Merging two maps: a key of the second map takes the second map's value, any other key keeps
  the first map's.  In particular the label \<open>universe\<close> of everything the operator creates is the
  name of the Universe, whatever labels the template asks for.
\<close>

theorem addmap_merges:
  assumes "wf_gomap b"
  shows "mlookup (addmap a b) k = (case mlookup b k of Some v \<Rightarrow> Some v | None \<Rightarrow> mlookup a k) \<and>
    mlookup (addmap l (getLabelSelector u)) ''universe'' = Some u"
  using assms by (simp add: addmap_lookup)

theorem addmap_merges_witness:
  "mlookup (addmap (Some [(''app'', ''a''), (''tier'', ''x'')]) (Some [(''app'', ''b'')])) ''app'' =
     (case mlookup (Some [(''app'', ''b'')]) ''app'' of Some v \<Rightarrow> Some v
      | None \<Rightarrow> mlookup (Some [(''app'', ''a''), (''tier'', ''x'')]) ''app'') \<and>
   mlookup (addmap (Some [(''universe'', ''mine'')]) (getLabelSelector ''pr-1'')) ''universe'' = Some ''pr-1''"
  by (rule addmap_merges) (simp add: wf_gomap_def)

text \<open>
  C39. \<open>addmap\<close> as Go runs it computes the merge and changes nothing but its first argument's
  cell.  The map it returns is that very cell, so that every holder of the first argument sees the
  merged entries; when the first argument is nil it returns the second map itself, not a copy.
\<close>

theorem addmap_heap_refines:
  assumes "addmap_heap a b h = (c, h')"
  shows "deref h' c = addmap (deref h a) (deref h b) \<and>
    c = (if a = None then b else a) \<and>
    (\<forall>l. h' l = (if a = Some l then entries (deref h' c) else h l))"
  using assms
  by (auto simp: addmap_heap_def addmap_def isNil_def deref_def entries_def store_all_cell store_all_other
      split: option.splits)

text \<open>Two holders of one map: the merge through the first is seen by the second.\<close>

theorem addmap_heap_refines_witness:
  "let h = (\<lambda>l. if l = 0 then [(''app'', ''a'')] else [(''universe'', ''pr-1'')]);
       r = addmap_heap (Some 0) (Some 1) h
   in deref (snd r) (fst r) = addmap (deref h (Some 0)) (deref h (Some 1)) \<and>
      fst r = (if Some (0::nat) = None then Some 1 else Some 0) \<and>
      (\<forall>l. snd r l = (if Some 0 = Some l then entries (deref (snd r) (fst r)) else h l))"
  unfolding Let_def by (rule addmap_heap_refines) simp

end
