(* ===== verification/ClusterSetup.thy ===== *)
theory ClusterSetup
  imports Addons Utils
begin

text \<open>
  What the reconciliation of a Universe does in the clusters: the set-up of a cluster that runs
  (\<open>Reconcile\<close> of \<^verbatim>\<open>controllers/universe_controller.go\<close>, the second half of the loop over
  \<open>ContainerClusters\<close>) and \<open>ingressPatch\<close> with \<open>getHostName\<close>, the new host names of restored
  ingresses.
\<close>

section \<open>Host names\<close>

definition getHostName :: "string \<Rightarrow> string \<Rightarrow> string" where
  "getHostName host suffix =
     split_on CHR ''.'' host ! 0 @ ''-'' @ suffix @ ''.'' @ join_with ''.'' (drop 1 (split_on CHR ''.'' host))"

text \<open>
  The loop variable \<open>ing\<close> is a copy of the item, but its rules are the item's own slice: each
  update sends the ingress with the rules changed so far, and the rules still to come are read as
  they were.
\<close>

fun patch_rules ::
  "'w services \<Rightarrow> target \<Rightarrow> string \<Rightarrow> string \<Rightarrow> ingress \<Rightarrow> ingress_rule list \<Rightarrow> ingress_rule list \<Rightarrow>
     ('w, error option, unit) go" where
  "patch_rules S t namespace suffix ing front [] = ret ()"
| "patch_rules S t namespace suffix ing front (rule # back) =
     (let rule' = rule\<lparr>RuleHost := getHostName (RuleHost rule) suffix\<rparr> in
      try_do (ing_update S t namespace (ing\<lparr>IngressRules := front @ rule' # back\<rparr>)) Some
        (patch_rules S t namespace suffix ing (front @ [rule']) back))"

definition ingressPatch :: "'w services \<Rightarrow> rest_config option \<Rightarrow> string \<Rightarrow> string \<Rightarrow> ('w, 'r, error option) go" where
  "ingressPatch S externalRestConfig suffix namespace = scope (
     bnd (clientset_or_err (NewForConfig S externalRestConfig)) (\<lambda>clientset. case clientset of
       Inl err \<Rightarrow> return (Some err)
     | Inr t \<Rightarrow>
     bnd (ing_list S t namespace) (\<lambda>ingressList. case ingressList of
       Inl err \<Rightarrow> return (Some err)
     | Inr items \<Rightarrow>
         seq (foreach (\<lambda>ing _. patch_rules S t namespace suffix ing [] (IngressRules ing)) items ()) (return None))))"

section \<open>The set-up of a cluster\<close>

definition region :: string where
  "region = ''asia-southeast1''"

definition annotation :: "Universe \<Rightarrow> string \<Rightarrow> string" where
  "annotation u k = mget (Annotations u) (''multiverse.saga.dev/'' @ k)"

definition when_addon :: "Universe \<Rightarrow> string \<Rightarrow> ('w, 'r, error option) go \<Rightarrow> ('w, 'r, error option) go" where
  "when_addon u addon m = (if contains (annotation u ''cluster-addons'') addon then m else ret None)"

text \<open>Connect to a cluster, make the operator's account there and install Velero; errors are logged only.\<close>

definition prepareCluster ::
  "'w services \<Rightarrow> string \<Rightarrow> string \<Rightarrow> ('w, 'r, rest_config option \<times> clientset \<times> resource option) go" where
  "prepareCluster S projectID cluster =
     bnd (GetGKEClientsetWithTimeout S projectID cluster region) (\<lambda>(restConfig, err).
     bnd (new_clientset S restConfig) (\<lambda>clientSet.
     bnd (CreateClusterAdminToken S clientSet ''kube-system'' ''temp'') (\<lambda>(adminSecret, err).
     bnd (deployVelero S clientSet adminSecret restConfig) (\<lambda>_.
     ret (restConfig, clientSet, adminSecret)))))"

text \<open>The loop over the preview services.\<close>

definition annotatePreviewService :: "'w services \<Rightarrow> clientset \<Rightarrow> string \<Rightarrow> ('w, 'r, unit) go" where
  "annotatePreviewService S clientSet service =
     bnd (through clientSet (\<lambda>t. k_list S t KDeployment [] [])) (\<lambda>deploymentList.
     foreach (\<lambda>deploy _.
       if Name deploy = service then
         bnd (through clientSet (\<lambda>t. k_update S t
           (deploy\<lparr>Annotations := addmap (Annotations deploy) (Some [(''image-update'', ''true'')])\<rparr>))) (\<lambda>_. ret ())
       else ret ()) (case deploymentList of Inl err \<Rightarrow> [] | Inr items \<Rightarrow> items) ())"

definition setUpCluster :: "'w services \<Rightarrow> Universe \<Rightarrow> string \<Rightarrow> ('w, 'r, unit) go" where
  "setUpCluster S universe clusterName =
     bnd (prepareCluster S (ProjectID (uSpec universe)) (PrimaryCluster (uSpec universe))) (\<lambda>_.
     bnd (prepareCluster S (ProjectID (uSpec universe)) clusterName) (\<lambda>(targetRestConfig, targetClientSet, targetSecret).
     bnd (if annotation universe ''pr-admin'' \<noteq> []
          then CreateAdminUser S targetRestConfig (annotation universe ''pr-admin'') else ret None) (\<lambda>_.
     bnd (when_addon universe ''resource-patcher''
            (deployResourcePatcher S targetClientSet (Namespace universe) (annotation universe ''allow-tag'') ''gcr-sub'')) (\<lambda>_.
     bnd (when_addon universe ''external-dns'' (deployExternalDns S targetClientSet)) (\<lambda>_.
     bnd (when_addon universe ''nginx-ingress'' (deployNginxIngress S targetClientSet targetSecret targetRestConfig)) (\<lambda>_.
     bnd (when_addon universe ''external-secrets'' (deployExternalSecret S targetClientSet targetSecret targetRestConfig)) (\<lambda>_.
     foreach (\<lambda>service _. annotatePreviewService S targetClientSet service)
       (split_on CHR '','' (annotation universe ''preview-services'')) ())))))))"

section \<open>Lemmas\<close>

text \<open>A host name with a dot is its first label and the rest.\<close>

lemma getHostName_dot:
  "CHR ''.'' \<notin> set a \<Longrightarrow> getHostName (a @ CHR ''.'' # b) s = a @ ''-'' @ s @ ''.'' @ b"
  by (simp add: getHostName_def split_on_append_sep split_on_join)

lemma getHostName_no_dot: "CHR ''.'' \<notin> set a \<Longrightarrow> getHostName a s = a @ ''-'' @ s @ ''.''"
  by (simp add: getHostName_def split_on_no_sep)

lemma has_dot: "CHR ''.'' \<in> set h \<Longrightarrow> \<exists>a b. CHR ''.'' \<notin> set a \<and> h = a @ CHR ''.'' # b"
  using split_list_first by fastforce

lemma first_dot_unique:
  "a @ CHR ''.'' # b = a' @ CHR ''.'' # b' \<Longrightarrow> CHR ''.'' \<notin> set a \<Longrightarrow> CHR ''.'' \<notin> set a' \<Longrightarrow> a = a' \<and> b = b'"
  by (induction a arbitrary: a') (auto simp: Cons_eq_append_conv append_eq_Cons_conv)

definition patched :: "string \<Rightarrow> ingress_rule list \<Rightarrow> ingress_rule list" where
  "patched suffix rules = map (\<lambda>rule. rule\<lparr>RuleHost := getHostName (RuleHost rule) suffix\<rparr>) rules"

text \<open>The updates of one ingress: after each rule, the ingress with the rules so far patched.\<close>

definition rule_updates :: "target \<Rightarrow> string \<Rightarrow> string \<Rightarrow> ingress \<Rightarrow> event list" where
  "rule_updates t ns suffix ing = map (\<lambda>k. EvUpdateIngress t ns
     (ing\<lparr>IngressRules := patched suffix (take (Suc k) (IngressRules ing)) @ drop (Suc k) (IngressRules ing)\<rparr>) None)
     [0..<length (IngressRules ing)]"

lemma patch_rules_ok:
  "patch_rules S t ns suffix ing (patched suffix before) after s = (Next (), es, s') \<Longrightarrow>
    es = map (\<lambda>k. EvUpdateIngress t ns (ing\<lparr>IngressRules :=
       patched suffix (take (Suc k) (before @ after)) @ drop (Suc k) (before @ after)\<rparr>) None)
      [length before..<length before + length after]"
proof (induction after arbitrary: before s es)
  case (Cons rule after)
  let ?rule' = "rule\<lparr>RuleHost := getHostName (RuleHost rule) suffix\<rparr>"
  let ?ing = "ing\<lparr>IngressRules := patched suffix before @ ?rule' # after\<rparr>"
  have step: "patched suffix before @ [?rule'] = patched suffix (before @ [rule])"
    by (simp add: patched_def)
  obtain r w where r: "svc_update_ingress S t ns ?ing (world s) = (r, w)"
    by (cases "svc_update_ingress S t ns ?ing (world s)")
  with Cons.prems have none: "r = None"
    by (auto simp: try_do_def ing_update_def ask_def bnd_def Let_def split: option.splits)
  with Cons.prems r obtain es' where
    rest: "patch_rules S t ns suffix ing (patched suffix (before @ [rule])) after (s\<lparr>world := w\<rparr>) = (Next (), es', s')"
    and es: "es = EvUpdateIngress t ns ?ing None # es'"
    by (auto simp: try_do_def ing_update_def ask_def bnd_def Let_def step split: prod.splits)
  have one: "[length before..<length before + length (rule # after)] =
      length before # [length (before @ [rule])..<length (before @ [rule]) + length after]"
    using upt_conv_Cons [of "length before" "length before + length (rule # after)"] by (simp del: upt_Suc)
  have ing: "ing\<lparr>IngressRules := patched suffix (take (Suc (length before)) (before @ rule # after)) @
      drop (Suc (length before)) (before @ rule # after)\<rparr> = ?ing"
    by (simp add: patched_def)
  show ?case
    unfolding one es list.map ing Cons.IH [OF rest] append.assoc append_Cons append_Nil by (rule refl)
qed simp

lemma patch_ingress_ok:
  "patch_rules S t ns suffix ing [] (IngressRules ing) s = (Next (), es, s') \<Longrightarrow> es = rule_updates t ns suffix ing"
  using patch_rules_ok [of S t ns suffix ing "[]" "IngressRules ing" s es s'] by (simp add: patched_def rule_updates_def)

lemma patch_all_ok:
  "foreach (\<lambda>ing _. patch_rules S t ns suffix ing [] (IngressRules ing)) items () s = (Next u, es, s') \<Longrightarrow>
    es = concat (map (rule_updates t ns suffix) items)"
proof (induction items arbitrary: s es)
  case (Cons ing items)
  then obtain es1 s1 es2 where "patch_rules S t ns suffix ing [] (IngressRules ing) s = (Next (), es1, s1)"
    and "foreach (\<lambda>ing _. patch_rules S t ns suffix ing [] (IngressRules ing)) items () s1 = (Next u, es2, s')"
    and "es = es1 @ es2"
    by (auto simp: bnd_def split: prod.splits flow.splits)
  with Cons.IH patch_ingress_ok show ?case by auto
qed (simp add: ret_def)

lemma patch_rules_returns:
  "patch_rules S t ns suffix ing before after s = (Return r, es, s') \<Longrightarrow> r \<noteq> None"
  by (induction after arbitrary: before s es)
    (auto simp: try_do_def ing_update_def ask_def bnd_def Let_def split: prod.splits option.splits flow.splits)

lemma patch_all_returns:
  "foreach (\<lambda>ing _. patch_rules S t ns suffix ing [] (IngressRules ing)) items () s = (Return r, es, s') \<Longrightarrow> r \<noteq> None"
  by (induction items arbitrary: s es) (auto simp: bnd_def dest!: patch_rules_returns split: prod.splits flow.splits)

section \<open>Properties\<close>

text \<open>
  The new host name puts the suffix behind the first label and keeps the domain; for a suffix
  without a dot, hosts of different domains or labels stay different.  It is not idempotent: every
  application makes the name longer, so that an ingress that is patched again, as every
  reconciliation that reaches the restore does, moves to yet another host.
\<close>

theorem host_name_shape:
  "CHR ''.'' \<notin> set a \<Longrightarrow> getHostName (a @ CHR ''.'' # b) s = a @ ''-'' @ s @ ''.'' @ b \<and>
    (CHR ''.'' \<notin> set s \<longrightarrow> CHR ''.'' \<in> set h \<longrightarrow> CHR ''.'' \<in> set h' \<longrightarrow> getHostName h s = getHostName h' s \<longrightarrow> h = h') \<and>
    length (getHostName h s) \<ge> length h + length s + 1"
proof (intro conjI impI)
  assume "CHR ''.'' \<notin> set a"
  then show "getHostName (a @ CHR ''.'' # b) s = a @ ''-'' @ s @ ''.'' @ b" by (rule getHostName_dot)
next
  assume s: "CHR ''.'' \<notin> set s" and h: "CHR ''.'' \<in> set h" "CHR ''.'' \<in> set h'" and eq: "getHostName h s = getHostName h' s"
  obtain a b a' b' where ab: "CHR ''.'' \<notin> set a" "h = a @ CHR ''.'' # b" "CHR ''.'' \<notin> set a'" "h' = a' @ CHR ''.'' # b'"
    using has_dot [OF h(1)] has_dot [OF h(2)] by blast
  with eq have "(a @ ''-'' @ s) @ CHR ''.'' # b = (a' @ ''-'' @ s) @ CHR ''.'' # b'" by (simp add: getHostName_dot)
  then have "a @ ''-'' @ s = a' @ ''-'' @ s \<and> b = b'" by (rule first_dot_unique) (use ab s in auto)
  with ab show "h = h'" by simp
next
  show "length (getHostName h s) \<ge> length h + length s + 1"
  proof (cases "CHR ''.'' \<in> set h")
    case True
    from has_dot [OF this] show ?thesis by (auto simp: getHostName_dot)
  qed (simp add: getHostName_no_dot)
qed

theorem host_name_shape_witness:
  "getHostName ''shop.example.com'' ''pr-7'' = ''shop-pr-7.example.com'' \<and>
   getHostName (getHostName ''shop.example.com'' ''pr-7'') ''pr-7'' \<noteq> getHostName ''shop.example.com'' ''pr-7''"
proof
  from host_name_shape [of "''shop''" "''example.com''" "''pr-7''" "''''" "''''"]
  show "getHostName ''shop.example.com'' ''pr-7'' = ''shop-pr-7.example.com''" by simp
  show "getHostName (getHostName ''shop.example.com'' ''pr-7'') ''pr-7'' \<noteq> getHostName ''shop.example.com'' ''pr-7''"
    by code_simp
qed

text \<open>
  C38. A patch of the ingresses that succeeds lists the namespace's ingresses once and then sends,
  for each of them in order and for each of its rules, one update: the ingress with the rules up to
  that one moved to their new hosts.  The last update of an ingress carries all of them.
\<close>

theorem ingress_patch_updates:
  assumes "(ingressPatch S cfg suffix ns :: ('w, 'r, error option) go) s = (Next None, es, s')"
  shows "\<exists>t items w. NewForConfig S cfg = Some (Inr t) \<and> svc_list_ingresses S t ns (world s) = (Inr items, w) \<and>
    es = EvListIngresses t ns None # concat (map (rule_updates t ns suffix) items)"
proof -
  from assms obtain t items w es2 where cs: "NewForConfig S cfg = Some (Inr t)"
    and list: "svc_list_ingresses S t ns (world s) = (Inr items, w)"
    and rest: "\<exists>o2. (foreach (\<lambda>ing _. patch_rules S t ns suffix ing [] (IngressRules ing)) items ()
        :: ('w, error option, unit) go) (s\<lparr>world := w\<rparr>) = (o2, es2, s') \<and> (o2 = Next () \<or> o2 = Return None)"
    and es: "es = EvListIngresses t ns None # es2"
    by (auto simp: ingressPatch_def clientset_or_err_def scope_def seq_def ing_list_def ask_def bnd_def
        split: option.splits sum.splits prod.splits flow.splits)
  from rest have "es2 = concat (map (rule_updates t ns suffix) items)"
    using patch_all_returns patch_all_ok by blast
  with cs list es show ?thesis by blast
qed

definition demo_ingress :: ingress where
  "demo_ingress = \<lparr> IngressName = ''web'', IngressRules =
     [\<lparr> RuleHost = ''a.b'', RuleRest = VObj [] \<rparr>, \<lparr> RuleHost = ''c.d'', RuleRest = VObj [] \<rparr>] \<rparr>"

theorem ingress_patch_updates_witness:
  "let s = demo_state (demo_world\<lparr>dIngresses := [demo_ingress]\<rparr>);
       es = events (ingressPatch demo_services (Some demo_config) ''pr-7'' ''shop'' :: (demo, unit, error option) go) s
   in \<exists>t items w. NewForConfig demo_services (Some demo_config) = Some (Inr t) \<and>
        svc_list_ingresses demo_services t ''shop'' (world s) = (Inr items, w) \<and>
        es = EvListIngresses t ''shop'' None # concat (map (rule_updates t ''shop'' ''pr-7'') items)"
  unfolding Let_def
proof (rule ingress_patch_updates)
  let ?s = "demo_state (demo_world\<lparr>dIngresses := [demo_ingress]\<rparr>)"
  let ?r = "ingressPatch demo_services (Some demo_config) ''pr-7'' ''shop'' :: (demo, unit, error option) go"
  have "outcome ?r ?s = Next None" by code_simp
  then show "?r ?s = (Next None, events ?r ?s, final ?r ?s)" by (simp add: run_defs prod_eq_iff)
qed

text \<open>
  C27. A cluster that cannot be reached does not fail the reconciliation, it panics: when the connection
  to the primary cluster comes back with an error, for lack of credentials, at its deadline or from
  an unusable endpoint, the set-up of any cluster of the Universe ends in a panic, right after what the
  connection did; the error has been logged and the nil configuration is read through.
\<close>

theorem unreachable_primary_panics:
  assumes "outcome (GetGKEClientsetWithTimeout S (ProjectID (uSpec u)) (PrimaryCluster (uSpec u)) region :: ('w, 'r, _) go) s =
    Next (None, Some err)"
  shows "outcome (setUpCluster S u c :: ('w, 'r, unit) go) s = Panic ''nil config'' \<and>
    events (setUpCluster S u c :: ('w, 'r, unit) go) s =
      events (GetGKEClientsetWithTimeout S (ProjectID (uSpec u)) (PrimaryCluster (uSpec u)) region :: ('w, 'r, _) go) s"
proof -
  have client: "new_clientset S None = panic ''nil config''" by (simp add: new_clientset_def)
  have "outcome (panic p :: ('w, 'r, unit) go) t = Panic p \<and> events (panic p :: ('w, 'r, unit) go) t = []" for p t
    by (simp add: run_defs)
  then show ?thesis
    by (simp add: setUpCluster_def prepareCluster_def bnd_assoc client bnd_falls_through [OF assms])
qed

definition locked_demo :: "demo services" where
  "locked_demo = demo_services\<lparr>svc_credentials := (\<lambda>w. (Inl (EMsg ''no default credentials''), w))\<rparr>"

theorem unreachable_primary_panics_witness:
  "outcome (setUpCluster locked_demo zero_Universe ''shop-7'' :: (demo, unit, unit) go) (demo_state demo_world) = Panic ''nil config''"
proof -
  have "outcome (GetGKEClientsetWithTimeout locked_demo (ProjectID (uSpec zero_Universe)) (PrimaryCluster (uSpec zero_Universe)) region
      :: (demo, unit, rest_config option \<times> error option) go) (demo_state demo_world) = Next (None, Some (EMsg ''no default credentials''))"
    by code_simp
  from unreachable_primary_panics [OF this] show ?thesis by simp
qed

end
