(* ===== verification/Sync.thy ===== *)
theory Sync
  imports Utils Wait
begin

text \<open>
  \<^verbatim>\<open>controllers/sync.go\<close>: the status table of a Universe and the listing of the resources it
  owns.

  \<open>updateStatus\<close> changes the Universe it is given and writes its status; the write's error is
  dropped, and a write that succeeds overwrites the local Universe with the server's answer.  The
  model returns that local Universe beside Go's two results.
\<close>

definition is_entry :: "string \<Rightarrow> string \<Rightarrow> ResourceStatus \<Rightarrow> bool" where
  "is_entry resourceType name r = (Kind r = resourceType \<and> StatusName r = name)"

definition entry :: "string \<Rightarrow> string \<Rightarrow> string \<Rightarrow> ResourceStatus" where
  "entry resourceType name progress = \<lparr> Kind = resourceType, StatusName = name, Status = progress \<rparr>"

text \<open>The first loop: is there an entry for the resource?\<close>

fun resourceCreated :: "string \<Rightarrow> string \<Rightarrow> ResourceStatus list \<Rightarrow> nat \<Rightarrow> nat" where
  "resourceCreated k n [] c = c"
| "resourceCreated k n (r # rs) c = resourceCreated k n rs (if is_entry k n r then 1 else c)"

text \<open>The second loop: replace the first entry of the resource and leave the function.\<close>

fun replaceFirst :: "string \<Rightarrow> string \<Rightarrow> string \<Rightarrow> ResourceStatus list \<Rightarrow> ResourceStatus list option" where
  "replaceFirst k n p [] = None"
| "replaceFirst k n p (r # rs) =
     (if is_entry k n r then Some (entry k n p # rs) else map_option ((#) r) (replaceFirst k n p rs))"

definition setResources :: "ResourceStatus list \<Rightarrow> Universe \<Rightarrow> Universe" where
  "setResources rs u = u\<lparr>uStatus := (uStatus u)\<lparr>Resources := rs\<rparr>\<rparr>"

text \<open>\<open>reconciler.Status().Update(ctx, u)\<close> with its error dropped.\<close>

definition statusUpdate :: "'w services \<Rightarrow> Universe \<Rightarrow> ('w, 'r, Universe) go" where
  "statusUpdate S u = bnd (u_status S u) (\<lambda>r. ret (case r of Inl e \<Rightarrow> u | Inr u' \<Rightarrow> u'))"

definition updateStatus ::
  "'w services \<Rightarrow> string \<Rightarrow> Universe \<Rightarrow> string \<Rightarrow> string \<Rightarrow> ('w, 'r, error option \<times> bool \<times> Universe) go" where
  "updateStatus S resourceType u progress name = scope (
     let rs = Resources (uStatus u) in
     if rs = [] then
       bnd (statusUpdate S (setResources (rs @ [entry resourceType name progress]) u)) (\<lambda>u'.
       return (None, True, u'))
     else if resourceCreated resourceType name rs 0 = 0 then
       bnd (statusUpdate S (setResources (rs @ [entry resourceType name progress]) u)) (\<lambda>u'.
       return (None, True, u'))
     else (case replaceFirst resourceType name progress rs of
       Some rs' \<Rightarrow>
         bnd (statusUpdate S (setResources rs' u)) (\<lambda>u'.
         return (None, True, u'))
     | None \<Rightarrow> return (None, True, u)))"

text \<open>What it does to the table.\<close>

definition upsert :: "string \<Rightarrow> string \<Rightarrow> string \<Rightarrow> ResourceStatus list \<Rightarrow> ResourceStatus list" where
  "upsert k n p rs = (case replaceFirst k n p rs of Some rs' \<Rightarrow> rs' | None \<Rightarrow> rs @ [entry k n p])"

lemma resourceCreated_iff: "resourceCreated k n rs c = 0 \<longleftrightarrow> c = 0 \<and> list_all (\<lambda>r. \<not> is_entry k n r) rs"
  by (induction k n rs c rule: resourceCreated.induct) auto

lemma replaceFirst_None: "replaceFirst k n p rs = None \<longleftrightarrow> list_all (\<lambda>r. \<not> is_entry k n r) rs"
  by (induction rs) auto

lemma replaceFirst_Some: "replaceFirst k n p rs = Some rs' \<Longrightarrow> rs \<noteq> []"
  by (cases rs) auto

lemma scope_statusUpdate:
  "scope (bnd (statusUpdate S u) (\<lambda>u'. return (f u'))) = bnd (statusUpdate S u) (\<lambda>u'. ret (f u'))"
  by (simp add: statusUpdate_def u_status_def bnd_assoc scope_ask del: ret_apply return_apply)

text \<open>The three branches of the code come to one: write the table with the entry put in.\<close>

lemma updateStatus_upsert:
  "updateStatus S k u p n = bnd (statusUpdate S (setResources (upsert k n p (Resources (uStatus u))) u))
     (\<lambda>u'. ret (None, True, u'))"
proof (cases "replaceFirst k n p (Resources (uStatus u))")
  case None
  with replaceFirst_None [of k n p "Resources (uStatus u)"] have "list_all (\<lambda>r. \<not> is_entry k n r) (Resources (uStatus u))"
    by simp
  then have "resourceCreated k n (Resources (uStatus u)) 0 = 0" by (simp add: resourceCreated_iff)
  with None show ?thesis
    by (simp add: updateStatus_def upsert_def scope_statusUpdate Let_def)
next
  case (Some rs')
  then have "resourceCreated k n (Resources (uStatus u)) 0 \<noteq> 0"
    by (metis resourceCreated_iff replaceFirst_None option.distinct(1))
  with Some replaceFirst_Some [OF Some] show ?thesis
    by (simp add: updateStatus_def upsert_def scope_statusUpdate Let_def)
qed

lemma emits_statusUpdate [emits_intros]: "(\<And>v e. P (EvStatusUniverse v e)) \<Longrightarrow> emits P (statusUpdate S u)"
  by (auto simp: statusUpdate_def intro!: emits_intros)

lemma emits_updateStatus [emits_intros]: "(\<And>v e. P (EvStatusUniverse v e)) \<Longrightarrow> emits P (updateStatus S k u p n)"
  unfolding updateStatus_upsert by (intro emits_intros) simp

section \<open>The table as a map\<close>

text \<open>What a reader of the status finds for a kind and a name.\<close>

definition status_of :: "ResourceStatus list \<Rightarrow> string \<times> string \<Rightarrow> string option" where
  "status_of rs key = map_option Status (find (is_entry (fst key) (snd key)) rs)"

definition entry_key :: "ResourceStatus \<Rightarrow> string \<times> string" where
  "entry_key r = (Kind r, StatusName r)"

definition put_status :: "string \<times> string \<Rightarrow> string \<Rightarrow> ResourceStatus list \<Rightarrow> ResourceStatus list" where
  "put_status key p rs = upsert (fst key) (snd key) p rs"

lemma upsert_Cons:
  "upsert k n p (r # rs) = (if is_entry k n r then entry k n p # rs else r # upsert k n p rs)"
  by (simp add: upsert_def split: option.split)

lemma upsert_Nil: "upsert k n p [] = [entry k n p]"
  by (simp add: upsert_def)

lemma is_entry_entry: "is_entry k n (entry k' n' p) \<longleftrightarrow> k' = k \<and> n' = n"
  by (simp add: is_entry_def entry_def)

lemma status_of_upsert: "status_of (upsert k n p rs) = (status_of rs)((k, n) \<mapsto> p)"
proof (induction rs)
  case Nil
  show ?case by (rule ext) (auto simp: status_of_def upsert_Nil is_entry_def entry_def)
next
  case (Cons r rs)
  show ?case
  proof (rule ext)
    fix key
    show "status_of (upsert k n p (r # rs)) key = ((status_of (r # rs))((k, n) \<mapsto> p)) key"
      using fun_cong [OF Cons.IH, of key]
      by (cases key) (auto simp: status_of_def upsert_Cons is_entry_def entry_def)
  qed
qed

lemma keys_upsert:
  "map entry_key (upsert k n p rs) =
     map entry_key rs @ (if (k, n) \<in> set (map entry_key rs) then [] else [(k, n)])"
  by (induction rs) (auto simp: upsert_Cons upsert_Nil entry_key_def is_entry_def entry_def)

text \<open>
  The contract of a status table, and what follows for a run of updates: the reader finds the
  last status put for a key, or the one that was there.
\<close>

locale keyed_table =
  fixes put :: "'k \<Rightarrow> 'v \<Rightarrow> 't \<Rightarrow> 't"
    and look :: "'t \<Rightarrow> 'k \<Rightarrow> 'v option"
    and ks :: "'t \<Rightarrow> 'k list"
  assumes look_put: "look (put k v t) = (look t)(k \<mapsto> v)"
    and ks_put: "ks (put k v t) = ks t @ (if k \<in> set (ks t) then [] else [k])"
begin

definition puts :: "('k \<times> 'v) list \<Rightarrow> 't \<Rightarrow> 't" where
  "puts kvs t = fold (\<lambda>(k, v). put k v) kvs t"

lemma puts_Cons: "puts ((k, v) # kvs) t = puts kvs (put k v t)"
  by (simp add: puts_def)

lemma look_puts: "look (puts kvs t) = look t ++ map_of (rev kvs)"
proof (induction kvs arbitrary: t)
  case Nil
  show ?case by (simp add: puts_def)
next
  case (Cons kv kvs)
  obtain k v where kv: "kv = (k, v)" by (cases kv)
  show ?case
    by (rule ext) (auto simp: kv puts_Cons Cons.IH look_put map_add_def split: option.splits)
qed

lemma ks_put_distinct: "distinct (ks t) \<Longrightarrow> distinct (ks (put k v t))"
  by (simp add: ks_put)

lemma ks_puts_distinct: "distinct (ks t) \<Longrightarrow> distinct (ks (puts kvs t))"
  by (induction kvs arbitrary: t) (auto simp: puts_def intro: ks_put_distinct)

lemma ks_puts_keep: "\<exists>new. ks (puts kvs t) = ks t @ new \<and> set new \<subseteq> fst ` set kvs"
proof (induction kvs arbitrary: t)
  case (Cons kv kvs)
  obtain k v where kv: "kv = (k, v)" by (cases kv)
  from Cons.IH [of "put k v t"] obtain new where
    "ks (puts kvs (put k v t)) = ks (put k v t) @ new" "set new \<subseteq> fst ` set kvs" by blast
  then show ?case by (auto simp: kv puts_Cons ks_put)
qed (simp add: puts_def)

end

interpretation status_table: keyed_table put_status status_of "map entry_key"
  by unfold_locales (simp_all add: put_status_def status_of_upsert keys_upsert)

section \<open>The resources of a Universe\<close>

text \<open>
  The ten functions list one kind each, by label and in every namespace
  (\<open>client.MatchingLabelsSelector\<close> and no \<open>client.InNamespace\<close>), and return a nil list with the
  error.
\<close>

definition listForUniverse :: "'w services \<Rightarrow> kind \<Rightarrow> gomap \<Rightarrow> ('w, 'r, error + resource list) go" where
  "listForUniverse S k selector = k_list S Mgmt k [] (entries selector)"

definition getComputeNetworksForUniverse :: "'w services \<Rightarrow> gomap \<Rightarrow> ('w, 'r, error + resource list) go" where
  "getComputeNetworksForUniverse S selector = listForUniverse S KComputeNetwork selector"

definition getComputeSubNetworksForUniverse :: "'w services \<Rightarrow> gomap \<Rightarrow> ('w, 'r, error + resource list) go" where
  "getComputeSubNetworksForUniverse S selector = listForUniverse S KComputeSubnetwork selector"

definition getContainerClustersForUniverse :: "'w services \<Rightarrow> gomap \<Rightarrow> ('w, 'r, error + resource list) go" where
  "getContainerClustersForUniverse S selector = listForUniverse S KContainerCluster selector"

definition getContainerNodePoolsForUniverse :: "'w services \<Rightarrow> gomap \<Rightarrow> ('w, 'r, error + resource list) go" where
  "getContainerNodePoolsForUniverse S selector = listForUniverse S KContainerNodePool selector"

definition getSQLInstancesForUniverse :: "'w services \<Rightarrow> gomap \<Rightarrow> ('w, 'r, error + resource list) go" where
  "getSQLInstancesForUniverse S selector = listForUniverse S KSQLInstance selector"

definition getSQLDatabasesForUniverse :: "'w services \<Rightarrow> gomap \<Rightarrow> ('w, 'r, error + resource list) go" where
  "getSQLDatabasesForUniverse S selector = listForUniverse S KSQLDatabase selector"

definition getComputeRoutersForUniverse :: "'w services \<Rightarrow> gomap \<Rightarrow> ('w, 'r, error + resource list) go" where
  "getComputeRoutersForUniverse S selector = listForUniverse S KComputeRouter selector"

definition getComputeRouterNATsForUniverse :: "'w services \<Rightarrow> gomap \<Rightarrow> ('w, 'r, error + resource list) go" where
  "getComputeRouterNATsForUniverse S selector = listForUniverse S KComputeRouterNAT selector"

definition getStorageBucketsForUniverse :: "'w services \<Rightarrow> gomap \<Rightarrow> ('w, 'r, error + resource list) go" where
  "getStorageBucketsForUniverse S selector = listForUniverse S KStorageBucket selector"

definition getIAMServiceAccountsForUniverse :: "'w services \<Rightarrow> gomap \<Rightarrow> ('w, 'r, error + resource list) go" where
  "getIAMServiceAccountsForUniverse S selector = listForUniverse S KIAMServiceAccount selector"

lemmas list_defs = getComputeNetworksForUniverse_def getComputeSubNetworksForUniverse_def getContainerClustersForUniverse_def getContainerNodePoolsForUniverse_def getSQLInstancesForUniverse_def getSQLDatabasesForUniverse_def getComputeRoutersForUniverse_def getComputeRouterNATsForUniverse_def getStorageBucketsForUniverse_def getIAMServiceAccountsForUniverse_def

lemma emits_listForUniverse [emits_intros]:
  "(\<And>sel e. P (EvList Mgmt k [] sel e)) \<Longrightarrow> emits P (listForUniverse S k selector)"
  by (simp add: listForUniverse_def emits_intros)

section \<open>Properties\<close>

text \<open>
  C30. \<open>updateStatus\<close> puts one status: the table it writes to the API server maps its kind and name to
  the new status and every other key to what it was, keeps the order of the entries, appends the
  entry when the key is new, and has no duplicate key when the old table has none.
\<close>

theorem updateStatus_writes_table:
  fixes S :: "'w services" and u :: Universe and k n p :: string
  defines "rs \<equiv> Resources (uStatus u)" and "rs' \<equiv> upsert k n p (Resources (uStatus u))"
  shows "events (updateStatus S k u p n :: ('w, 'r, error option \<times> bool \<times> Universe) go) s =
      [EvStatusUniverse (setResources rs' u) (err_of (fst (svc_status_universe S (setResources rs' u) (world s))))] \<and>
    status_of rs' = (status_of rs)((k, n) \<mapsto> p) \<and>
    map entry_key rs' = map entry_key rs @ (if (k, n) \<in> set (map entry_key rs) then [] else [(k, n)])"
  unfolding rs_def rs'_def
  by (simp add: updateStatus_upsert statusUpdate_def u_status_def bnd_assoc events_ask status_of_upsert keys_upsert)
    (simp add: events_def)

end
