(* ===== verification/UniverseResources.thy ===== *)
theory UniverseResources
  imports ClusterSetup Sync
begin

text \<open>
  The ten sections of \<open>UniverseReconciler.Reconcile\<close> (\<^verbatim>\<open>controllers/universe_controller.go\<close>), one per
  kind of Config Connector resource, in the order of the code.

  A section goes over the templates of its kind.  It gets the object of a template; when it is not
  found it creates it, records \<open>Creating\<close> and returns from \<open>Reconcile\<close> with a requeue.  Otherwise it
  goes on, whatever else the get answered, with the found object, the zero object after another
  error: it writes the new specification when the Universe's generation has moved, waits for the
  resource in Google Cloud and records \<open>Healthy\<close>.  Then it lists the Universe's resources of the
  kind and deletes those that are no longer in the specification.

  \<open>create_new\<close>, \<open>needs_sync\<close>, \<open>set_status\<close>, \<open>update_found\<close> and \<open>prune\<close> are the statements the sections
  have in common; each section's own text is its definition, with the status strings, the fields it
  copies, the wait it calls and the lists it compares as they stand in the code, including where they
  belong to another kind.  \<open>Return\<close> of a section is \<open>return\<close> of \<open>Reconcile\<close>.
\<close>

record Result =
  Requeue :: bool
  RequeueAfter :: int

type_synonym answer = "Result \<times> error option"

definition no_requeue :: Result where
  "no_requeue = \<lparr> Requeue = False, RequeueAfter = 0 \<rparr>"

definition requeue :: Result where
  "requeue = \<lparr> Requeue = True, RequeueAfter = 0 \<rparr>"

definition new_resource :: "kind \<Rightarrow> Universe \<Rightarrow> TemplateSpec \<Rightarrow> gomap \<Rightarrow> resource" where
  "new_resource k u elem annotations = (zero_resource k)
     \<lparr>Name := Name elem, Namespace := Namespace elem, Annotations := annotations,
      Labels := addmap (Labels elem) (getLabelSelector (Name u)), rSpec := Spec elem\<rparr>"

text \<open>\<open>ctrl.SetControllerReference(universe, resource, r.Scheme)\<close>, its error dropped.\<close>

definition controlled :: "'w services \<Rightarrow> Universe \<Rightarrow> resource \<Rightarrow> resource" where
  "controlled S u x = x\<lparr>Controller := svc_set_controller_reference S ''Universe'' (Namespace u) (Name u) x\<rparr>"

text \<open>\<open>r.updateStatus\<close>, whose results are only logged.\<close>

definition set_status :: "'w services \<Rightarrow> string \<Rightarrow> Universe \<Rightarrow> string \<Rightarrow> string \<Rightarrow> ('w, 'r, Universe) go" where
  "set_status S resourceType u progress name =
     bnd (updateStatus S resourceType u progress name) (\<lambda>(err, b, u'). ret u')"

text \<open>\<open>status_name\<close> gives the name the status is recorded under, from the created object.\<close>

definition create_new ::
  "'w services \<Rightarrow> kind \<Rightarrow> string \<Rightarrow> Universe \<Rightarrow> TemplateSpec \<Rightarrow> gomap \<Rightarrow> (resource \<Rightarrow> string) \<Rightarrow> ('w, answer, 'a) go" where
  "create_new S k resourceType u elem annotations status_name =
     bnd (k_create S Mgmt (controlled S u (new_resource k u elem annotations))) (\<lambda>r. case r of
       Inl err \<Rightarrow> return (no_requeue, Some err)
     | Inr resource \<Rightarrow>
         bnd (set_status S resourceType u CreatingStatus (status_name resource)) (\<lambda>u'.
         return (requeue, None)))"

definition found_or_zero :: "kind \<Rightarrow> error + resource \<Rightarrow> resource" where
  "found_or_zero k r = (case r of Inl err \<Rightarrow> zero_resource k | Inr x \<Rightarrow> x)"

definition needs_sync :: "Universe \<Rightarrow> bool" where
  "needs_sync u = (ObservedGeneration (uStatus u) < Generation u \<and> ObservedGeneration (uStatus u) \<ge> 1)"

definition update_found :: "'w services \<Rightarrow> resource \<Rightarrow> ('w, 'r, resource) go" where
  "update_found S found = bnd (k_update S Mgmt found) (\<lambda>r. ret (case r of Inl err \<Rightarrow> found | Inr x \<Rightarrow> x))"

definition items_of :: "error + resource list \<Rightarrow> resource list" where
  "items_of l = (case l of Inl err \<Rightarrow> [] | Inr xs \<Rightarrow> xs)"

text \<open>
  \<open>Delete or scale to zero\<close>: when there are more objects (\<open>counted\<close>) than templates, delete those of
  \<open>existing\<close> whose name is none of \<open>inSpec\<close>.
\<close>

definition prune ::
  "'w services \<Rightarrow> resource list \<Rightarrow> TemplateSpec list \<Rightarrow> resource list \<Rightarrow> TemplateSpec list \<Rightarrow> ('w, 'r, unit) go" where
  "prune S counted templates existing inSpec =
     (if length templates < length counted then
        foreach (\<lambda>x _. if Name x \<in> set (map Name inSpec) then ret ()
                       else bnd (k_delete S Mgmt x) (\<lambda>_. ret ())) existing ()
      else ret ())"

definition sfield :: "resource \<Rightarrow> string \<Rightarrow> string" where
  "sfield x f = val_str (fget (rSpec x) f)"

section \<open>The sections\<close>

definition syncIAMServiceAccounts :: "'w services \<Rightarrow> TemplateSpec \<Rightarrow> Universe \<Rightarrow> ('w, answer, Universe) go" where
  "syncIAMServiceAccounts S elem u =
     bnd (k_get S Mgmt KIAMServiceAccount (Namespace elem) (Name elem)) (\<lambda>r.
     if IsNotFound (err_of r) then create_new S KIAMServiceAccount ''IAMServiceAccount'' u elem None Name
     else
       let found = found_or_zero KIAMServiceAccount r in
       bnd (if needs_sync u then
              bnd (set_status S ''IAMServiceAccount'' u ReconcilingStatus (Name elem)) (\<lambda>u.
              bnd (update_found S (found\<lparr>rSpec := fcopy_all [''Description'', ''Disabled'', ''DisplayName''] (Spec elem) (rSpec found)\<rparr>)) (\<lambda>_.
              ret u))
            else ret u) (\<lambda>u.
       set_status S ''IAMServiceAccount'' u RunningStatus (Name elem)))"

definition reconcileIAMServiceAccounts :: "'w services \<Rightarrow> Universe \<Rightarrow> ('w, answer, Universe) go" where
  "reconcileIAMServiceAccounts S u =
     bnd (foreach (syncIAMServiceAccounts S) (IAMServiceAccounts (uIAM (uSpec u))) u) (\<lambda>u.
     bnd (getIAMServiceAccountsForUniverse S (getLabelSelector (Name u))) (\<lambda>l.
     let saList = items_of l; templates = IAMServiceAccounts (uIAM (uSpec u)) in
     bnd (prune S saList templates saList templates) (\<lambda>_.
     ret u)))"

definition syncComputeNetworks :: "'w services \<Rightarrow> TemplateSpec \<Rightarrow> Universe \<Rightarrow> ('w, answer, Universe) go" where
  "syncComputeNetworks S elem u =
     bnd (k_get S Mgmt KComputeNetwork (Namespace elem) (Name elem)) (\<lambda>r.
     if IsNotFound (err_of r) then create_new S KComputeNetwork ''ComputeNetwork'' u elem None Name
     else
       let found = found_or_zero KComputeNetwork r in
       bnd (waitForComputeNetwork S (Namespace elem) (Name elem)) (\<lambda>err.
       bnd (if needs_sync u
            then update_found S (found\<lparr>rSpec := fcopy_all [''ResourceID'', ''Description''] (rSpec found) (Spec elem)\<rparr>)
            else ret found) (\<lambda>found.
       set_status S ''ComputeNetwork'' u RunningStatus (Name found))))"

definition reconcileComputeNetworks :: "'w services \<Rightarrow> Universe \<Rightarrow> ('w, answer, Universe \<times> resource list) go" where
  "reconcileComputeNetworks S u =
     bnd (foreach (syncComputeNetworks S) (ComputeNetworks (uCompute (uSpec u))) u) (\<lambda>u.
     bnd (getComputeNetworksForUniverse S (getLabelSelector (Name u))) (\<lambda>l.
     let nwList = items_of l; templates = ComputeNetworks (uCompute (uSpec u)) in
     bnd (prune S nwList templates nwList templates) (\<lambda>_.
     ret (u, nwList))))"

definition syncComputeSubnetworks :: "'w services \<Rightarrow> TemplateSpec \<Rightarrow> Universe \<Rightarrow> ('w, answer, Universe) go" where
  "syncComputeSubnetworks S elem u =
     bnd (k_get S Mgmt KComputeSubnetwork (Namespace elem) (Name elem)) (\<lambda>r.
     if IsNotFound (err_of r) then create_new S KComputeSubnetwork ''ComputeSubNetwork'' u elem None (\<lambda>_. Name elem)
     else
       let found = found_or_zero KComputeSubnetwork r in
       bnd (waitForComputeSubnetwork S (Namespace found) (Name found) (sfield found ''Region'')) (\<lambda>err.
       bnd (if needs_sync u
            then update_found S (found\<lparr>rSpec := fcopy_all [''ResourceID'', ''Description'', ''Purpose''] (rSpec found) (Spec elem)\<rparr>)
            else ret found) (\<lambda>found.
       set_status S ''ComputeSubNetwork'' u RunningStatus (Name found))))"

definition reconcileComputeSubnetworks :: "'w services \<Rightarrow> resource list \<Rightarrow> Universe \<Rightarrow> ('w, answer, Universe) go" where
  "reconcileComputeSubnetworks S nwList u =
     bnd (foreach (syncComputeSubnetworks S) (ComputeSubnetworks (uCompute (uSpec u))) u) (\<lambda>u.
     bnd (getComputeSubNetworksForUniverse S (getLabelSelector (Name u))) (\<lambda>l.
     let snwList = items_of l; templates = ComputeSubnetworks (uCompute (uSpec u)) in
     bnd (prune S snwList templates nwList templates) (\<lambda>_.
     ret u)))"

definition cluster_fields :: "string list" where
  "cluster_fields = [''AddonsConfig'', ''ClusterAutoscaling'', ''ClusterTelemetry'', ''DatabaseEncryption'',
     ''DatapathProvider'', ''DefaultSnatStatus'', ''EnableBinaryAuthorization'',
     ''EnableIntranodeVisibility'', ''EnableL4IlbSubsetting'', ''EnableLegacyAbac'',
     ''EnableShieldedNodes'', ''IdentityServiceConfig'', ''LoggingConfig'', ''LoggingService'',
     ''MaintenancePolicy'', ''MasterAuthorizedNetworksConfig'', ''MinMasterVersion'',
     ''MonitoringConfig'', ''MonitoringService'', ''NetworkPolicy'', ''NetworkRef'', ''NodeLocations'',
     ''NodeVersion'', ''NotificationConfig'', ''PrivateClusterConfig'', ''PrivateIpv6GoogleAccess'',
     ''ReleaseChannel'', ''ResourceUsageExportConfig'', ''SubnetworkRef'', ''VerticalPodAutoscaling'',
     ''WorkloadIdentityConfig'']"

definition syncContainerClusters :: "'w services \<Rightarrow> TemplateSpec \<Rightarrow> Universe \<Rightarrow> ('w, answer, Universe) go" where
  "syncContainerClusters S elem u =
     bnd (k_get S Mgmt KContainerCluster (Namespace elem) (Name elem)) (\<lambda>r.
     if IsNotFound (err_of r) then create_new S KContainerCluster ''ContainerCluster'' u elem (Annotations elem) (\<lambda>_. Name elem)
     else
       let found = found_or_zero KContainerCluster r in
       bnd (if needs_sync u then
              bnd (set_status S ''ContainerCluster'' u ReconcilingStatus (Name elem)) (\<lambda>u.
              bnd (update_found S (found\<lparr>rSpec := fcopy_all cluster_fields (Spec elem) (rSpec found),
                Annotations := addmap (Annotations found) (Annotations elem)\<rparr>)) (\<lambda>found.
              ret (u, found)))
            else ret (u, found)) (\<lambda>(u, found).
       bnd (waitForContainerCluster S (Namespace found) (Name found) (sfield found ''Location'')) (\<lambda>err.
       bnd (set_status S ''ContainerCluster'' u RunningStatus (Name found)) (\<lambda>u.
       bnd (setUpCluster S u (Name found)) (\<lambda>_.
       ret u)))))"

definition reconcileContainerClusters :: "'w services \<Rightarrow> Universe \<Rightarrow> ('w, answer, Universe) go" where
  "reconcileContainerClusters S u =
     bnd (foreach (syncContainerClusters S) (ContainerClusters (uContainer (uSpec u))) u) (\<lambda>u.
     bnd (getContainerClustersForUniverse S (getLabelSelector (Name u))) (\<lambda>l.
     let cList = items_of l; templates = ContainerClusters (uContainer (uSpec u)) in
     bnd (prune S cList templates cList templates) (\<lambda>_.
     ret u)))"

definition syncContainerNodePools :: "'w services \<Rightarrow> TemplateSpec \<Rightarrow> Universe \<Rightarrow> ('w, answer, Universe) go" where
  "syncContainerNodePools S elem u =
     bnd (k_get S Mgmt KContainerNodePool (Namespace elem) (Name elem)) (\<lambda>r.
     if IsNotFound (err_of r) then create_new S KContainerNodePool ''ContainerNodePool'' u elem (Annotations elem) (\<lambda>_. Name elem)
     else
       let found = found_or_zero KContainerNodePool r in
       bnd (if needs_sync u then
              bnd (set_status S ''ContainerNodePool'' u ReconcilingStatus (Name elem)) (\<lambda>u.
              bnd (update_found S (found\<lparr>rSpec := fcopy_all [''Autoscaling'', ''Management'', ''NodeCount'', ''NodeLocations'', ''UpgradeSettings'', ''Version''] (Spec elem) (rSpec found),
                Annotations := addmap (Annotations found) (Annotations elem)\<rparr>)) (\<lambda>found.
              ret (u, found)))
            else ret (u, found)) (\<lambda>(u, found).
       bnd (waitForContainerNodePool S (Namespace found) (Name found)
              (ref_name (fget (rSpec found) ''ClusterRef'')) (sfield found ''Location'')) (\<lambda>err.
       set_status S ''ContainerNodePool'' u RunningStatus (Name found))))"

definition reconcileContainerNodePools :: "'w services \<Rightarrow> Universe \<Rightarrow> ('w, answer, Universe) go" where
  "reconcileContainerNodePools S u =
     bnd (foreach (syncContainerNodePools S) (ContainerNodePools (uContainer (uSpec u))) u) (\<lambda>u.
     bnd (getContainerNodePoolsForUniverse S (getLabelSelector (Name u))) (\<lambda>l.
     let cNodePool = items_of l; templates = ContainerNodePools (uContainer (uSpec u)) in
     bnd (prune S cNodePool templates cNodePool templates) (\<lambda>_.
     ret u)))"

definition syncSQLInstances :: "'w services \<Rightarrow> TemplateSpec \<Rightarrow> Universe \<Rightarrow> ('w, answer, Universe) go" where
  "syncSQLInstances S elem u =
     bnd (k_get S Mgmt KSQLInstance (Namespace elem) (Name elem)) (\<lambda>r.
     if IsNotFound (err_of r) then create_new S KSQLInstance ''SQLInstance'' u elem None Name
     else
       let found = found_or_zero KSQLInstance r in
       bnd (if needs_sync u then
              bnd (set_status S ''SQLInstance'' u ReconcilingStatus (Name found)) (\<lambda>u.
              bnd (update_found S (found\<lparr>rSpec := fcopy_all [''EncryptionKMSCryptoKeyRef'', ''MasterInstanceRef'', ''ReplicaConfiguration'', ''Settings''] (Spec elem) (rSpec found),
                Annotations := addmap (Annotations found) (Annotations elem)\<rparr>)) (\<lambda>found.
              ret (u, found)))
            else ret (u, found)) (\<lambda>(u, found).
       bnd (waitForSQLInstance S (Namespace found) (Name found)) (\<lambda>err.
       set_status S ''SQLInstance'' u RunningStatus (Name found))))"

definition reconcileSQLInstances :: "'w services \<Rightarrow> Universe \<Rightarrow> ('w, answer, Universe \<times> resource list) go" where
  "reconcileSQLInstances S u =
     bnd (foreach (syncSQLInstances S) (SQLInstances (uSQL (uSpec u))) u) (\<lambda>u.
     bnd (getSQLInstancesForUniverse S (getLabelSelector (Name u))) (\<lambda>l.
     let sList = items_of l; templates = SQLInstances (uSQL (uSpec u)) in
     bnd (prune S sList templates sList templates) (\<lambda>_.
     ret (u, sList))))"

definition syncSQLDatabases :: "'w services \<Rightarrow> TemplateSpec \<Rightarrow> Universe \<Rightarrow> ('w, answer, Universe) go" where
  "syncSQLDatabases S elem u =
     bnd (k_get S Mgmt KSQLDatabase (Namespace elem) (Name elem)) (\<lambda>r.
     if IsNotFound (err_of r) then create_new S KSQLDatabase ''SQLDatabase'' u elem None (\<lambda>_. Name elem)
     else
       let found = found_or_zero KSQLDatabase r in
       bnd (if needs_sync u then
              bnd (set_status S ''SQLDatabase'' u ReconcilingStatus (Name elem)) (\<lambda>u.
              bnd (update_found S (found\<lparr>rSpec := fcopy_all [''Charset'', ''Collation''] (Spec elem) (rSpec found),
                Annotations := addmap (Annotations found) (Annotations elem)\<rparr>)) (\<lambda>found.
              ret (u, found)))
            else ret (u, found)) (\<lambda>(u, found).
       bnd (waitForSQLDatabase S (Namespace found) (Name found) (ref_name (fget (rSpec found) ''InstanceRef''))) (\<lambda>err.
       set_status S ''SQLDatabase'' u RunningStatus (Name found))))"

definition reconcileSQLDatabases :: "'w services \<Rightarrow> resource list \<Rightarrow> Universe \<Rightarrow> ('w, answer, Universe) go" where
  "reconcileSQLDatabases S sList u =
     bnd (foreach (syncSQLDatabases S) (SQLDatabases (uSQL (uSpec u))) u) (\<lambda>u.
     bnd (getSQLDatabasesForUniverse S (getLabelSelector (Name u))) (\<lambda>l.
     let dList = items_of l; templates = SQLDatabases (uSQL (uSpec u)) in
     bnd (prune S dList templates sList templates) (\<lambda>_.
     ret u)))"

definition syncComputeRouters :: "'w services \<Rightarrow> TemplateSpec \<Rightarrow> Universe \<Rightarrow> ('w, answer, Universe) go" where
  "syncComputeRouters S elem u =
     bnd (k_get S Mgmt KComputeRouter (Namespace elem) (Name elem)) (\<lambda>r.
     if IsNotFound (err_of r) then create_new S KComputeRouter ''ComputeRouter'' u elem None (\<lambda>_. Name elem)
     else
       let found = found_or_zero KComputeRouter r in
       bnd (if needs_sync u then
              bnd (set_status S ''ComputeRouter'' u ReconcilingStatus (Name found)) (\<lambda>u.
              bnd (update_found S (found\<lparr>rSpec := fcopy_all [''Bgp'', ''Description'', ''NetworkRef''] (Spec elem) (rSpec found)\<rparr>)) (\<lambda>found.
              ret (u, found)))
            else ret (u, found)) (\<lambda>(u, found).
       bnd (waitForComputeRouter S (Namespace found) (Name found) (sfield found ''Region'')) (\<lambda>err.
       set_status S ''ComputeRouter'' u RunningStatus (Name found))))"

definition reconcileComputeRouters :: "'w services \<Rightarrow> resource list \<Rightarrow> Universe \<Rightarrow> ('w, answer, Universe) go" where
  "reconcileComputeRouters S sList u =
     bnd (foreach (syncComputeRouters S) (ComputeRouters (uCompute (uSpec u))) u) (\<lambda>u.
     bnd (getComputeRoutersForUniverse S (getLabelSelector (Name u))) (\<lambda>l.
     let rList = items_of l; templates = ComputeRouters (uCompute (uSpec u)) in
     bnd (prune S rList templates sList templates) (\<lambda>_.
     ret u)))"

definition router_nat_fields :: "string list" where
  "router_nat_fields = [''DrainNatIps'', ''EnableDynamicPortAllocation'', ''EnableEndpointIndependentMapping'',
     ''IcmpIdleTimeoutSec'', ''LogConfig'', ''MinPortsPerVm'', ''NatIpAllocateOption'', ''NatIps'',
     ''RouterRef'', ''SourceSubnetworkIpRangesToNat'', ''Subnetwork'', ''TcpEstablishedIdleTimeoutSec'',
     ''TcpTransitoryIdleTimeoutSec'', ''UdpIdleTimeoutSec'']"

definition syncComputeRouterNATs :: "'w services \<Rightarrow> TemplateSpec \<Rightarrow> Universe \<Rightarrow> ('w, answer, Universe) go" where
  "syncComputeRouterNATs S elem u =
     bnd (k_get S Mgmt KComputeRouterNAT (Namespace elem) (Name elem)) (\<lambda>r.
     if IsNotFound (err_of r) then create_new S KComputeRouterNAT ''ComputeRouterNAT'' u elem None Name
     else
       let found = found_or_zero KComputeRouterNAT r in
       bnd (if needs_sync u then
              bnd (set_status S ''ComputeRouter'' u ReconcilingStatus (Name found)) (\<lambda>u.
              bnd (update_found S (found\<lparr>rSpec := fcopy_all router_nat_fields (Spec elem) (rSpec found)\<rparr>)) (\<lambda>found.
              ret (u, found)))
            else ret (u, found)) (\<lambda>(u, found).
       bnd (waitForComputeRouterNAT S (Namespace found) (Name found) (sfield found ''Region'')) (\<lambda>err.
       set_status S ''ComputeRouterNAT'' u RunningStatus (Name found))))"

definition reconcileComputeRouterNATs :: "'w services \<Rightarrow> Universe \<Rightarrow> ('w, answer, Universe) go" where
  "reconcileComputeRouterNATs S u =
     bnd (foreach (syncComputeRouterNATs S) (ComputeRouterNATs (uCompute (uSpec u))) u) (\<lambda>u.
     bnd (getComputeRouterNATsForUniverse S (getLabelSelector (Name u))) (\<lambda>l.
     let rNatList = items_of l; templates = ComputeRouterNATs (uCompute (uSpec u)) in
     bnd (prune S rNatList templates rNatList (ComputeRouters (uCompute (uSpec u)))) (\<lambda>_.
     ret u)))"

definition bucket_fields :: "string list" where
  "bucket_fields = [''BucketPolicyOnly'', ''Cors'', ''DefaultEventBasedHold'', ''Encryption'', ''LifecycleRule'',
     ''Logging'', ''PublicAccessPrevention'', ''RequesterPays'', ''RetentionPolicy'', ''StorageClass'',
     ''UniformBucketLevelAccess'', ''Versioning'', ''Website'']"

definition syncStorageBuckets :: "'w services \<Rightarrow> TemplateSpec \<Rightarrow> Universe \<Rightarrow> ('w, answer, Universe) go" where
  "syncStorageBuckets S elem u =
     bnd (k_get S Mgmt KStorageBucket (Namespace elem) (Name elem)) (\<lambda>r.
     if IsNotFound (err_of r) then create_new S KStorageBucket ''StorageBucket'' u elem None Name
     else
       let found = found_or_zero KStorageBucket r in
       bnd (if needs_sync u then
              bnd (set_status S ''StorageBucket'' u ReconcilingStatus (Name found)) (\<lambda>u.
              bnd (update_found S (found\<lparr>rSpec := fcopy_all bucket_fields (Spec elem) (rSpec found)\<rparr>)) (\<lambda>found.
              ret (u, found)))
            else ret (u, found)) (\<lambda>(u, found).
       bnd (waitForStorageBucket S (Name found)) (\<lambda>err.
       set_status S ''StorageBucket'' u RunningStatus (Name found))))"

definition reconcileStorageBuckets :: "'w services \<Rightarrow> Universe \<Rightarrow> ('w, answer, Universe) go" where
  "reconcileStorageBuckets S u =
     bnd (foreach (syncStorageBuckets S) (StorageBuckets (uStorage (uSpec u))) u) (\<lambda>u.
     bnd (getStorageBucketsForUniverse S (getLabelSelector (Name u))) (\<lambda>l.
     let rBList = items_of l; templates = StorageBuckets (uStorage (uSpec u)) in
     bnd (prune S rBList templates rBList templates) (\<lambda>_.
     ret u)))"

section \<open>What goes on without a create\<close>

text \<open>
  An event is quiet when it does not change what there is in the management cluster: no create
  there, no delete, and of the Universe itself only its status.
\<close>

definition quiet :: "event \<Rightarrow> bool" where
  "quiet e = (case e of EvCreate t x r \<Rightarrow> t \<noteq> Mgmt | EvDelete t k ns n r \<Rightarrow> False
     | EvCreateUniverse u r \<Rightarrow> False | EvUpdateUniverse u r \<Rightarrow> False | EvDeleteUniverse ns n r \<Rightarrow> False | _ \<Rightarrow> True)"

lemma quiet_simps [simp]:
  "quiet (EvCreate t x r) \<longleftrightarrow> t \<noteq> Mgmt" "quiet (EvGet t k ns n r)" "quiet (EvList t k ns sel r)"
  "quiet (EvUpdate t x r)" "\<not> quiet (EvDelete t k ns n r)" "quiet (EvStatusUniverse u r)"
  "quiet (EvGetUniverse ns n r)" "\<not> quiet (EvUpdateUniverse u r)" "\<not> quiet (EvDeleteUniverse ns n r)"
  "\<not> quiet (EvCreateUniverse u r)"
  "quiet (EvGcp a args r)" "quiet (EvCredentials r)" "quiet (EvNewService a r)" "quiet (EvSleep d)"
  "quiet (EvWriteFile p r)" "quiet (EvSetenv v val)" "quiet (EvHelmInit c ns r)" "quiet (EvHelmLocate url r)"
  "quiet (EvHelmLoad p r)" "quiet (EvHelmRun c ns rel vals r)" "quiet (EvListIngresses t ns r)"
  "quiet (EvUpdateIngress t ns i r)"
  by (simp_all add: quiet_def)

text \<open>It is far when, besides, it updates nothing in the management cluster but a Universe's status.\<close>

definition far :: "event \<Rightarrow> bool" where
  "far e = (case e of EvCreate t x r \<Rightarrow> t \<noteq> Mgmt | EvUpdate t x r \<Rightarrow> t \<noteq> Mgmt | EvDelete t k ns n r \<Rightarrow> False
     | EvCreateUniverse u r \<Rightarrow> False | EvUpdateUniverse u r \<Rightarrow> False | EvDeleteUniverse ns n r \<Rightarrow> False | _ \<Rightarrow> True)"

lemma far_simps [simp]:
  "far (EvCreate t x r) \<longleftrightarrow> t \<noteq> Mgmt" "far (EvGet t k ns n r)" "far (EvList t k ns sel r)"
  "far (EvUpdate t x r) \<longleftrightarrow> t \<noteq> Mgmt" "\<not> far (EvDelete t k ns n r)" "far (EvStatusUniverse u r)"
  "far (EvGetUniverse ns n r)" "\<not> far (EvUpdateUniverse u r)" "\<not> far (EvDeleteUniverse ns n r)"
  "\<not> far (EvCreateUniverse u r)"
  "far (EvGcp a args r)" "far (EvCredentials r)" "far (EvNewService a r)" "far (EvSleep d)"
  "far (EvWriteFile p r)" "far (EvSetenv v val)" "far (EvHelmInit c ns r)" "far (EvHelmLocate url r)"
  "far (EvHelmLoad p r)" "far (EvHelmRun c ns rel vals r)" "far (EvListIngresses t ns r)"
  "far (EvUpdateIngress t ns i r)"
  by (simp_all add: far_def)

text \<open>And it is distant when it leaves even that alone.\<close>

definition distant :: "event \<Rightarrow> bool" where
  "distant e = (case e of EvStatusUniverse u r \<Rightarrow> False | _ \<Rightarrow> far e)"

lemma distant_simps [simp]:
  "distant (EvCreate t x r) \<longleftrightarrow> t \<noteq> Mgmt" "distant (EvGet t k ns n r)" "distant (EvList t k ns sel r)"
  "distant (EvUpdate t x r) \<longleftrightarrow> t \<noteq> Mgmt" "\<not> distant (EvStatusUniverse u r)"
  "distant (EvGcp a args r)" "distant (EvCredentials r)" "distant (EvNewService a r)" "distant (EvSleep d)"
  "distant (EvWriteFile p r)" "distant (EvSetenv v val)" "distant (EvHelmInit c ns r)" "distant (EvHelmLocate url r)"
  "distant (EvHelmLoad p r)" "distant (EvHelmRun c ns rel vals r)" "distant (EvListIngresses t ns r)"
  "distant (EvUpdateIngress t ns i r)"
  by (simp_all add: distant_def)

lemma distant_far: "distant e \<Longrightarrow> far e"
  by (cases e) (simp_all add: distant_def)

lemma sat_distant_far: "sat distant V R m \<Longrightarrow> sat far V R m"
  by (erule sat_weaken) (simp_all add: distant_far)

text \<open>Sequencing with nothing to say of the value.\<close>

lemma sat_bnd_any: "sat P (\<lambda>_. True) R m \<Longrightarrow> (\<And>x. sat P V R (f x)) \<Longrightarrow> sat P V R (bnd m f)"
  by (rule sat_bnd)

lemmas sat_any = sat_bnd_any sat_ret sat_seq sat_if sat_case_sum sat_case_option sat_case_prod sat_foreach
  sat_Let sat_ask sat_through

text \<open>A call never returns from its caller.\<close>

lemma scope_no_return: "outcome (scope m) s \<noteq> Return r"
  by (auto simp: outcome_def scope_def split: prod.splits flow.splits)

lemma sat_scope_emits: "emits P (scope m) \<Longrightarrow> sat P (\<lambda>_. True) R (scope m)"
  by (simp add: sat_def emits_def events_scope scope_no_return)

definition remote :: "clientset \<Rightarrow> bool" where
  "remote cs = (cs \<noteq> Some Mgmt)"

lemma remote_target: "remote cs \<Longrightarrow> cs = Some t \<Longrightarrow> t \<noteq> Mgmt"
  by (auto simp: remote_def)

lemma sat_new_clientset_remote: "sat P remote R (new_clientset S cfg)"
  by (auto simp: new_clientset_def remote_def dest: client_remote intro!: sat_intros split: option.split sum.split)

lemma NewForConfig_remote: "NewForConfig S cfg = Some (Inr t) \<Longrightarrow> t \<noteq> Mgmt"
  by (auto dest: client_remote)

lemma distant_helm_login: "emits distant (helm_login S f sec cfg)"
  by (auto simp: helm_login_def login_front_def deref_or_panic_def Let_def intro!: emits_intros)

lemma distant_helm_install: "(\<And>e. emits distant (lf e)) \<Longrightarrow> emits distant (helm_install S c n ns url vals lf)"
  by (auto simp: helm_install_def intro!: emits_intros)

lemma distant_create_or_return: "t \<noteq> Mgmt \<Longrightarrow> emits distant k \<Longrightarrow> emits distant (create_or_return S t x k)"
  by (auto simp: create_or_return_def intro!: emits_intros)

lemma distant_addons:
  assumes "remote cs"
  shows "emits distant (CreateClusterAdminToken S cs ns n)"
    and "emits distant (deployVelero S cs sec cfg)"
    and "emits distant (deployNginxIngress S cs sec cfg)"
    and "emits distant (deployExternalSecret S cs sec cfg)"
    and "emits distant (deployResourcePatcher S cs p tag sub)"
    and "emits distant (deployExternalDns S cs)"
  using remote_target [OF assms]
  by (auto simp: CreateClusterAdminToken_def deployVelero_def velero_chart_def deployNginxIngress_def deployExternalSecret_def
      deployResourcePatcher_def deployExternalDns_def
      intro!: emits_intros distant_helm_login distant_helm_install distant_create_or_return)

lemma distant_admin_user: "emits distant (CreateAdminUser S cfg email)"
proof -
  have "emits distant (bnd (clientset_or_err (NewForConfig S cfg)) f)" if "\<And>e. emits distant (f (Inl e))"
    and "\<And>t. t \<noteq> Mgmt \<Longrightarrow> emits distant (f (Inr t))" for f :: "_ \<Rightarrow> ('w, error option, error option) go"
    using that NewForConfig_remote [of S cfg]
    by (cases "NewForConfig S cfg"; cases "the (NewForConfig S cfg)")
      (auto simp: clientset_or_err_def emits_def run_defs bnd_def)
  then show ?thesis
    unfolding CreateAdminUser_def by (rule emits_scope) (auto intro!: emits_intros)
qed

lemma distant_gke: "emits distant (GetGKEClientsetWithTimeout S p c l)"
  by (rule emits_gke) simp_all

lemma sat_distant_calls:
  "sat distant (\<lambda>_. True) R (CreateAdminUser S cfg email)"
  "sat distant (\<lambda>_. True) R (ret x)"
  "remote cs \<Longrightarrow> sat distant (\<lambda>_. True) R (CreateClusterAdminToken S cs ns n)"
  "remote cs \<Longrightarrow> sat distant (\<lambda>_. True) R (deployVelero S cs sec cfg)"
  "remote cs \<Longrightarrow> sat distant (\<lambda>_. True) R (deployNginxIngress S cs sec cfg)"
  "remote cs \<Longrightarrow> sat distant (\<lambda>_. True) R (deployExternalSecret S cs sec cfg)"
  "remote cs \<Longrightarrow> sat distant (\<lambda>_. True) R (deployResourcePatcher S cs p tag sub)"
  "remote cs \<Longrightarrow> sat distant (\<lambda>_. True) R (deployExternalDns S cs)"
  using distant_admin_user [of S cfg email] distant_addons [of cs]
  unfolding CreateAdminUser_def CreateClusterAdminToken_def deployVelero_def velero_chart_def deployNginxIngress_def
    deployExternalSecret_def deployResourcePatcher_def deployExternalDns_def
  by (auto intro!: sat_scope_emits sat_ret)

lemma sat_distant_gke: "sat distant (\<lambda>_. True) R (GetGKEClientsetWithTimeout S p c l)"
proof -
  have "emits distant (GetGKEClientset S ctx p c l)" for ctx
    by (auto simp: GetGKEClientset_def gke_probe_def dryRun_def dryRun_probe_def intro!: emits_intros)
  then have "sat distant (\<lambda>_. True) R (GetGKEClientset S ctx p c l)" for ctx
    unfolding GetGKEClientset_def by (rule sat_scope_emits)
  then show ?thesis
    by (auto simp: GetGKEClientsetWithTimeout_def WithTimeout_def intro!: sat_intros)
qed

lemma sat_prepare: "sat distant (\<lambda>(cfg, cs, sec). remote cs) R (prepareCluster S p c)"
  unfolding prepareCluster_def
  by (rule sat_bnd [OF sat_distant_gke], clarsimp, rule sat_bnd [OF sat_new_clientset_remote],
      rule sat_bnd [OF sat_distant_calls(3)], assumption, clarsimp, rule sat_bnd [OF sat_distant_calls(4)], assumption)
    (auto intro: sat_ret)

lemma sat_annotate: "remote cs \<Longrightarrow> sat distant (\<lambda>_. True) R (annotatePreviewService S cs srv)"
  unfolding annotatePreviewService_def k_list_def k_update_def by (intro sat_any) (simp_all add: remote_target)

lemma sat_when_addon: "sat P (\<lambda>_. True) R m \<Longrightarrow> sat P (\<lambda>_. True) R (when_addon u a m)"
  unfolding when_addon_def by (intro sat_any) simp_all

lemma distant_setUpCluster: "sat distant (\<lambda>_. True) R (setUpCluster S u c)"
  unfolding setUpCluster_def
  apply (rule sat_bnd [OF sat_prepare])
  apply (rule sat_bnd [OF sat_prepare])
  apply (erule case_prodE)+
  apply (rule sat_case_prod)+
  apply (rule sat_bnd_any, rule sat_if, rule sat_distant_calls, rule sat_distant_calls)
  apply (rule sat_bnd_any, rule sat_when_addon, rule sat_distant_calls, simp)+
  apply (rule sat_foreach, simp, rule sat_annotate, simp)
  done

lemma distant_waitFor: "emits distant f \<Longrightarrow> sat distant (\<lambda>_. True) R (waitFor S f)"
  unfolding waitFor_def WithTimeout_def Wait_def WaitWithBackoff_def emits_sat
  by (intro sat_bnd [OF sat_bnd [OF sat_now]] sat_ret sat_WaitWithBackoffWithRetries) simp_all

lemma distant_waits:
  "sat distant (\<lambda>_. True) R (waitForContainerCluster S p n l)"
  "sat distant (\<lambda>_. True) R (waitForContainerNodePool S p n c l)"
  "sat distant (\<lambda>_. True) R (waitForComputeNetwork S p n)"
  "sat distant (\<lambda>_. True) R (waitForComputeSubnetwork S p n l)"
  "sat distant (\<lambda>_. True) R (waitForSQLInstance S p n)"
  "sat distant (\<lambda>_. True) R (waitForSQLDatabase S p n i)"
  "sat distant (\<lambda>_. True) R (waitForComputeRouter S p n l)"
  "sat distant (\<lambda>_. True) R (waitForComputeRouterNAT S p n l)"
  "sat distant (\<lambda>_. True) R (waitForStorageBucket S n)"
  unfolding wait_defs
  by (rule distant_waitFor, rule emits_status_probe, rule emits_gcp_status, simp_all)+

lemmas far_waits = distant_waits [THEN sat_distant_far]
lemmas far_setUpCluster = distant_setUpCluster [THEN sat_distant_far]
lemmas sat_far_gke = sat_distant_gke [THEN sat_distant_far]
lemmas sat_far_calls = sat_distant_calls [THEN sat_distant_far]

lemma far_updateStatus: "sat far (\<lambda>_. True) R (updateStatus S k u p n)"
  unfolding updateStatus_upsert statusUpdate_def u_status_def
  by (intro sat_any) simp_all

lemma far_set_status: "sat far (\<lambda>_. True) R (set_status S k u p n)"
  unfolding set_status_def by (rule sat_bnd [OF far_updateStatus]) (auto intro: sat_ret)

lemma sat_update_found: "sat quiet (\<lambda>_. True) R (update_found S x)"
  unfolding update_found_def k_update_def by (intro sat_any) simp_all

lemma far_quiet: "far e \<Longrightarrow> quiet e"
  by (cases e) (simp_all add: far_def quiet_def)

lemma sat_far_quiet: "sat far V R m \<Longrightarrow> sat quiet V R m"
  by (erule sat_weaken) (simp_all add: far_quiet)

lemmas sat_setUpCluster = far_setUpCluster [THEN sat_far_quiet]
lemmas sat_updateStatus = far_updateStatus [THEN sat_far_quiet]
lemmas sat_set_status = far_set_status [THEN sat_far_quiet]
lemmas sat_waits = far_waits [THEN sat_far_quiet]
lemmas sat_quiet_gke = sat_far_gke [THEN sat_far_quiet]
lemmas sat_quiet_calls = sat_far_calls [THEN sat_far_quiet]

lemma sat_waitFor: "emits quiet f \<Longrightarrow> sat quiet (\<lambda>_. True) R (waitFor S f)"
  unfolding waitFor_def WithTimeout_def Wait_def WaitWithBackoff_def emits_sat
  by (intro sat_bnd [OF sat_bnd [OF sat_now]] sat_ret sat_WaitWithBackoffWithRetries) simp_all

lemmas sat_section = sat_set_status sat_update_found sat_waits sat_setUpCluster

end
