(* ===== verification/UniverseSections.thy ===== *)
theory UniverseSections
  imports UniverseResources
begin

text \<open>
  The contract the ten sections share, and what it gives for a run of all of them.

  The locale \<open>resource_section\<close> states what a section does with one template: when the object is not
  found it creates it and returns from \<open>Reconcile\<close>, otherwise it only goes on.  The loop over the
  templates is worked out once, inside the locale; the ten interpretations are at the end.
  \<open>in_order\<close> is the triple for a run of sections: what it falls through with, and in which state of
  the templates it returns.
\<close>

section \<open>The Universe a status update answers with\<close>

text \<open>
  The status subresource: the API server answers a status update with the object as it is stored,
  so that the name and the specification are those of the object sent, whose version it checks.
\<close>

definition same_universe_spec :: "Universe \<Rightarrow> Universe \<Rightarrow> bool" where
  "same_universe_spec u v = (Name v = Name u \<and> Namespace v = Namespace u \<and> uSpec v = uSpec u)"

definition status_keeps :: "'w services \<Rightarrow> bool" where
  "status_keeps S = (\<forall>v w v'. fst (svc_status_universe S v w) = Inr v' \<longrightarrow> same_universe_spec v v')"

definition keeps :: "'w services \<Rightarrow> Universe \<Rightarrow> Universe \<Rightarrow> bool" where
  "keeps S u v = (status_keeps S \<longrightarrow> same_universe_spec u v)"

lemma keeps_refl [simp]: "keeps S u u"
  by (simp add: keeps_def same_universe_spec_def)

lemma keeps_trans: "keeps S u v \<Longrightarrow> keeps S v v' \<Longrightarrow> keeps S u v'"
  by (simp add: keeps_def same_universe_spec_def)

lemma same_set_status:
  "Name (setResources rs u) = Name u" "Namespace (setResources rs u) = Namespace u"
  "uSpec (setResources rs u) = uSpec u"
  by (simp_all add: setResources_def)

lemma sat_set_status_keeps: "sat quiet (keeps S u) R (set_status S k u p n)"
proof -
  have "sat quiet (\<lambda>r. keeps S u (case r of Inl e \<Rightarrow> setResources rs u | Inr u' \<Rightarrow> u')) R (u_status S (setResources rs u))" for rs
    unfolding u_status_def
  proof (rule sat_ask_value)
    fix x w w'
    assume x: "svc_status_universe S (setResources rs u) w = (x, w')"
    have "keeps S u (case x of Inl e \<Rightarrow> setResources rs u | Inr u' \<Rightarrow> u')"
    proof (cases x)
      case (Inr v)
      with x have "fst (svc_status_universe S (setResources rs u) w) = Inr v" by simp
      then have "status_keeps S \<longrightarrow> same_universe_spec (setResources rs u) v" unfolding status_keeps_def by blast
      with Inr show ?thesis by (simp add: keeps_def same_universe_spec_def same_set_status)
    qed (simp add: keeps_def same_universe_spec_def same_set_status)
    then show "quiet (EvStatusUniverse (setResources rs u) (err_of x)) \<and>
        keeps S u (case x of Inl e \<Rightarrow> setResources rs u | Inr u' \<Rightarrow> u')" by simp
  qed
  then show ?thesis
    unfolding set_status_def updateStatus_upsert statusUpdate_def bnd_assoc bnd_ret_left
    by (auto intro!: sat_bnd sat_ret)
qed

section \<open>The contract\<close>

text \<open>The templates of a kind, and the objects of a kind a run has seen in place.\<close>

fun templates :: "kind \<Rightarrow> UniverseSpec \<Rightarrow> TemplateSpec list" where
  "templates KIAMServiceAccount sp = IAMServiceAccounts (uIAM sp)"
| "templates KComputeNetwork sp = ComputeNetworks (uCompute sp)"
| "templates KComputeSubnetwork sp = ComputeSubnetworks (uCompute sp)"
| "templates KContainerCluster sp = ContainerClusters (uContainer sp)"
| "templates KContainerNodePool sp = ContainerNodePools (uContainer sp)"
| "templates KSQLInstance sp = SQLInstances (uSQL sp)"
| "templates KSQLDatabase sp = SQLDatabases (uSQL sp)"
| "templates KComputeRouter sp = ComputeRouters (uCompute sp)"
| "templates KComputeRouterNAT sp = ComputeRouterNATs (uCompute sp)"
| "templates KStorageBucket sp = StorageBuckets (uStorage sp)"
| "templates _ sp = []"

definition seen :: "kind \<Rightarrow> TemplateSpec list \<Rightarrow> event list \<Rightarrow> bool" where
  "seen k ts es = list_all (\<lambda>e. \<exists>r. r \<noteq> Some ENotFound \<and> EvGet Mgmt k (Namespace e) (Name e) r \<in> set es) ts"

lemma seen_append [simp]: "seen k ts xs \<Longrightarrow> seen k ts (xs @ ys)" "seen k ts ys \<Longrightarrow> seen k ts (xs @ ys)"
  by (auto simp: seen_def list_all_iff)

lemma seen_Cons: "seen k (e # ts) es \<longleftrightarrow> seen k [e] es \<and> seen k ts es"
  by (simp add: seen_def)

text \<open>
  The one create of a reconciliation, from its get to its end: what is sent for template \<open>e\<close> and
  what \<open>Reconcile\<close> returns.
\<close>

definition creation :: "'w services \<Rightarrow> kind \<Rightarrow> TemplateSpec \<Rightarrow> Universe \<Rightarrow> event list \<Rightarrow> answer \<Rightarrow> bool" where
  "creation S k e u es r = (\<exists>u' ann c. let x = controlled S u' (new_resource k u' e ann) in
     keeps S u u' \<and> (ann = None \<or> ann = Annotations e) \<and>
     (case c of
        Some err \<Rightarrow> es = [asked_for Mgmt x, EvCreate Mgmt x (Some err)] \<and> r = (no_requeue, Some err)
      | None \<Rightarrow> (\<exists>v q. es = [asked_for Mgmt x, EvCreate Mgmt x None, EvStatusUniverse v q]) \<and> r = (requeue, None)))"

lemma creationI:
  fixes S u k e ann
  defines "x \<equiv> controlled S u (new_resource k u e ann)"
  assumes "ann = None \<or> ann = Annotations e"
  shows "creation S k e u [asked_for Mgmt x, EvCreate Mgmt x (Some err)] (no_requeue, Some err)"
    and "creation S k e u [asked_for Mgmt x, EvCreate Mgmt x None, EvStatusUniverse v q] (requeue, None)"
  unfolding creation_def Let_def x_def
  by (rule exI [of _ u], rule exI [of _ ann], rule exI [of _ "Some err"], use assms in simp,
      rule exI [of _ u], rule exI [of _ ann], rule exI [of _ None], use assms in simp)

lemma creation_keeps: "keeps S u v \<Longrightarrow> creation S k e v es r \<Longrightarrow> creation S k e u es r"
  unfolding creation_def Let_def using keeps_trans by blast

lemma new_resource_keys [simp]:
  "rKind (controlled S u (new_resource k u' e ann)) = k"
  "Namespace (controlled S u (new_resource k u' e ann)) = Namespace e"
  "Name (controlled S u (new_resource k u' e ann)) = Name e"
  "Labels (controlled S u (new_resource k u' e ann)) = addmap (Labels e) (getLabelSelector (Name u'))"
  "Annotations (controlled S u (new_resource k u' e ann)) = ann"
  "rSpec (controlled S u (new_resource k u' e ann)) = Spec e"
  by (simp_all add: controlled_def new_resource_def zero_resource_def)

locale resource_section =
  fixes S :: "'w services" and k :: kind and ann :: "TemplateSpec \<Rightarrow> gomap"
    and sync :: "TemplateSpec \<Rightarrow> Universe \<Rightarrow> ('w, answer, Universe) go"
  assumes missing: "svc_get S Mgmt k (Namespace e) (Name e) (world s) = (Inl ENotFound, w) \<Longrightarrow>
      \<exists>rt sn. sync e u s = bnd (k_get S Mgmt k (Namespace e) (Name e)) (\<lambda>_. create_new S k rt u e (ann e) sn) s"
    and present: "svc_get S Mgmt k (Namespace e) (Name e) (world s) = (r, w) \<Longrightarrow> r \<noteq> Inl ENotFound \<Longrightarrow>
      \<exists>es. events (sync e u) s = EvGet Mgmt k (Namespace e) (Name e) (err_of r) # es \<and> list_all quiet es \<and>
        (\<forall>a. outcome (sync e u) s \<noteq> Return a) \<and> (\<forall>u'. outcome (sync e u) s = Next u' \<longrightarrow> keeps S u u')"
    and annotations: "ann e = None \<or> ann e = Annotations e"
begin

lemma create_new_run:
  "\<exists>r es s'. (create_new S k rt u e (ann e) sn :: ('w, answer, Universe) go) s = (Return r, es, s') \<and>
    creation S k e u (EvGet Mgmt k (Namespace e) (Name e) (Some ENotFound) # es) r"
proof -
  let ?x = "controlled S u (new_resource k u e (ann e))"
  obtain c w where c: "svc_create S Mgmt ?x (world s) = (c, w)" by (cases "svc_create S Mgmt ?x (world s)")
  have ask: "EvGet Mgmt k (Namespace e) (Name e) (Some ENotFound) = asked_for Mgmt ?x"
    by (simp add: asked_for_def)
  show ?thesis
  proof (cases c)
    case (Inl err)
    with c have "(create_new S k rt u e (ann e) sn :: ('w, answer, Universe) go) s =
        (Return (no_requeue, Some err), [EvCreate Mgmt ?x (Some err)], s\<lparr>world := w\<rparr>)"
      by (simp add: create_new_def k_create_def ask_def bnd_def)
    then show ?thesis
      unfolding ask using creationI(1) [OF annotations [of e], of S k u err] by blast
  next
    case (Inr y)
    with c have "(create_new S k rt u e (ann e) sn :: ('w, answer, Universe) go) s =
        (Return (requeue, None), [EvCreate Mgmt ?x None, EvStatusUniverse
          (setResources (upsert rt (sn y) CreatingStatus (Resources (uStatus u))) u)
          (err_of (fst (svc_status_universe S (setResources (upsert rt (sn y) CreatingStatus (Resources (uStatus u))) u) w)))],
         s\<lparr>world := snd (svc_status_universe S (setResources (upsert rt (sn y) CreatingStatus (Resources (uStatus u))) u) w)\<rparr>)"
      by (simp add: create_new_def k_create_def set_status_def updateStatus_upsert statusUpdate_def u_status_def
          ask_def bnd_def split: prod.split)
    then show ?thesis
      unfolding ask using creationI(2) [OF annotations [of e]] by blast
  qed
qed

text \<open>One template: the two ways it can go.\<close>

lemma sync_cases:
  obtains (creates) r where "outcome (sync e u) s = Return r" and "creation S k e u (events (sync e u) s) r"
  | (goes_on) q es where "q \<noteq> Some ENotFound" and "events (sync e u) s = EvGet Mgmt k (Namespace e) (Name e) q # es"
      and "list_all quiet es" and "\<And>a. outcome (sync e u) s \<noteq> Return a"
      and "\<And>u'. outcome (sync e u) s = Next u' \<Longrightarrow> keeps S u u'"
proof -
  obtain r w where r: "svc_get S Mgmt k (Namespace e) (Name e) (world s) = (r, w)"
    by (cases "svc_get S Mgmt k (Namespace e) (Name e) (world s)")
  show thesis
  proof (cases "r = Inl ENotFound")
    case True
    with missing [of e s w u] r obtain rt sn where
      "sync e u s = bnd (k_get S Mgmt k (Namespace e) (Name e)) (\<lambda>_. create_new S k rt u e (ann e) sn) s" by auto
    moreover obtain a es s' where
      "(create_new S k rt u e (ann e) sn :: ('w, answer, Universe) go) (s\<lparr>world := w\<rparr>) = (Return a, es, s')"
      and "creation S k e u (EvGet Mgmt k (Namespace e) (Name e) (Some ENotFound) # es) a"
      using create_new_run by blast
    ultimately show thesis using r True creates
      by (simp add: outcome_def events_def k_get_def ask_def bnd_def)
  next
    case False
    have "err_of r \<noteq> Some ENotFound" using False by (cases r) auto
    with present [OF r False, of u] goes_on show thesis by blast
  qed
qed

text \<open>The loop over the templates.\<close>

lemma loop_cases:
  fixes s :: "'w st"
  obtains (creates) before e after pre post r where "ts = before @ e # after"
      and "outcome (foreach sync ts u) s = Return r" and "events (foreach sync ts u) s = pre @ post"
      and "list_all quiet pre" and "seen k before pre" and "creation S k e u post r"
  | (goes_on) "list_all quiet (events (foreach sync ts u) s)" and "\<And>a. outcome (foreach sync ts u) s \<noteq> Return a"
      and "\<And>u'. outcome (foreach sync ts u) s = Next u' \<Longrightarrow> keeps S u u' \<and> seen k ts (events (foreach sync ts u) s)"
proof (induction ts arbitrary: u s thesis)
  case Nil
  show ?case by (rule Nil.prems(2)) (auto simp: outcome_def events_def seen_def)
next
  case (Cons e ts)
  obtain o1 es1 s1 where one: "sync e u s = (o1, es1, s1)" by (cases "sync e u s") auto
  show ?case
  proof (cases rule: sync_cases [of e u s])
    case (creates r)
    show ?thesis
      by (rule Cons.prems(1) [of "[]" e ts r "[]" "events (sync e u) s"])
        (use creates one in \<open>auto simp: outcome_def events_def bnd_def seen_def\<close>)
  next
    case (goes_on q es)
    then have es1: "es1 = EvGet Mgmt k (Namespace e) (Name e) q # es" and quiet1: "list_all quiet es1"
      using one by (auto simp: events_def)
    have seen1: "seen k [e] es1" using goes_on(1) es1 by (auto simp: seen_def)
    show ?thesis
    proof (cases o1)
      case (Next u1)
      have k1: "keeps S u u1" using goes_on(5) one Next by (simp add: outcome_def)
      have run: "foreach sync (e # ts) u s = (case foreach sync ts u1 s1 of (o2, es2, s2) \<Rightarrow> (o2, es1 @ es2, s2))"
        using one Next by (simp add: bnd_Next)
      then have out: "outcome (foreach sync (e # ts) u) s = outcome (foreach sync ts u1) s1"
        and evs: "events (foreach sync (e # ts) u) s = es1 @ events (foreach sync ts u1) s1"
        by (simp_all add: outcome_def events_def split: prod.split)
      show ?thesis
      proof (rule Cons.IH [of u1 s1])
        fix before e' after pre post r
        assume "ts = before @ e' # after" "outcome (foreach sync ts u1) s1 = Return r"
          "events (foreach sync ts u1) s1 = pre @ post" "list_all quiet pre" "seen k before pre" "creation S k e' u1 post r"
        moreover from this have "seen k (e # before) (es1 @ pre)"
          using seen1 by (auto simp: seen_def list_all_iff)
        ultimately show thesis
          using Cons.prems(1) [of "e # before" e' after r "es1 @ pre" post] out evs quiet1 creation_keeps [OF k1]
          by simp
      next
        assume "list_all quiet (events (foreach sync ts u1) s1)" "\<And>a. outcome (foreach sync ts u1) s1 \<noteq> Return a"
          "\<And>u'. outcome (foreach sync ts u1) s1 = Next u' \<Longrightarrow> keeps S u1 u' \<and> seen k ts (events (foreach sync ts u1) s1)"
        then show thesis
          using Cons.prems(2) out evs quiet1 seen1 keeps_trans [OF k1] seen_Cons [of k e ts]
          by (simp only: out evs list_all_append) (metis seen_append)
      qed
    next
      case (Return a)
      with goes_on(4) [of a] one show ?thesis by (simp add: outcome_def)
    next
      case (Panic p)
      show ?thesis
        by (rule Cons.prems(2)) (use one Panic quiet1 in \<open>auto simp: outcome_def events_def bnd_def\<close>)
    next
      case Hang
      show ?thesis
        by (rule Cons.prems(2)) (use one Hang quiet1 in \<open>auto simp: outcome_def events_def bnd_def\<close>)
    qed
  qed
qed

end

section \<open>The ten sections keep it\<close>

lemma resource_sectionI:
  fixes rest :: "TemplateSpec \<Rightarrow> Universe \<Rightarrow> error + resource \<Rightarrow> ('w, answer, Universe) go"
  assumes sync: "\<And>e u. sync e u = bnd (k_get S Mgmt k (Namespace e) (Name e)) (\<lambda>r.
      if IsNotFound (err_of r) then create_new S k rt u e (ann e) (sn e) else rest e u r)"
    and rest: "\<And>e u r. sat quiet (keeps S u) (\<lambda>_. False) (rest e u r)"
    and ann: "\<And>e. ann e = None \<or> ann e = Annotations e"
  shows "resource_section S k ann sync"
proof unfold_locales
  fix e :: TemplateSpec and s :: "'w st" and u w
  assume "svc_get S Mgmt k (Namespace e) (Name e) (world s) = (Inl ENotFound, w)"
  then have "sync e u s = bnd (k_get S Mgmt k (Namespace e) (Name e)) (\<lambda>_. create_new S k rt u e (ann e) (sn e)) s"
    unfolding sync by (simp add: k_get_def ask_def bnd_def)
  then show "\<exists>rt sn. sync e u s = bnd (k_get S Mgmt k (Namespace e) (Name e)) (\<lambda>_. create_new S k rt u e (ann e) sn) s"
    by blast
next
  fix e :: TemplateSpec and s :: "'w st" and u r w
  assume r: "svc_get S Mgmt k (Namespace e) (Name e) (world s) = (r, w)" "r \<noteq> Inl ENotFound"
  then have nf: "\<not> IsNotFound (err_of r)" by (cases r) (auto simp: IsNotFound_def)
  let ?s = "s\<lparr>world := w\<rparr>"
  have "events (sync e u) s = EvGet Mgmt k (Namespace e) (Name e) (err_of r) # events (rest e u r) ?s"
    and "outcome (sync e u) s = outcome (rest e u r) ?s"
    unfolding sync using r nf by (simp_all add: k_get_def events_ask outcome_ask)
  moreover have "list_all quiet (events (rest e u r) ?s)"
    and "\<And>u'. outcome (rest e u r) ?s = Next u' \<Longrightarrow> keeps S u u'"
    and "\<And>a. outcome (rest e u r) ?s \<noteq> Return a"
    using rest [of u e r] by (auto simp: sat_def list_all_iff)
  ultimately show "\<exists>es. events (sync e u) s = EvGet Mgmt k (Namespace e) (Name e) (err_of r) # es \<and> list_all quiet es \<and>
        (\<forall>a. outcome (sync e u) s \<noteq> Return a) \<and> (\<forall>u'. outcome (sync e u) s = Next u' \<longrightarrow> keeps S u u')"
    by simp
qed (rule ann)

lemma sat_set_status_from: "keeps S u v \<Longrightarrow> sat quiet (keeps S u) R (set_status S k v p n)"
  by (rule sat_weaken [OF sat_set_status_keeps]) (auto intro: keeps_trans)

text \<open>The statement most sections go on with: sync if needed, wait, record.\<close>

lemma sat_sync_wait:
  assumes wait: "\<And>f. sat quiet (\<lambda>_. True) R (wait f)" and rest: "\<And>v f. keeps S u v \<Longrightarrow> sat quiet (keeps S u) R (fin v f)"
  shows "sat quiet (keeps S u) R (bnd (if needs_sync u then
        bnd (set_status S a u p n) (\<lambda>v. bnd (update_found S upd) (\<lambda>f. ret (v, f))) else ret (u, found)) (\<lambda>(v, f).
      bnd (wait f) (\<lambda>err. fin v f)))"
proof (rule sat_bnd)
  show "sat quiet (\<lambda>(v, f). keeps S u v) R (if needs_sync u then
        bnd (set_status S a u p n) (\<lambda>v. bnd (update_found S upd) (\<lambda>f. ret (v, f))) else ret (u, found))"
    by (intro sat_if sat_bnd [OF sat_set_status_keeps] sat_bnd [OF sat_update_found] sat_ret) simp_all
  fix x :: "Universe \<times> resource"
  assume "case x of (v, f) \<Rightarrow> keeps S u v"
  then show "sat quiet (keeps S u) R (case x of (v, f) \<Rightarrow> bnd (wait f) (\<lambda>err. fin v f))"
    by (cases x) (auto intro: sat_bnd [OF wait] rest)
qed

text \<open>Networks and subnetworks wait first.\<close>

lemma sat_wait_sync:
  assumes "sat quiet (\<lambda>_. True) R w"
  shows "sat quiet (keeps S u) R (bnd w (\<lambda>err.
      bnd (if needs_sync u then update_found S upd else ret found) (\<lambda>f. set_status S k u p (n f))))"
  by (rule sat_bnd [OF assms], rule sat_bnd, rule sat_if, rule sat_update_found, rule sat_ret, simp)
    (rule sat_set_status_keeps)

lemma sat_sync_only:
  "sat quiet (keeps S u) R (bnd (if needs_sync u then
      bnd (set_status S a u p n) (\<lambda>v. bnd (update_found S upd) (\<lambda>_. ret v)) else ret u) (\<lambda>v.
      set_status S b v q m))"
  by (rule sat_bnd, rule sat_if, rule sat_bnd [OF sat_set_status_keeps], rule sat_bnd [OF sat_update_found],
      rule sat_ret, assumption, rule sat_ret, rule keeps_refl, rule sat_set_status_from)

interpretation iam: resource_section S KIAMServiceAccount "\<lambda>e. None" "syncIAMServiceAccounts S" for S
  by (rule resource_sectionI, unfold syncIAMServiceAccounts_def Let_def, rule refl, rule sat_sync_only, simp)

interpretation network: resource_section S KComputeNetwork "\<lambda>e. None" "syncComputeNetworks S" for S
  by (rule resource_sectionI, unfold syncComputeNetworks_def Let_def, rule refl,
      rule sat_wait_sync, rule sat_waits, simp)

interpretation subnetwork: resource_section S KComputeSubnetwork "\<lambda>e. None" "syncComputeSubnetworks S" for S
  by (rule resource_sectionI, unfold syncComputeSubnetworks_def Let_def, rule refl,
      rule sat_wait_sync, rule sat_waits, simp)

interpretation cluster: resource_section S KContainerCluster Annotations "syncContainerClusters S" for S
  by (rule resource_sectionI, unfold syncContainerClusters_def Let_def, rule refl, rule sat_sync_wait [OF sat_waits(1)])
    (auto intro!: sat_bnd [OF sat_set_status_from] sat_bnd [OF sat_setUpCluster] sat_ret)

interpretation node_pool: resource_section S KContainerNodePool Annotations "syncContainerNodePools S" for S
  by (rule resource_sectionI, unfold syncContainerNodePools_def Let_def, rule refl, rule sat_sync_wait [OF sat_waits(2)])
    (auto intro!: sat_set_status_from)

interpretation sql_instance: resource_section S KSQLInstance "\<lambda>e. None" "syncSQLInstances S" for S
  by (rule resource_sectionI, unfold syncSQLInstances_def Let_def, rule refl, rule sat_sync_wait [OF sat_waits(5)])
    (auto intro!: sat_set_status_from)

interpretation sql_database: resource_section S KSQLDatabase "\<lambda>e. None" "syncSQLDatabases S" for S
  by (rule resource_sectionI, unfold syncSQLDatabases_def Let_def, rule refl, rule sat_sync_wait [OF sat_waits(6)])
    (auto intro!: sat_set_status_from)

interpretation router: resource_section S KComputeRouter "\<lambda>e. None" "syncComputeRouters S" for S
  by (rule resource_sectionI, unfold syncComputeRouters_def Let_def, rule refl, rule sat_sync_wait [OF sat_waits(7)])
    (auto intro!: sat_set_status_from)

interpretation router_nat: resource_section S KComputeRouterNAT "\<lambda>e. None" "syncComputeRouterNATs S" for S
  by (rule resource_sectionI, unfold syncComputeRouterNATs_def Let_def, rule refl, rule sat_sync_wait [OF sat_waits(8)])
    (auto intro!: sat_set_status_from)

interpretation bucket: resource_section S KStorageBucket "\<lambda>e. None" "syncStorageBuckets S" for S
  by (rule resource_sectionI, unfold syncStorageBuckets_def Let_def, rule refl, rule sat_sync_wait [OF sat_waits(9)])
    (auto intro!: sat_set_status_from)

section \<open>A run of sections\<close>

text \<open>
  An event is calm when it neither creates something in the management cluster nor changes a Universe
  other than its status: quiet, but deletes of resources are allowed.
\<close>

definition calm :: "event \<Rightarrow> bool" where
  "calm e = (case e of EvCreate t x r \<Rightarrow> t \<noteq> Mgmt | EvCreateUniverse u r \<Rightarrow> False
     | EvUpdateUniverse u r \<Rightarrow> False | EvDeleteUniverse ns n r \<Rightarrow> False | _ \<Rightarrow> True)"

lemma quiet_calm: "quiet e \<Longrightarrow> calm e"
  by (cases e) (simp_all add: calm_def)

lemma calm_delete [simp]: "calm (EvDelete t k ns n r)"
  by (simp add: calm_def)

lemma all_quiet_calm: "list_all quiet es \<Longrightarrow> list_all calm es"
  by (simp add: list_all_iff quiet_calm)

text \<open>
  \<open>in_order S ks V u m\<close>: \<open>m\<close>, run for the Universe \<open>u\<close>, is a run of the sections of the kinds \<open>ks\<close>.
  It falls through only when it has created nothing and has seen every template of these kinds in
  place, with a value that holds (by \<open>V\<close>) the same Universe; it returns only from a create, made
  when every template before it has been seen; and when it does not end it has created nothing.
\<close>

definition all_seen :: "'w services \<Rightarrow> kind list \<Rightarrow> Universe \<Rightarrow> event list \<Rightarrow> bool" where
  "all_seen S ks u es = (status_keeps S \<longrightarrow> (\<forall>k \<in> set ks. seen k (templates k (uSpec u)) es))"

definition stops :: "'w services \<Rightarrow> kind list \<Rightarrow> Universe \<Rightarrow> event list \<Rightarrow> answer \<Rightarrow> bool" where
  "stops S ks u es r = (\<exists>kbefore k kafter before e after pre post.
     ks = kbefore @ k # kafter \<and> (status_keeps S \<longrightarrow> templates k (uSpec u) = before @ e # after) \<and>
     es = pre @ post \<and> list_all calm pre \<and> all_seen S kbefore u pre \<and> seen k before pre \<and>
     creation S k e u post r)"

definition in_order :: "'w services \<Rightarrow> kind list \<Rightarrow> ('a \<Rightarrow> Universe) \<Rightarrow> Universe \<Rightarrow> ('w, answer, 'a) go \<Rightarrow> bool" where
  "in_order S ks V u m = (\<forall>s. case outcome m s of
       Next x \<Rightarrow> list_all calm (events m s) \<and> all_seen S ks u (events m s) \<and> keeps S u (V x)
     | Return r \<Rightarrow> stops S ks u (events m s) r
     | _ \<Rightarrow> list_all calm (events m s))"

lemma all_seen_append: "all_seen S ks u xs \<Longrightarrow> all_seen S ks u (xs @ ys)"
  "all_seen S ks u ys \<Longrightarrow> all_seen S ks u (xs @ ys)"
  by (auto simp: all_seen_def)

lemma all_seen_kinds: "all_seen S ks u es \<Longrightarrow> all_seen S ks' u es \<Longrightarrow> all_seen S (ks @ ks') u es"
  by (auto simp: all_seen_def)

lemma all_seen_keeps: "keeps S u v \<Longrightarrow> all_seen S ks v es \<Longrightarrow> all_seen S ks u es"
  by (simp add: all_seen_def keeps_def same_universe_spec_def)

lemma stops_append:
  assumes "stops S ks v es r" and "keeps S u v" and "list_all calm es1" and "all_seen S ks1 u es1"
  shows "stops S (ks1 @ ks) u (es1 @ es) r"
proof -
  obtain kb k ka b e a pre post where *: "ks = kb @ k # ka" "status_keeps S \<longrightarrow> templates k (uSpec v) = b @ e # a"
    "es = pre @ post" "list_all calm pre" "all_seen S kb v pre" "seen k b pre" "creation S k e v post r"
    using assms(1) unfolding stops_def by blast
  show ?thesis
    unfolding stops_def
  proof (intro exI conjI)
    show "ks1 @ ks = (ks1 @ kb) @ k # ka" "es1 @ es = (es1 @ pre) @ post" "list_all calm (es1 @ pre)"
      "seen k b (es1 @ pre)" using * assms(3) by simp_all
    show "status_keeps S \<longrightarrow> templates k (uSpec u) = b @ e # a"
      using *(2) assms(2) by (simp add: keeps_def same_universe_spec_def)
    show "all_seen S (ks1 @ kb) u (es1 @ pre)"
      using * assms(4) all_seen_keeps [OF assms(2)] by (intro all_seen_kinds) (auto intro: all_seen_append)
    show "creation S k e u post r" using creation_keeps [OF assms(2) *(7)] .
  qed
qed

lemma stops_more: "stops S ks u es r \<Longrightarrow> stops S (ks @ ks') u es r"
  unfolding stops_def by (metis append.assoc append_Cons)

lemma in_order_bnd:
  assumes m: "in_order S ks V u m" and f: "\<And>x. keeps S u (V x) \<Longrightarrow> in_order S ks' V' (V x) (f x)"
  shows "in_order S (ks @ ks') V' u (bnd m f)"
  unfolding in_order_def
proof
  fix s
  obtain o1 es s' where run: "m s = (o1, es, s')" by (cases "m s") auto
  note m' = m [unfolded in_order_def, rule_format, of s]
  show "case outcome (bnd m f) s of
       Next x \<Rightarrow> list_all calm (events (bnd m f) s) \<and> all_seen S (ks @ ks') u (events (bnd m f) s) \<and> keeps S u (V' x)
     | Return r \<Rightarrow> stops S (ks @ ks') u (events (bnd m f) s) r
     | _ \<Rightarrow> list_all calm (events (bnd m f) s)"
  proof (cases o1)
    case (Next x)
    with m' run have es: "list_all calm es" "all_seen S ks u es" "keeps S u (V x)" by (simp_all add: run_defs)
    have out: "outcome (bnd m f) s = outcome (f x) s'" and evs: "events (bnd m f) s = es @ events (f x) s'"
      using run Next by (simp_all add: run_defs bnd_Next split: prod.split)
    note f' = f [OF es(3), unfolded in_order_def, rule_format, of s']
    show ?thesis
    proof (cases "outcome (f x) s'")
      case (Next y)
      with f' es show ?thesis unfolding out evs
        by (auto intro: all_seen_kinds all_seen_append all_seen_keeps keeps_trans)
    next
      case (Return r)
      with f' es show ?thesis unfolding out evs by (simp add: stops_append)
    qed (use f' es in \<open>simp_all add: out evs\<close>)
  next
    case (Return r)
    with m' run show ?thesis by (simp add: run_defs bnd_Return stops_more)
  next
    case (Panic p)
    with m' run show ?thesis by (simp add: run_defs bnd_Panic)
  next
    case Hang
    with m' run show ?thesis by (simp add: run_defs bnd_Hang)
  qed
qed

lemma in_order_calm:
  assumes "sat calm (\<lambda>x. keeps S u (V x)) (\<lambda>_. False) m"
  shows "in_order S [] V u m"
  using assms by (auto simp: in_order_def sat_def all_seen_def list_all_iff split: flow.split)

lemma in_order_ret: "keeps S u (V x) \<Longrightarrow> in_order S [] V u (ret x)"
  by (rule in_order_calm) (rule sat_ret)

lemma in_order_calm_bnd:
  assumes "sat calm (\<lambda>_. True) (\<lambda>_. False) m" and "\<And>x. in_order S ks V u (f x)"
  shows "in_order S ks V u (bnd m f)"
proof -
  have "in_order S [] (\<lambda>_. u) u m" using assms(1) by (intro in_order_calm) simp
  from in_order_bnd [OF this assms(2)] show ?thesis by simp
qed

context resource_section
begin

text \<open>The loop of a section is such a run, of its own kind.\<close>

lemma loop_in_order:
  assumes "templates k (uSpec u) = ts"
  shows "in_order S [k] (\<lambda>v. v) u (foreach sync ts u)"
  unfolding in_order_def
proof
  fix s
  show "case outcome (foreach sync ts u) s of
       Next v \<Rightarrow> list_all calm (events (foreach sync ts u) s) \<and> all_seen S [k] u (events (foreach sync ts u) s) \<and> keeps S u v
     | Return r \<Rightarrow> stops S [k] u (events (foreach sync ts u) s) r
     | _ \<Rightarrow> list_all calm (events (foreach sync ts u) s)"
  proof (cases rule: loop_cases [of ts u s])
    case (creates before e after pre post r)
    have "stops S [k] u (events (foreach sync ts u) s) r"
      unfolding stops_def
      by (rule exI [of _ "[]"], rule exI [of _ k], rule exI [of _ "[]"], rule exI [of _ before], rule exI [of _ e],
          rule exI [of _ after], rule exI [of _ pre], rule exI [of _ post])
        (use creates assms in \<open>simp add: all_quiet_calm all_seen_def\<close>)
    with creates show ?thesis by simp
  next
    case goes_on
    then show ?thesis
      using assms by (auto simp: all_quiet_calm all_seen_def split: flow.split)
  qed
qed

end

section \<open>Lists and pruning\<close>

lemma sat_lists:
  "sat quiet (\<lambda>_. True) R (getIAMServiceAccountsForUniverse S sel)"
  "sat quiet (\<lambda>_. True) R (getComputeNetworksForUniverse S sel)"
  "sat quiet (\<lambda>_. True) R (getComputeSubNetworksForUniverse S sel)"
  "sat quiet (\<lambda>_. True) R (getContainerClustersForUniverse S sel)"
  "sat quiet (\<lambda>_. True) R (getContainerNodePoolsForUniverse S sel)"
  "sat quiet (\<lambda>_. True) R (getSQLInstancesForUniverse S sel)"
  "sat quiet (\<lambda>_. True) R (getSQLDatabasesForUniverse S sel)"
  "sat quiet (\<lambda>_. True) R (getComputeRoutersForUniverse S sel)"
  "sat quiet (\<lambda>_. True) R (getComputeRouterNATsForUniverse S sel)"
  "sat quiet (\<lambda>_. True) R (getStorageBucketsForUniverse S sel)"
  unfolding list_defs listForUniverse_def k_list_def by (intro sat_any; simp)+

lemma sat_quiet_calm: "sat quiet V R m \<Longrightarrow> sat calm V R m"
  by (erule sat_weaken) (simp_all add: quiet_calm)

lemma sat_prune: "sat calm (\<lambda>_. True) R (prune S counted ts existing inSpec)"
  unfolding prune_def k_delete_def by (intro sat_any) simp_all

lemma in_order_list_prune:
  assumes "sat quiet (\<lambda>_. True) (\<lambda>_. False) lister" and "\<And>l. V (v l) = u"
  shows "in_order S [] V u (bnd lister (\<lambda>l. bnd (prune S (counted l) (ts l) (existing l) (inSpec l)) (\<lambda>_. ret (v l))))"
  by (rule in_order_calm_bnd [OF sat_quiet_calm [OF assms(1)]], rule in_order_calm_bnd [OF sat_prune],
      rule in_order_ret, simp add: assms(2))

context resource_section
begin

lemma section_in_order:
  assumes "templates k (uSpec u) = ts"
    and "\<And>v. sat quiet (\<lambda>_. True) (\<lambda>_. False) (lister v)" and "\<And>v l. V (x v l) = v"
  shows "in_order S [k] V u (bnd (foreach sync ts u) (\<lambda>v. bnd (lister v) (\<lambda>l.
     bnd (prune S (counted v l) (tmpl v l) (existing v l) (inSpec v l)) (\<lambda>_. ret (x v l)))))"
proof -
  have "in_order S ([k] @ []) V u (bnd (foreach sync ts u) (\<lambda>v. bnd (lister v) (\<lambda>l.
      bnd (prune S (counted v l) (tmpl v l) (existing v l) (inSpec v l)) (\<lambda>_. ret (x v l)))))"
    by (rule in_order_bnd [OF loop_in_order [OF assms(1)]], rule in_order_list_prune [OF assms(2)], rule assms(3))
  then show ?thesis by simp
qed

end

lemma sections_in_order:
  "in_order S [KIAMServiceAccount] (\<lambda>v. v) u (reconcileIAMServiceAccounts S u)"
  "in_order S [KComputeNetwork] fst u (reconcileComputeNetworks S u)"
  "in_order S [KComputeSubnetwork] (\<lambda>v. v) u (reconcileComputeSubnetworks S nwList u)"
  "in_order S [KContainerCluster] (\<lambda>v. v) u (reconcileContainerClusters S u)"
  "in_order S [KContainerNodePool] (\<lambda>v. v) u (reconcileContainerNodePools S u)"
  "in_order S [KSQLInstance] fst u (reconcileSQLInstances S u)"
  "in_order S [KSQLDatabase] (\<lambda>v. v) u (reconcileSQLDatabases S sList u)"
  "in_order S [KComputeRouter] (\<lambda>v. v) u (reconcileComputeRouters S sList u)"
  "in_order S [KComputeRouterNAT] (\<lambda>v. v) u (reconcileComputeRouterNATs S u)"
  "in_order S [KStorageBucket] (\<lambda>v. v) u (reconcileStorageBuckets S u)"
  unfolding reconcileIAMServiceAccounts_def reconcileComputeNetworks_def reconcileComputeSubnetworks_def
    reconcileContainerClusters_def reconcileContainerNodePools_def reconcileSQLInstances_def
    reconcileSQLDatabases_def reconcileComputeRouters_def reconcileComputeRouterNATs_def
    reconcileStorageBuckets_def Let_def
  by (rule iam.section_in_order network.section_in_order subnetwork.section_in_order cluster.section_in_order
      node_pool.section_in_order sql_instance.section_in_order sql_database.section_in_order
      router.section_in_order router_nat.section_in_order bucket.section_in_order; simp add: sat_lists)+

section \<open>The ten sections, one after the other\<close>

definition reconcileResources :: "'w services \<Rightarrow> Universe \<Rightarrow> ('w, answer, Universe) go" where
  "reconcileResources S u =
     bnd (reconcileIAMServiceAccounts S u) (\<lambda>u.
     bnd (reconcileComputeNetworks S u) (\<lambda>(u, nwList).
     bnd (reconcileComputeSubnetworks S nwList u) (\<lambda>u.
     bnd (reconcileContainerClusters S u) (\<lambda>u.
     bnd (reconcileContainerNodePools S u) (\<lambda>u.
     bnd (reconcileSQLInstances S u) (\<lambda>(u, sList).
     bnd (reconcileSQLDatabases S sList u) (\<lambda>u.
     bnd (reconcileComputeRouters S sList u) (\<lambda>u.
     bnd (reconcileComputeRouterNATs S u) (\<lambda>u.
     reconcileStorageBuckets S u)))))))))"

definition resource_kinds :: "kind list" where
  "resource_kinds = [KIAMServiceAccount, KComputeNetwork, KComputeSubnetwork, KContainerCluster,
     KContainerNodePool, KSQLInstance, KSQLDatabase, KComputeRouter, KComputeRouterNAT, KStorageBucket]"

lemma in_order_step:
  "in_order S [k] (\<lambda>v. v) u m \<Longrightarrow> (\<And>x. in_order S ks V x (f x)) \<Longrightarrow> in_order S (k # ks) V u (bnd m f)"
  "in_order S [k] fst u m' \<Longrightarrow> (\<And>x xs. in_order S ks V x (g x xs)) \<Longrightarrow>
    in_order S (k # ks) V u (bnd m' (\<lambda>(x, xs). g x xs))"
  using in_order_bnd [of S "[k]" "\<lambda>v. v" u m ks V f] in_order_bnd [of S "[k]" fst u m' ks V "\<lambda>(x, xs). g x xs"]
  by (simp_all add: split_def)

lemma resources_in_order: "in_order S resource_kinds (\<lambda>v. v) u (reconcileResources S u)"
  unfolding reconcileResources_def resource_kinds_def
  by (rule in_order_step, rule sections_in_order)+ (rule sections_in_order)

end
