(* ===== verification/UniverseReconcile.thy ===== *)
theory UniverseReconcile
  imports UniverseSections
begin

text \<open>
  \<open>UniverseReconciler.Reconcile\<close> (\<^verbatim>\<open>controllers/universe_controller.go\<close>) around its ten sections, and
  \<open>finalizeUniverse\<close> (\<^verbatim>\<open>controllers/finalizers.go\<close>): fetching the Universe and recording its
  repository and pull request, the backup and restore into each cluster, the finalizer, the time to
  live and the observed generation.

  \<open>reconcile_cases\<close> splits a run into the four ways it can go; the properties are read off it.  What the
  code goes on with after a get is anything but NotFound, another error too; \<open>get_sound\<close> is the condition
  on the trace under which what was not missing was found.
\<close>

section \<open>Before the sections\<close>

definition fetchUniverse :: "'w services \<Rightarrow> string \<Rightarrow> string \<Rightarrow> ('w, answer, Universe) go" where
  "fetchUniverse S ns n =
     bnd (u_get S ns n) (\<lambda>r. case r of
       Inl err \<Rightarrow> (if IsNotFound (Some err) then return (no_requeue, None) else return (no_requeue, Some err))
     | Inr universe \<Rightarrow>
     bnd (if annotation universe ''repo'' \<noteq> []
          then statusUpdate S (universe\<lparr>uStatus := (uStatus universe)\<lparr>Repository := annotation universe ''repo''\<rparr>\<rparr>)
          else ret universe) (\<lambda>universe.
     if annotation universe ''pr'' \<noteq> []
     then bnd (u_get S ns n) (\<lambda>r. let universe = (case r of Inl err \<Rightarrow> universe | Inr u \<Rightarrow> u) in
          statusUpdate S (universe\<lparr>uStatus := (uStatus universe)\<lparr>PR := annotation universe ''pr''\<rparr>\<rparr>))
     else ret universe))"

section \<open>After the sections\<close>

definition restoreCluster ::
  "'w services \<Rightarrow> Universe \<Rightarrow> rest_config option \<Rightarrow> TemplateSpec \<Rightarrow> ('w, answer, unit) go" where
  "restoreCluster S universe sourceClusterRestConfig cluster =
     bnd (k_get S Mgmt KContainerCluster (Namespace cluster) (Name cluster)) (\<lambda>r. case r of
       Inl err \<Rightarrow> return (requeue, None)
     | Inr found \<Rightarrow>
     bnd (GetGKEClientsetWithTimeout S (ProjectID (uSpec universe)) (Name found) region) (\<lambda>(targetRestConfig, err).
     bnd (new_clientset S targetRestConfig) (\<lambda>targetClientSet.
     bnd (CreateClusterAdminToken S targetClientSet ''kube-system'' ''temp'') (\<lambda>(targetSecret, err).
     bnd (createBackUp S sourceClusterRestConfig (TargetNamespaces (uSpec universe)) (Name universe)) (\<lambda>_.
     bnd (waitForBackUp S targetRestConfig (Name universe)) (\<lambda>_.
     bnd (createRestore S targetSecret targetRestConfig (Name universe) (Name universe)) (\<lambda>_.
     bnd (waitForRestore S targetRestConfig (Name universe)) (\<lambda>_.
     foreach (\<lambda>ns _. bnd (ingressPatch S targetRestConfig (Name universe) ns) (\<lambda>_. ret ()))
       (TargetNamespaces (uSpec universe)) ()))))))))"

definition restorePreviews :: "'w services \<Rightarrow> Universe \<Rightarrow> ('w, answer, unit) go" where
  "restorePreviews S universe =
     bnd (GetGKEClientsetWithTimeout S (ProjectID (uSpec universe)) (PrimaryCluster (uSpec universe)) region)
       (\<lambda>(sourceClusterRestConfig, err).
     foreach (\<lambda>cluster _. restoreCluster S universe sourceClusterRestConfig cluster)
       (ContainerClusters (uContainer (uSpec universe))) ())"

definition universeFinalizer :: string where
  "universeFinalizer = ''universes.multiverse.saga.dev/finalizer''"

definition finalizeUniverse :: "Universe \<Rightarrow> ('w, 'r, error option) go" where
  "finalizeUniverse u = ret None"

definition handleDeletion :: "'w services \<Rightarrow> Universe \<Rightarrow> ('w, answer, unit) go" where
  "handleDeletion S universe =
     (if DeletionTimestamp universe \<noteq> None then
        if svc_contains_finalizer S (Finalizers universe) universeFinalizer then
          bnd (finalizeUniverse universe) (\<lambda>err. case err of
            Some e \<Rightarrow> return (no_requeue, Some e)
          | None \<Rightarrow>
          bnd (u_update S (universe\<lparr>Finalizers := svc_remove_finalizer S (Finalizers universe) universeFinalizer\<rparr>)) (\<lambda>r.
          case r of Inl err \<Rightarrow> return (no_requeue, Some err) | Inr _ \<Rightarrow> return (no_requeue, None)))
        else return (no_requeue, None)
      else ret ())"

definition ensureFinalizer :: "'w services \<Rightarrow> Universe \<Rightarrow> ('w, answer, Universe) go" where
  "ensureFinalizer S universe =
     (if \<not> svc_contains_finalizer S (Finalizers universe) universeFinalizer then
        bnd (u_update S (universe\<lparr>Finalizers := svc_add_finalizer S (Finalizers universe) universeFinalizer\<rparr>)) (\<lambda>r.
        case r of Inl err \<Rightarrow> return (no_requeue, Some err) | Inr u \<Rightarrow> ret u)
      else ret universe)"

text \<open>
  \<open>time.Time.Second\<close> is the second within the minute, in 0..59 (the zones of the operator's hosts are
  off by whole minutes); times in seconds.  The sum is in Go's 64-bit \<open>int\<close>, the comparison is signed.
\<close>

definition Second :: "int \<Rightarrow> 64 word" where
  "Second t = word_of_int (t mod 60)"

definition ttl_reached :: "Universe \<Rightarrow> int \<Rightarrow> bool" where
  "ttl_reached universe t =
     (sint (Second (CreationTimestamp universe) + TTL (uSpec universe)) < sint (Second t))"

definition checkTTL :: "'w services \<Rightarrow> Universe \<Rightarrow> ('w, answer, unit) go" where
  "checkTTL S universe =
     bnd (now S) (\<lambda>t.
     if ttl_reached universe (t div 1000000000) then
       bnd (u_delete S universe) (\<lambda>err. case err of
         Some e \<Rightarrow> return (\<lparr> Requeue = False, RequeueAfter = 10 * Minute \<rparr>, Some e)
       | None \<Rightarrow> ret ())
     else ret ())"

definition recordGeneration :: "'w services \<Rightarrow> Universe \<Rightarrow> ('w, answer, answer) go" where
  "recordGeneration S universe =
     bnd (statusUpdate S (universe\<lparr>uStatus := (uStatus universe)\<lparr>ObservedGeneration := Generation universe\<rparr>\<rparr>)) (\<lambda>_.
     return (no_requeue, None))"

definition finishReconcile :: "'w services \<Rightarrow> Universe \<Rightarrow> ('w, answer, answer) go" where
  "finishReconcile S universe =
     bnd (restorePreviews S universe) (\<lambda>_.
     bnd (handleDeletion S universe) (\<lambda>_.
     bnd (ensureFinalizer S universe) (\<lambda>universe.
     bnd (checkTTL S universe) (\<lambda>_.
     recordGeneration S universe))))"

text \<open>Fetching the Universe and going through its sections; what \<open>Reconcile\<close> does before \<open>finishReconcile\<close>.\<close>

definition resourcesOf :: "'w services \<Rightarrow> string \<Rightarrow> string \<Rightarrow> ('w, answer, Universe) go" where
  "resourcesOf S ns n = bnd (fetchUniverse S ns n) (reconcileResources S)"

definition Reconcile :: "'w services \<Rightarrow> string \<Rightarrow> string \<Rightarrow> ('w, 'r, answer) go" where
  "Reconcile S ns n = scope (
     bnd (fetchUniverse S ns n) (\<lambda>universe.
     bnd (reconcileResources S universe) (\<lambda>universe.
     finishReconcile S universe)))"

section \<open>The parts of a run\<close>

lemma sat_statusUpdate: "sat quiet (\<lambda>_. True) R (statusUpdate S u)"
  unfolding statusUpdate_def u_status_def by (intro sat_any) simp_all

lemma emits_fetch: "emits quiet (fetchUniverse S ns n)"
proof -
  have "emits quiet (statusUpdate S u)" for u :: Universe
    by (intro emits_intros) simp
  then show ?thesis
    by (auto simp: fetchUniverse_def Let_def intro!: emits_intros)
qed

definition own_create :: "event \<Rightarrow> bool" where
  "own_create e = (case e of EvCreate t x r \<Rightarrow> t = Mgmt | _ \<Rightarrow> False)"

lemma own_create_simps [simp]: "own_create (EvCreate t x r) \<longleftrightarrow> t = Mgmt"
  by (simp add: own_create_def)

lemma calm_no_own_create: "calm e \<Longrightarrow> \<not> own_create e"
  by (cases e) (simp_all add: calm_def own_create_def)

lemma all_calm_no_own_create: "list_all calm es \<Longrightarrow> list_all (\<lambda>e. \<not> own_create e) es"
  by (simp add: list_all_iff calm_no_own_create)

lemma quiet_backup:
  "emits quiet (createBackUp S cfg nss n)" "emits quiet (createRestore S sec cfg n b)"
  "emits quiet (waitForBackUp S cfg n)" "emits quiet (waitForRestore S cfg n)"
  "emits quiet (ingressPatch S cfg suffix ns)"
proof -
  have client: "emits quiet (bnd (clientset_or_err r) f)"
    if "\<And>e. emits quiet (f (Inl e))" "\<And>t. r = Some (Inr t) \<Longrightarrow> emits quiet (f (Inr t))"
    for r and f :: "_ \<Rightarrow> ('w, 'r, 'x) go"
    using that by (cases r; cases "the r") (auto simp: clientset_or_err_def emits_def run_defs bnd_def)
  have lenient: "t \<noteq> Mgmt \<Longrightarrow> emits quiet (ensure_lenient S t x)" for t x
    by (auto simp: ensure_lenient_def intro!: emits_intros)
  have dyn: "DynamicForConfig S cfg = Some (Inr t) \<Longrightarrow> t \<noteq> Mgmt" for cfg t
    by (auto dest: client_remote)
  show "emits quiet (createBackUp S cfg nss n)" "emits quiet (createRestore S sec cfg n b)"
    unfolding createBackUp_def createRestore_def
    by (rule emits_scope, rule client, simp add: emits_return, simp add: try_do_def, rule emits_bnd,
        erule lenient [OF dyn], (auto intro!: emits_intros)[1])+
  show "emits quiet (waitForBackUp S cfg n)" "emits quiet (waitForRestore S cfg n)"
    by (auto simp: waitForBackUp_def waitForRestore_def backup_probe_def restore_probe_def intro!: emits_intros)
  have "emits quiet (patch_rules S t ns suffix ing before after)" for t ing before after
    by (induction after arbitrary: before) (auto simp: Let_def intro!: emits_intros)
  then show "emits quiet (ingressPatch S cfg suffix ns)"
    unfolding ingressPatch_def by (auto intro!: emits_intros)
qed

lemma sat_restoreCluster: "sat quiet (\<lambda>_. True) (\<lambda>r. r = (requeue, None)) (restoreCluster S u src cluster)"
proof -
  have backup: "sat quiet (\<lambda>_. True) R (createBackUp S cfg nss n)" "sat quiet (\<lambda>_. True) R (createRestore S sec cfg n b)"
    "sat quiet (\<lambda>_. True) R (ingressPatch S cfg suffix ns)" for R cfg nss n sec b suffix ns
    using quiet_backup [of S] unfolding createBackUp_def createRestore_def ingressPatch_def
    by (auto intro!: sat_scope_emits)
  have probes: "emits quiet (backup_probe S cfg n)" "emits quiet (restore_probe S cfg n)" for cfg n
    by (auto simp: backup_probe_def restore_probe_def intro!: emits_intros)
  have waits: "sat quiet (\<lambda>_. True) R (waitForBackUp S cfg n)" "sat quiet (\<lambda>_. True) R (waitForRestore S cfg n)" for R cfg n
    by (simp_all add: waitForBackUp_def waitForRestore_def sat_waitFor probes)
  show ?thesis
    unfolding restoreCluster_def k_get_def
    by (rule sat_bnd_any, rule sat_ask, simp, rule sat_case_sum, rule sat_return, simp,
        rule sat_bnd [OF sat_quiet_gke], clarsimp, rule sat_bnd [OF sat_new_clientset_remote],
        rule sat_bnd [OF sat_quiet_calls(3)], assumption, clarsimp, rule sat_bnd [OF backup(1)],
        rule sat_bnd [OF waits(1)], rule sat_bnd [OF backup(2)], rule sat_bnd [OF waits(2)], rule sat_foreach, simp,
        rule sat_bnd [OF backup(3)], rule sat_ret, simp)
qed

lemma sat_restorePreviews: "sat quiet (\<lambda>_. True) (\<lambda>r. r = (requeue, None)) (restorePreviews S u)"
  unfolding restorePreviews_def
  by (rule sat_bnd [OF sat_quiet_gke], rule sat_case_prod, rule sat_foreach, simp, rule sat_restoreCluster)

text \<open>An update of the Universe, too, is answered with the Universe as it is stored.\<close>

definition update_keeps :: "'w services \<Rightarrow> bool" where
  "update_keeps S = (\<forall>v w v'. fst (svc_update_universe S v w) = Inr v' \<longrightarrow> same_universe_spec v v')"

text \<open>\<open>v\<close> is \<open>u\<close> with its finalizer taken off, when it is being deleted, or put on.\<close>

definition finalizer_update :: "'w services \<Rightarrow> Universe \<Rightarrow> Universe \<Rightarrow> bool" where
  "finalizer_update S u v \<longleftrightarrow>
     DeletionTimestamp u \<noteq> None \<and> svc_contains_finalizer S (Finalizers u) universeFinalizer \<and>
       v = u\<lparr>Finalizers := svc_remove_finalizer S (Finalizers u) universeFinalizer\<rparr> \<or>
     DeletionTimestamp u = None \<and> \<not> svc_contains_finalizer S (Finalizers u) universeFinalizer \<and>
       v = u\<lparr>Finalizers := svc_add_finalizer S (Finalizers u) universeFinalizer\<rparr>"

definition late :: "'w services \<Rightarrow> Universe \<Rightarrow> event \<Rightarrow> bool" where
  "late S u e = (case e of EvUpdateUniverse v r \<Rightarrow> finalizer_update S u v
     | EvDeleteUniverse ns n r \<Rightarrow> (\<exists>v t. ttl_reached v t \<and> ns = Namespace v \<and> n = Name v \<and>
         (update_keeps S \<longrightarrow> same_universe_spec u v))
     | _ \<Rightarrow> quiet e)"

lemma quiet_late: "quiet e \<Longrightarrow> late S u e"
  by (cases e) (simp_all add: late_def)

lemma late_simps [simp]: "late S u (EvUpdateUniverse v r) \<longleftrightarrow> finalizer_update S u v"
  "late S u (EvStatusUniverse v r)"
  by (simp_all add: late_def)

lemma late_no_own_create: "late S u e \<Longrightarrow> \<not> own_create e"
  by (cases e) (simp_all add: late_def own_create_def)

lemma sat_quiet_late: "sat quiet V (\<lambda>r. r = (requeue, None)) m \<Longrightarrow> sat (late S u) V (\<lambda>_. True) m"
  by (erule sat_weaken) (simp_all add: quiet_late)

lemma sat_handleDeletion:
  "sat (late S u) (\<lambda>_. DeletionTimestamp u = None) (\<lambda>_. DeletionTimestamp u \<noteq> None) (handleDeletion S u)"
proof (cases "DeletionTimestamp u = None")
  case False
  have "finalizer_update S u (u\<lparr>Finalizers := svc_remove_finalizer S (Finalizers u) universeFinalizer\<rparr>)"
    if "svc_contains_finalizer S (Finalizers u) universeFinalizer"
    unfolding finalizer_update_def using False that by blast
  with False show ?thesis
    by (auto simp: handleDeletion_def finalizeUniverse_def u_update_def
        intro!: sat_bnd_any sat_ask sat_return sat_case_sum)
qed (auto simp: handleDeletion_def intro: sat_ret)

lemma sat_ensureFinalizer:
  assumes "DeletionTimestamp u = None"
  shows "sat (late S u) (\<lambda>v. update_keeps S \<longrightarrow> same_universe_spec u v) (\<lambda>_. True) (ensureFinalizer S u)"
proof (cases "svc_contains_finalizer S (Finalizers u) universeFinalizer")
  case True
  then show ?thesis by (auto simp: ensureFinalizer_def same_universe_spec_def intro: sat_ret)
next
  case False
  let ?v = "u\<lparr>Finalizers := svc_add_finalizer S (Finalizers u) universeFinalizer\<rparr>"
  have fin: "finalizer_update S u ?v"
    unfolding finalizer_update_def using False assms by blast
  have keep: "update_keeps S \<longrightarrow> same_universe_spec u y" if "svc_update_universe S ?v w = (Inr y, w')" for w y w'
    using that unfolding update_keeps_def same_universe_spec_def by (force dest: spec [of _ ?v] spec [of _ w])
  have "sat (late S u) (\<lambda>r. \<forall>y. r = Inr y \<longrightarrow> (update_keeps S \<longrightarrow> same_universe_spec u y)) (\<lambda>_. True) (u_update S ?v)"
    unfolding u_update_def by (rule sat_ask_value) (use fin keep in auto)
  with False show ?thesis
    unfolding ensureFinalizer_def by (auto intro!: sat_bnd sat_case_sum sat_return sat_ret)
qed

lemma sat_checkTTL:
  assumes "update_keeps S \<longrightarrow> same_universe_spec u v"
  shows "sat (late S u) (\<lambda>_. True) (\<lambda>_. True) (checkTTL S v)"
proof -
  have "late S u (EvDeleteUniverse (Namespace v) (Name v) r)" if "ttl_reached v t" for t r
    unfolding late_def using assms that by auto
  then show ?thesis
    unfolding checkTTL_def u_delete_def by (auto intro!: sat_bnd_any sat_now sat_ask sat_return sat_ret sat_case_option)
qed

lemma sat_recordGeneration: "sat (late S u) (\<lambda>_. True) (\<lambda>_. True) (recordGeneration S v)"
  unfolding recordGeneration_def statusUpdate_def u_status_def
  by (auto intro!: sat_bnd_any sat_ask sat_return sat_ret)

lemma sat_finish: "sat (late S u) (\<lambda>_. True) (\<lambda>_. True) (finishReconcile S u)"
  unfolding finishReconcile_def
  by (rule sat_bnd [OF sat_quiet_late [OF sat_restorePreviews]],
      rule sat_bnd [OF sat_weaken [OF sat_handleDeletion]], assumption, assumption, simp,
      rule sat_bnd [OF sat_ensureFinalizer], assumption, rule sat_bnd [OF sat_checkTTL], assumption,
      rule sat_recordGeneration)

section \<open>The four ways a run can go\<close>

lemma reconcile_cases:
  fixes S :: "'w services" and s :: "'w st" and ns n :: string
  defines "run \<equiv> Reconcile S ns n :: ('w, 'r, answer) go" and "fetching \<equiv> fetchUniverse S ns n"
  obtains (not_fetched) "list_all quiet (events run s)" and "\<And>u. outcome fetching s \<noteq> Next u"
  | (created) u es r where "outcome fetching s = Next u" and "events run s = events fetching s @ es"
      and "stops S resource_kinds u es r" and "outcome run s = Next r"
  | (stuck) "list_all calm (events run s)" and "\<And>r. outcome run s \<noteq> Next r"
  | (in_place) u v es es' where "outcome fetching s = Next u" and "events run s = events fetching s @ es @ es'"
      and "list_all calm es" and "all_seen S resource_kinds u es" and "keeps S u v" and "list_all (late S v) es'"
      and "outcome (resourcesOf S ns n) s = Next v" and "events run s = events (resourcesOf S ns n) s @
        events (finishReconcile S v) (final (resourcesOf S ns n) s)"
proof -
  obtain o1 es1 s1 where f: "fetching s = (o1, es1, s1)" by (cases "fetching s") auto
  have q1: "list_all quiet es1"
    using emitsD [OF emits_fetch, of _ S ns n s] f unfolding fetching_def by (auto simp: events_def list_all_iff)
  show thesis
  proof (cases o1)
    case (Next u)
    obtain o2 es2 s2 where sec: "(reconcileResources S u :: ('w, answer, Universe) go) s1 = (o2, es2, s2)"
      by (cases "(reconcileResources S u :: ('w, answer, Universe) go) s1") auto
    note sec' = resources_in_order [of S u, unfolded in_order_def, rule_format, of s1, unfolded run_defs sec, simplified]
    show thesis
    proof (cases o2)
      case (Next v)
      obtain o3 es3 s3 where fin: "(finishReconcile S v :: ('w, answer, answer) go) s2 = (o3, es3, s3)"
        by (cases "(finishReconcile S v :: ('w, answer, answer) go) s2") auto
      have "list_all (late S v) es3"
        using satD_event [OF sat_finish, of _ S v s2] fin by (auto simp: events_def list_all_iff)
      moreover have "events run s = es1 @ es2 @ es3"
        using f sec fin Next \<open>o1 = Next u\<close>
        by (simp add: run_def fetching_def Reconcile_def events_scope) (simp add: events_def bnd_def)
      moreover have "resourcesOf S ns n s = (Next v, es1 @ es2, s2)"
        using f sec Next \<open>o1 = Next u\<close> by (simp add: resourcesOf_def fetching_def bnd_def)
      ultimately show thesis using in_place [of u es2 es3 v] f fin \<open>o1 = Next u\<close> sec' Next by (simp add: run_defs)
    next
      case (Return r)
      have "events run s = es1 @ es2" "outcome run s = Next r"
        using f sec Return \<open>o1 = Next u\<close>
        by (simp_all add: run_def fetching_def Reconcile_def run_defs bnd_def scope_def)
      then show thesis using created [of u es2 r] f \<open>o1 = Next u\<close> sec' Return by (simp add: run_defs)
    next
      case (Panic p)
      then have "events run s = es1 @ es2" "\<And>r. outcome run s \<noteq> Next r"
        using f sec \<open>o1 = Next u\<close>
        by (simp_all add: run_def fetching_def Reconcile_def run_defs bnd_def scope_def)
      then show thesis using stuck q1 sec' Panic by (simp add: all_quiet_calm)
    next
      case Hang
      then have "events run s = es1 @ es2" "\<And>r. outcome run s \<noteq> Next r"
        using f sec \<open>o1 = Next u\<close>
        by (simp_all add: run_def fetching_def Reconcile_def run_defs bnd_def scope_def)
      then show thesis using stuck q1 sec' Hang by (simp add: all_quiet_calm)
    qed
  next
    case (Return r)
    then show thesis using f q1 not_fetched
      by (simp add: run_def fetching_def Reconcile_def run_defs bnd_def scope_def)
  next
    case (Panic p)
    then show thesis using f q1 not_fetched
      by (simp add: run_def fetching_def Reconcile_def run_defs bnd_def scope_def)
  next
    case Hang
    then show thesis using f q1 not_fetched
      by (simp add: run_def fetching_def Reconcile_def run_defs bnd_def scope_def)
  qed
qed

section \<open>Gets that fail with NotFound only\<close>

text \<open>An API server of the management cluster that is always reached: what is not there is all a get can fail of.\<close>

definition get_sound :: "event \<Rightarrow> bool" where
  "get_sound e = (case e of EvGet t k ns n (Some err) \<Rightarrow> t = Mgmt \<longrightarrow> err = ENotFound | _ \<Rightarrow> True)"

definition found_all :: "kind \<Rightarrow> TemplateSpec list \<Rightarrow> event list \<Rightarrow> bool" where
  "found_all k ts es = list_all (\<lambda>e. EvGet Mgmt k (Namespace e) (Name e) None \<in> set es) ts"

lemma sound_found:
  "list_all get_sound es \<Longrightarrow> r \<noteq> Some ENotFound \<Longrightarrow> EvGet Mgmt k ns n r \<in> set es \<Longrightarrow> EvGet Mgmt k ns n None \<in> set es"
  by (cases r) (auto simp: list_all_iff get_sound_def)

lemma seen_found: "list_all get_sound es \<Longrightarrow> seen k ts es \<Longrightarrow> found_all k ts es"
  unfolding seen_def found_all_def by (auto simp: list_all_iff dest: sound_found [unfolded list_all_iff])

section \<open>Where a create stands\<close>

lemma split_unique:
  "xs @ a # ys = us @ b # vs \<Longrightarrow> list_all (\<lambda>e. \<not> P e) xs \<Longrightarrow> P a \<Longrightarrow> list_all (\<lambda>e. \<not> P e) ys \<Longrightarrow> P b \<Longrightarrow>
    us = xs \<and> b = a \<and> vs = ys"
  by (induction xs arbitrary: us) (auto simp: Cons_eq_append_conv list_all_iff)

lemma earlier_kinds:
  assumes "resource_kinds = kb @ k # ka" and "k' < k"
  shows "k' \<in> set kb"
proof -
  have sorted: "sorted_wrt (<) (kb @ k # ka)"
    unfolding assms(1) [symmetric] by (simp add: resource_kinds_def less_kind_def)
  have "k \<in> set resource_kinds" unfolding assms(1) by simp
  with assms(2) have "k' \<in> set resource_kinds"
    by (cases k; cases k'; simp add: resource_kinds_def less_kind_def)
  then have "k' \<in> set (kb @ k # ka)" unfolding assms(1) .
  moreover have "\<forall>y \<in> set ka. k < y" using sorted by (simp add: sorted_wrt_append)
  ultimately show ?thesis using assms(2) by (auto dest: less_asym)
qed

lemma resource_kinds_le: "k \<in> set resource_kinds \<longleftrightarrow> k \<le> KStorageBucket"
  by (cases k) (simp_all add: resource_kinds_def less_eq_kind_def)

lemma list_all_quiet_own: "list_all quiet es \<Longrightarrow> list_all (\<lambda>e. \<not> own_create e) es"
  by (simp add: list_all_iff quiet_calm calm_no_own_create)

lemma created_at:
  fixes S :: "'w services" and s :: "'w st"
  assumes "events (Reconcile S ns n :: ('w, 'r, answer) go) s = us @ EvCreate Mgmt x c # vs"
  obtains u kb k ka before e after u' ann pre where
    "outcome (fetchUniverse S ns n) s = Next u" and "resource_kinds = kb @ k # ka"
    and "status_keeps S \<longrightarrow> templates k (uSpec u) = before @ e # after"
    and "all_seen S kb u us" and "seen k before us" and "us = pre @ [asked_for Mgmt x]"
    and "list_all (\<lambda>e. \<not> own_create e) us"
    and "x = controlled S u' (new_resource k u' e ann)" and "keeps S u u'" and "ann = None \<or> ann = Annotations e"
    and "case c of Some err \<Rightarrow> vs = [] \<and> outcome (Reconcile S ns n :: ('w, 'r, answer) go) s = Next (no_requeue, Some err)
       | None \<Rightarrow> (\<exists>v q. vs = [EvStatusUniverse v q]) \<and> outcome (Reconcile S ns n :: ('w, 'r, answer) go) s = Next (requeue, None)"
proof -
  have own: "EvCreate Mgmt x c \<in> set (events (Reconcile S ns n :: ('w, 'r, answer) go) s)" using assms by simp
  note fetched = emits_fetch [of S ns n, unfolded emits_def, rule_format, of _ s]
  have no_fetch: "list_all (\<lambda>e. \<not> own_create e) (events (fetchUniverse S ns n) s)"
    by (rule list_all_quiet_own) (simp add: list_all_iff fetched)
  show thesis
  proof (cases rule: reconcile_cases [where S = S and ns = ns and n = n and s = s, where ?'r = 'r])
    case not_fetched
    with own show ?thesis by (auto simp: list_all_iff)
  next
    case stuck
    with own have "calm (EvCreate Mgmt x c)" unfolding list_all_iff by blast
    then show ?thesis by (auto dest: calm_no_own_create)
  next
    case (in_place u v es es')
    with own no_fetch have "calm (EvCreate Mgmt x c) \<or> late S v (EvCreate Mgmt x c)" by (auto simp: list_all_iff)
    then show ?thesis by (auto dest: calm_no_own_create late_no_own_create)
  next
    case (created u es r)
    then obtain kb k ka before e after pre post where st: "resource_kinds = kb @ k # ka"
      "status_keeps S \<longrightarrow> templates k (uSpec u) = before @ e # after"
      "es = pre @ post" "list_all calm pre" "all_seen S kb u pre" "seen k before pre" "creation S k e u post r"
      unfolding stops_def by blast
    from st(7) obtain u' ann d where cr: "keeps S u u'" "ann = None \<or> ann = Annotations e"
      "case d of Some err \<Rightarrow> post = [asked_for Mgmt (controlled S u' (new_resource k u' e ann)),
            EvCreate Mgmt (controlled S u' (new_resource k u' e ann)) (Some err)] \<and> r = (no_requeue, Some err)
      | None \<Rightarrow> (\<exists>v q. post = [asked_for Mgmt (controlled S u' (new_resource k u' e ann)),
            EvCreate Mgmt (controlled S u' (new_resource k u' e ann)) None, EvStatusUniverse v q]) \<and> r = (requeue, None)"
      unfolding creation_def Let_def by blast
    let ?x = "controlled S u' (new_resource k u' e ann)"
    let ?pre = "events (fetchUniverse S ns n) s @ pre @ [asked_for Mgmt ?x]"
    obtain tl where tl: "post = asked_for Mgmt ?x # EvCreate Mgmt ?x d # tl"
      "case d of Some err \<Rightarrow> tl = [] \<and> r = (no_requeue, Some err) | None \<Rightarrow> (\<exists>v q. tl = [EvStatusUniverse v q]) \<and> r = (requeue, None)"
      using cr(3) by (cases d) auto
    have "?pre @ EvCreate Mgmt ?x d # tl = us @ EvCreate Mgmt x c # vs"
      using created(2) st(3) tl(1) assms by simp
    moreover have pre: "list_all (\<lambda>e. \<not> own_create e) ?pre"
      using no_fetch all_calm_no_own_create [OF st(4)] by (simp add: asked_for_def own_create_def)
    moreover have "list_all (\<lambda>e. \<not> own_create e) tl"
      using tl(2) by (cases d) (auto simp: own_create_def)
    ultimately have eq: "us = ?pre" "EvCreate Mgmt x c = EvCreate Mgmt ?x d" "vs = tl"
      using split_unique [of ?pre "EvCreate Mgmt ?x d" tl us "EvCreate Mgmt x c" vs own_create] by auto
    have "all_seen S kb u us" "seen k before us"
      unfolding eq(1) using st(5,6) all_seen_append [of S kb u] by (simp_all add: seen_append)
    moreover have "us = (events (fetchUniverse S ns n) s @ pre) @ [asked_for Mgmt x]"
      using eq(1,2) by simp
    moreover have "x = ?x" "c = d" using eq(2) by simp_all
    ultimately show ?thesis
      using that [OF created(1) st(1,2) _ _ _ _ _ cr(1,2)] pre eq(1,3) tl(2) created(4) by (auto split: option.splits)
  qed
qed

section \<open>Properties\<close>

text \<open>
  C3. A reconciliation creates at most one resource in the management cluster.  When the create
  fails it is the last thing the reconciliation does, and its error is returned; when it succeeds
  one status update follows and the reconciliation asks to be called again.
\<close>

theorem one_create_per_reconcile:
  assumes "events (Reconcile S ns n :: ('w, 'r, answer) go) s = us @ EvCreate Mgmt x c # vs"
  shows "list_all (\<lambda>e. \<not> own_create e) (us @ vs) \<and>
    (case c of
       Some err \<Rightarrow> vs = [] \<and> outcome (Reconcile S ns n :: ('w, 'r, answer) go) s = Next (no_requeue, Some err)
     | None \<Rightarrow> (\<exists>v q. vs = [EvStatusUniverse v q]) \<and>
         outcome (Reconcile S ns n :: ('w, 'r, answer) go) s = Next (requeue, None))"
  by (rule created_at [OF assms]) (cases c; auto simp: own_create_def)

lemma create_position:
  assumes "status_keeps S" and "events (Reconcile S ns n :: ('w, 'r, answer) go) s = us @ EvCreate Mgmt x c # vs"
  shows "\<exists>u before e after ann pre. outcome (fetchUniverse S ns n) s = Next u \<and>
    templates (rKind x) (uSpec u) = before @ e # after \<and> rKind x \<le> KStorageBucket \<and>
    x = controlled S u (new_resource (rKind x) u e ann) \<and> (ann = None \<or> ann = Annotations e) \<and>
    us = pre @ [asked_for Mgmt x] \<and> seen (rKind x) before us \<and>
    (\<forall>k. k < rKind x \<longrightarrow> seen k (templates k (uSpec u)) us)"
proof (rule created_at [OF assms(2)])
  fix u kb k ka before e after u' ann pre
  assume *: "outcome (fetchUniverse S ns n) s = Next u" "resource_kinds = kb @ k # ka"
    "status_keeps S \<longrightarrow> templates k (uSpec u) = before @ e # after" "all_seen S kb u us" "seen k before us"
    "us = pre @ [asked_for Mgmt x]" "x = controlled S u' (new_resource k u' e ann)" "keeps S u u'"
    "ann = None \<or> ann = Annotations e"
  have k: "rKind x = k" using *(7) by simp
  have "new_resource k u' e ann = new_resource k u e ann" and "controlled S u' y = controlled S u y" for y
    using *(8) assms(1) by (auto simp: keeps_def same_universe_spec_def new_resource_def controlled_def)
  then have x: "x = controlled S u (new_resource k u e ann)" using *(7) by simp
  have seen: "\<forall>k'. k' < k \<longrightarrow> seen k' (templates k' (uSpec u)) us"
    using *(4) assms(1) earlier_kinds [OF *(2)] by (auto simp: all_seen_def)
  have le: "k \<le> KStorageBucket" unfolding resource_kinds_le [symmetric] *(2) by simp
  show ?thesis
    unfolding k using * x seen le assms(1) by blast
qed

text \<open>
  C1. What is created, and when: the resource of a template of the fetched Universe that a get has
  just answered NotFound for, with the template's key and specification, the Universe's label and
  the controller reference; and by then every template of every earlier kind, and every earlier
  template of the same kind, has been got and was there (or its get failed with an error other than
  NotFound).  The API server is taken to answer a status update with the object as it is stored.
\<close>

theorem creates_in_order:
  assumes "status_keeps S" and "events (Reconcile S ns n :: ('w, 'r, answer) go) s = us @ EvCreate Mgmt x c # vs"
  shows "\<exists>u before e after ann pre. outcome (fetchUniverse S ns n) s = Next u \<and>
    templates (rKind x) (uSpec u) = before @ e # after \<and> rKind x \<le> KStorageBucket \<and>
    x = controlled S u (new_resource (rKind x) u e ann) \<and> (ann = None \<or> ann = Annotations e) \<and>
    us = pre @ [asked_for Mgmt x] \<and> seen (rKind x) before us \<and>
    (\<forall>k. k < rKind x \<longrightarrow> seen k (templates k (uSpec u)) us)"
  by (rule create_position [OF assms])

text \<open>A Universe that asks for a network and a cluster in it, and nothing there yet.\<close>

definition demo_template :: TemplateSpec where
  "demo_template = \<lparr> Name = ''shop-7'', Namespace = ''apps'', Labels = None, Annotations = None,
     Spec = [(''Location'', VStr region)] \<rparr>"

definition demo_universe :: Universe where
  "demo_universe = zero_Universe\<lparr>Name := ''shop-7'', Namespace := ''apps'', Generation := 1,
     uSpec := zero_UniverseSpec\<lparr>ProjectID := ''apps'', TTL := 86400,
       uCompute := (uCompute zero_UniverseSpec)\<lparr>ComputeNetworks := [demo_template]\<rparr>,
       uContainer := (uContainer zero_UniverseSpec)\<lparr>ContainerClusters := [demo_template]\<rparr>\<rparr>\<rparr>"

definition demo_network :: resource where
  "demo_network = (zero_resource KComputeNetwork)\<lparr>Name := ''shop-7'', Namespace := ''apps'',
     Labels := getLabelSelector ''shop-7'', Controller := Some (''Universe'', ''shop-7''),
     rSpec := [(''Location'', VStr region)]\<rparr>"

lemma find_holds: "find p xs = Some x \<Longrightarrow> p x"
  by (auto simp: find_Some_iff)

lemma demo_keeps: "status_keeps demo_services" "update_keeps demo_services"
  by (auto simp: status_keeps_def update_keeps_def same_universe_spec_def demo_services_def demo_put_status_def
      demo_put_universe_def same_universe_def split: option.splits if_splits dest!: find_holds)

abbreviation demo_run :: "(demo, unit, answer) go" where
  "demo_run \<equiv> Reconcile demo_services ''apps'' ''shop-7''"

abbreviation demo_start :: "demo st" where
  "demo_start \<equiv> demo_state (demo_world\<lparr>dUniverses := [demo_universe]\<rparr>)"

definition demo_creating :: Universe where
  "demo_creating = setResources [entry ''ComputeNetwork'' CreatingStatus ''shop-7''] demo_universe
     \<lparr>uStatus := (uStatus demo_universe)\<lparr>Resources := [entry ''ComputeNetwork'' ''shop-7'' CreatingStatus]\<rparr>\<rparr>"

lemma demo_events: "events demo_run demo_start =
    [EvGetUniverse ''apps'' ''shop-7'' None, EvList Mgmt KIAMServiceAccount [] [(''universe'', ''shop-7'')] None,
     asked_for Mgmt demo_network] @ EvCreate Mgmt demo_network None # [EvStatusUniverse demo_creating None]"
  by code_simp

theorem one_create_per_reconcile_witness:
  "outcome demo_run demo_start = Next (requeue, None)"
  using one_create_per_reconcile [OF demo_events] by simp

theorem creates_in_order_witness:
  "\<exists>u before e after. outcome (fetchUniverse demo_services ''apps'' ''shop-7'') demo_start = Next u \<and>
     templates KComputeNetwork (uSpec u) = before @ e # after"
  using creates_in_order [OF demo_keeps(1) demo_events] by (auto simp: demo_network_def zero_resource_def)

lemma late_position:
  "xs @ ys = us @ e # vs \<Longrightarrow> e \<notin> set xs \<Longrightarrow> \<exists>p. us = xs @ p \<and> ys = p @ e # vs"
  by (induction xs arbitrary: us) (auto simp: Cons_eq_append_conv)

lemma creation_events: "creation S k t u es r \<Longrightarrow> list_all (\<lambda>e. calm e \<or> own_create e) es"
  by (auto simp: creation_def Let_def asked_for_def calm_def own_create_def split: option.splits)

lemma late_event:
  fixes S :: "'w services"
  assumes run: "events (Reconcile S ns n :: ('w, 'r, answer) go) s = us @ e # vs"
    and e: "\<not> calm e" "\<not> own_create e"
  obtains u v where "outcome (fetchUniverse S ns n) s = Next u" and "outcome (resourcesOf S ns n) s = Next v"
    and "all_seen S resource_kinds u us"
    and "keeps S u v" and "late S v e" and "list_all (\<lambda>e. \<not> own_create e) (us @ vs)"
proof -
  let ?run = "Reconcile S ns n :: ('w, 'r, answer) go" and ?fetch = "events (fetchUniverse S ns n) s"
  have mem: "e \<in> set (events ?run s)" using run by simp
  have quiet: "list_all quiet ?fetch"
    using emits_fetch [of S ns n] by (simp add: emits_def list_all_iff)
  then have nf: "e \<notin> set ?fetch" using e(1) by (auto simp: list_all_iff dest: quiet_calm)
  show thesis
  proof (cases rule: reconcile_cases [where S = S and ns = ns and n = n and s = s, where ?'r = 'r])
    case not_fetched
    with mem e(1) quiet_calm show ?thesis unfolding list_all_iff by blast
  next
    case stuck
    with mem e(1) show ?thesis unfolding list_all_iff by blast
  next
    case (created u es r)
    then obtain kb k ka before t after pre post where st: "es = pre @ post" "list_all calm pre" "creation S k t u post r"
      unfolding stops_def by blast
    have "e \<notin> set post" using creation_events [OF st(3)] e by (auto simp: list_all_iff)
    moreover have "e \<notin> set pre" using st(2) e(1) unfolding list_all_iff by blast
    ultimately have False using st(1) mem nf created(2) by simp
    then show ?thesis ..
  next
    case (in_place u v es es')
    have "(?fetch @ es) @ es' = us @ e # vs" using run in_place(2) by simp
    moreover have "e \<notin> set (?fetch @ es)" using in_place(3) e(1) nf by (auto simp: list_all_iff)
    ultimately obtain p where p: "us = (?fetch @ es) @ p" "es' = p @ e # vs"
      using late_position [of "?fetch @ es" es' us e vs] by auto
    have "list_all (\<lambda>e. \<not> own_create e) (us @ vs)"
      using in_place(6) all_calm_no_own_create [OF in_place(3)] list_all_quiet_own [OF quiet] p
      by (auto simp: list_all_iff dest: late_no_own_create)
    moreover have "all_seen S resource_kinds u us"
      unfolding p(1) by (intro all_seen_append(1) all_seen_append(2) in_place(4))
    moreover have "late S v e" using in_place(6) p(2) by simp
    ultimately show ?thesis using in_place(1,5,7) that by blast
  qed
qed


definition demo_deleted :: Universe where
  "demo_deleted = zero_Universe\<lparr>Name := ''shop-7'', Namespace := ''apps'', DeletionTimestamp := Some 100,
     Finalizers := [universeFinalizer]\<rparr>"

lemma gke_demo_keeps: "status_keeps gke_demo" "update_keeps gke_demo"
  using demo_keeps by (simp_all add: status_keeps_def update_keeps_def gke_demo_def)

abbreviation deleted_start :: "demo st" where
  "deleted_start \<equiv> demo_state (demo_world\<lparr>dUniverses := [demo_deleted]\<rparr>)"

lemma demo_deleted_events: "\<exists>us vs. events (Reconcile gke_demo ''apps'' ''shop-7'' :: (demo, unit, answer) go) deleted_start =
    us @ EvUpdateUniverse (demo_deleted\<lparr>Finalizers := []\<rparr>) None # vs"
proof -
  have "EvUpdateUniverse (demo_deleted\<lparr>Finalizers := []\<rparr>) None \<in>
      set (events (Reconcile gke_demo ''apps'' ''shop-7'' :: (demo, unit, answer) go) deleted_start)"
    by code_simp
  then show ?thesis by (simp add: in_set_conv_decomp)
qed


section \<open>The time to live\<close>

lemma sint_of_small: "- (2 ^ 63) \<le> i \<Longrightarrow> i < 2 ^ 63 \<Longrightarrow> sint (word_of_int i :: 64 word) = i"
  by (simp add: sint_sbintrunc' signed_take_bit_int_eq_self_iff)

lemma sint_range: "- (2 ^ 63) \<le> sint (w :: 64 word)" "sint (w :: 64 word) < 2 ^ 63"
  using sint_ge [of w] sint_lt [of w] by simp_all

lemma sint_Second: "sint (Second t) = t mod 60"
  unfolding Second_def by (rule sint_of_small) (auto intro: order_trans [of _ 0] less_trans [of _ 60])

lemma Second_range: "0 \<le> t mod 60" "t mod 60 < (60 :: int)"
  by simp_all

text \<open>The sum, as it comes out in 64 bits.\<close>

lemma sint_Second_plus:
  "sint (Second c + w) = (if c mod 60 + sint w < 2 ^ 63 then c mod 60 + sint w else c mod 60 + sint w - 2 ^ 64)"
proof -
  have sum: "Second c + w = word_of_int (c mod 60 + sint w)" by (simp add: Second_def)
  note r = sint_range [of w] Second_range [of c]
  show ?thesis
  proof (cases "c mod 60 + sint w < 2 ^ 63")
    case True
    with r show ?thesis unfolding sum by (subst sint_of_small) auto
  next
    case False
    have "(word_of_int (c mod 60 + sint w) :: 64 word) = word_of_int (c mod 60 + sint w - 2 ^ 64)"
      by (simp add: word_of_int_eq_iff take_bit_eq_mod)
    with False r show ?thesis unfolding sum by (simp only: if_False) (subst sint_of_small, auto)
  qed
qed

lemma ttl_reached_iff:
  "ttl_reached u t = (let d = CreationTimestamp u mod 60 + sint (TTL (uSpec u)) in 2 ^ 63 \<le> d \<or> d < t mod 60)"
proof -
  have over: "d - 2 ^ 64 < t mod 60" if "d < 2 ^ 63 + 60" for d :: int
    using that Second_range [of t] by simp
  show ?thesis
    unfolding ttl_reached_def sint_Second_plus sint_Second Let_def
    using over [of "CreationTimestamp u mod 60 + sint (TTL (uSpec u))"] sint_range [of "TTL (uSpec u)"]
      Second_range [of "CreationTimestamp u"] by auto
qed

text \<open>
  C19. What the check of the time to live compares: not times but seconds within a minute.  With
  \<open>c\<close> the creation's and \<open>n\<close> the current second within its minute, the Universe is deleted when
  \<open>c + TTL < n\<close>, and when \<open>c + TTL\<close> overflows.  Its age plays no part: two checks a whole number of
  minutes apart decide alike.
\<close>

theorem ttl_compares_seconds:
  "ttl_reached u t = (let d = CreationTimestamp u mod 60 + sint (TTL (uSpec u)) in 2 ^ 63 \<le> d \<or> d < t mod 60) \<and>
   ttl_reached u (t + 60 * m) = ttl_reached u t"
  by (simp add: ttl_reached_iff)

text \<open>
  C16. A Universe whose time to live is at least 59 (seconds, hours or days were meant) and does not
  overflow is never deleted by a reconciliation, whatever its age; a Universe made for a pull
  request has 86400.
\<close>

theorem ttl_never_reached:
  assumes "status_keeps S" and "update_keeps S" and "outcome (fetchUniverse S ns n) s = Next u"
    and "59 \<le> sint (TTL (uSpec u))" and "sint (TTL (uSpec u)) \<le> 2 ^ 63 - 60"
  shows "EvDeleteUniverse a b r \<notin> set (events (Reconcile S ns n :: ('w, 'r, answer) go) s)"
proof
  let ?e = "EvDeleteUniverse a b r"
  assume "?e \<in> set (events (Reconcile S ns n :: ('w, 'r, answer) go) s)"
  then obtain us vs where run: "events (Reconcile S ns n :: ('w, 'r, answer) go) s = us @ ?e # vs"
    by (auto simp: in_set_conv_decomp)
  show False
  proof (rule late_event [OF run])
    show "\<not> calm ?e" "\<not> own_create ?e" by (simp_all add: calm_def own_create_def)
    fix u' v
    assume *: "outcome (fetchUniverse S ns n) s = Next u'" "keeps S u' v" "late S v ?e"
    then obtain x t where x: "ttl_reached x t" "same_universe_spec v x" using assms(2) by (auto simp: late_def)
    moreover have "u' = u" using *(1) assms(3) by simp
    ultimately have "TTL (uSpec x) = TTL (uSpec u)" using *(2) assms(1) by (simp add: keeps_def same_universe_spec_def)
    with x(1) ttl_reached_iff [of x t] assms(4,5) Second_range [of t] Second_range [of "CreationTimestamp x"]
    show False by (simp add: Let_def)
  qed
qed

theorem ttl_never_reached_witness:
  "EvDeleteUniverse ''apps'' ''shop-7'' None \<notin> set (events demo_run demo_start)"
proof (rule ttl_never_reached [OF demo_keeps])
  show "outcome (fetchUniverse demo_services ''apps'' ''shop-7'') demo_start = Next demo_universe" by code_simp
qed (simp_all add: demo_universe_def)

end
