(* ===== verification/UniverseSync.thy ===== *)
theory UniverseSync
  imports UniverseReconcile
begin

text \<open>
  What the sections of \<open>UniverseReconciler.Reconcile\<close> do to resources that are already there: what a
  sync writes, what status it leaves, and which resources the clean-up at the end of a section
  deletes.

  \<open>owned_fields\<close> is the specification of the sync: the fields of a kind that follow the template;
  every other field is left to the object.  \<open>victims\<close> is the specification of the clean-up, \<open>recorded\<close>
  that of the name under which a section records a resource as healthy.
\<close>

section \<open>The sync of a kind\<close>

text \<open>The body of a section's loop, by kind.\<close>

fun sync_of :: "'w services \<Rightarrow> kind \<Rightarrow> TemplateSpec \<Rightarrow> Universe \<Rightarrow> ('w, answer, Universe) go" where
  "sync_of S KIAMServiceAccount = syncIAMServiceAccounts S"
| "sync_of S KComputeNetwork = syncComputeNetworks S"
| "sync_of S KComputeSubnetwork = syncComputeSubnetworks S"
| "sync_of S KContainerCluster = syncContainerClusters S"
| "sync_of S KContainerNodePool = syncContainerNodePools S"
| "sync_of S KSQLInstance = syncSQLInstances S"
| "sync_of S KSQLDatabase = syncSQLDatabases S"
| "sync_of S KComputeRouter = syncComputeRouters S"
| "sync_of S KComputeRouterNAT = syncComputeRouterNATs S"
| "sync_of S KStorageBucket = syncStorageBuckets S"
| "sync_of S _ = (\<lambda>e u. ret u)"

text \<open>
  Networks and subnetworks take everything but their immutable fields, the other kinds the fields named.
  The names are written out, independently of the lists the model's own sections copy.
\<close>

fun owned_fields :: "kind \<Rightarrow> string \<Rightarrow> bool" where
  "owned_fields KIAMServiceAccount f = (f \<in> {''Description'', ''Disabled'', ''DisplayName''})"
| "owned_fields KComputeNetwork f = (f \<notin> {''ResourceID'', ''Description''})"
| "owned_fields KComputeSubnetwork f = (f \<notin> {''ResourceID'', ''Description'', ''Purpose''})"
| "owned_fields KContainerCluster f =
     (f \<in> {''AddonsConfig'', ''ClusterAutoscaling'', ''ClusterTelemetry'', ''DatabaseEncryption'',
       ''DatapathProvider'', ''DefaultSnatStatus'', ''EnableBinaryAuthorization'',
       ''EnableIntranodeVisibility'', ''EnableL4IlbSubsetting'', ''EnableLegacyAbac'',
       ''EnableShieldedNodes'', ''IdentityServiceConfig'', ''LoggingConfig'', ''LoggingService'',
       ''MaintenancePolicy'', ''MasterAuthorizedNetworksConfig'', ''MinMasterVersion'',
       ''MonitoringConfig'', ''MonitoringService'', ''NetworkPolicy'', ''NetworkRef'',
       ''NodeLocations'', ''NodeVersion'', ''NotificationConfig'', ''PrivateClusterConfig'',
       ''PrivateIpv6GoogleAccess'', ''ReleaseChannel'', ''ResourceUsageExportConfig'',
       ''SubnetworkRef'', ''VerticalPodAutoscaling'', ''WorkloadIdentityConfig''})"
| "owned_fields KContainerNodePool f =
     (f \<in> {''Autoscaling'', ''Management'', ''NodeCount'', ''NodeLocations'', ''UpgradeSettings'', ''Version''})"
| "owned_fields KSQLInstance f = (f \<in> {''EncryptionKMSCryptoKeyRef'', ''MasterInstanceRef'', ''ReplicaConfiguration'', ''Settings''})"
| "owned_fields KSQLDatabase f = (f \<in> {''Charset'', ''Collation''})"
| "owned_fields KComputeRouter f = (f \<in> {''Bgp'', ''Description'', ''NetworkRef''})"
| "owned_fields KComputeRouterNAT f =
     (f \<in> {''DrainNatIps'', ''EnableDynamicPortAllocation'', ''EnableEndpointIndependentMapping'',
       ''IcmpIdleTimeoutSec'', ''LogConfig'', ''MinPortsPerVm'', ''NatIpAllocateOption'',
       ''NatIps'', ''RouterRef'', ''SourceSubnetworkIpRangesToNat'', ''Subnetwork'',
       ''TcpEstablishedIdleTimeoutSec'', ''TcpTransitoryIdleTimeoutSec'', ''UdpIdleTimeoutSec''})"
| "owned_fields KStorageBucket f =
     (f \<in> {''BucketPolicyOnly'', ''Cors'', ''DefaultEventBasedHold'', ''Encryption'',
       ''LifecycleRule'', ''Logging'', ''PublicAccessPrevention'', ''RequesterPays'',
       ''RetentionPolicy'', ''StorageClass'', ''UniformBucketLevelAccess'', ''Versioning'',
       ''Website''})"
| "owned_fields _ f = False"

lemma owned_lists:
  "owned_fields KContainerCluster f = (f \<in> set cluster_fields)"
  "owned_fields KComputeRouterNAT f = (f \<in> set router_nat_fields)"
  "owned_fields KStorageBucket f = (f \<in> set bucket_fields)"
  by (simp_all only: owned_fields.simps cluster_fields_def router_nat_fields_def bucket_fields_def list.set)

definition merged :: "kind \<Rightarrow> TemplateSpec \<Rightarrow> resource \<Rightarrow> resource \<Rightarrow> bool" where
  "merged k e found x = (Name x = Name found \<and> Namespace x = Namespace found \<and> rKind x = rKind found \<and>
     Labels x = Labels found \<and> Controller x = Controller found \<and>
     (\<forall>f. fget (rSpec x) f = (if owned_fields k f then fget (Spec e) f else fget (rSpec found) f)))"

text \<open>What a sync may send: nothing to the management cluster but the merged object, and only when it is needed.\<close>

definition sends :: "kind \<Rightarrow> TemplateSpec \<Rightarrow> Universe \<Rightarrow> resource \<Rightarrow> event \<Rightarrow> bool" where
  "sends k e u found ev = (far ev \<or> (\<exists>x q. ev = EvUpdate Mgmt x q \<and> needs_sync u \<and> merged k e found x))"

lemma sat_far_sends: "sat far V R m \<Longrightarrow> sat (sends k e u found) V R m"
  by (erule sat_weaken) (simp_all add: sends_def)

lemma sat_sends_update:
  "needs_sync u \<Longrightarrow> merged k e found x \<Longrightarrow> sat (sends k e u found) (\<lambda>_. True) R (update_found S x)"
  unfolding update_found_def k_update_def
  by (intro sat_any) (auto simp: sends_def)

lemmas sat_sends = far_set_status [THEN sat_far_sends] far_setUpCluster [THEN sat_far_sends] far_waits [THEN sat_far_sends]

lemma merged_update:
  "rSpec x = fcopy_all fs (Spec e) (rSpec found) \<Longrightarrow> (\<And>f. owned_fields k f = (f \<in> set fs)) \<Longrightarrow>
    Name x = Name found \<Longrightarrow> Namespace x = Namespace found \<Longrightarrow> rKind x = rKind found \<Longrightarrow>
    Labels x = Labels found \<Longrightarrow> Controller x = Controller found \<Longrightarrow> merged k e found x"
  "rSpec x = fcopy_all fs (rSpec found) (Spec e) \<Longrightarrow> (\<And>f. owned_fields k f = (f \<notin> set fs)) \<Longrightarrow>
    Name x = Name found \<Longrightarrow> Namespace x = Namespace found \<Longrightarrow> rKind x = rKind found \<Longrightarrow>
    Labels x = Labels found \<Longrightarrow> Controller x = Controller found \<Longrightarrow> merged k e found x"
  by (simp_all add: merged_def fget_fcopy_all)

text \<open>The three shapes of the statement after the get.\<close>

lemma sends_sync_only:
  assumes "needs_sync u \<Longrightarrow> merged k e found upd"
  shows "sat (sends k e u found) (\<lambda>_. True) R (bnd (if needs_sync u then
      bnd (set_status S a u p n) (\<lambda>v. bnd (update_found S upd) (\<lambda>_. ret v)) else ret u) (\<lambda>v.
      set_status S b v q m))"
  by (rule sat_bnd_any, rule sat_if, rule sat_bnd_any, rule sat_sends, rule sat_bnd_any, rule sat_sends_update,
      assumption, erule assms, rule sat_ret, simp, rule sat_ret, simp, rule sat_sends)

lemma sends_wait_sync:
  assumes "sat far (\<lambda>_. True) R w" and "needs_sync u \<Longrightarrow> merged k e found upd"
  shows "sat (sends k e u found) (\<lambda>_. True) R (bnd w (\<lambda>err.
      bnd (if needs_sync u then update_found S upd else ret y) (\<lambda>f. set_status S b u q (m f))))"
  by (rule sat_bnd_any, rule sat_far_sends [OF assms(1)], rule sat_bnd_any, rule sat_if, rule sat_sends_update,
      assumption, erule assms(2), rule sat_ret, simp, rule sat_sends)

lemma sends_sync_wait:
  assumes "\<And>f. sat far (\<lambda>_. True) R (wait f)" and "\<And>v f. sat far (\<lambda>_. True) R (fin v f)"
    and "needs_sync u \<Longrightarrow> merged k e found upd"
  shows "sat (sends k e u found) (\<lambda>_. True) R (bnd (if needs_sync u then
        bnd (set_status S a u p n) (\<lambda>v. bnd (update_found S upd) (\<lambda>f. ret (v, f))) else ret (u, y)) (\<lambda>(v, f).
      bnd (wait f) (\<lambda>err. fin v f)))"
  by (rule sat_bnd_any, rule sat_if, rule sat_bnd_any, rule sat_sends, rule sat_bnd_any, rule sat_sends_update,
      assumption, erule assms(3), rule sat_ret, simp, rule sat_ret, simp, rule sat_case_prod, rule sat_bnd_any,
      rule sat_far_sends [OF assms(1)], rule sat_far_sends [OF assms(2)])

text \<open>From there to the whole body.\<close>

lemma sends_body:
  fixes S :: "'w services" and m :: "('w, answer, Universe) go"
  assumes sync: "m = bnd (k_get S Mgmt k (Namespace e) (Name e)) (\<lambda>r.
      if IsNotFound (err_of r) then create_new S k rt u e ann sn else rest r)"
    and rest: "\<And>r. sat (sends k e u (found_or_zero k r)) (\<lambda>_. True) (\<lambda>_. True) (rest r)"
    and mem: "EvUpdate Mgmt x q \<in> set (events m s)"
  shows "needs_sync u \<and> merged k e (found_or_zero k (fst (svc_get S Mgmt k (Namespace e) (Name e) (world s)))) x"
proof -
  let ?r = "fst (svc_get S Mgmt k (Namespace e) (Name e) (world s))"
  let ?s = "s\<lparr>world := snd (svc_get S Mgmt k (Namespace e) (Name e) (world s))\<rparr>"
  have create: "emits (\<lambda>ev. \<forall>x q. ev \<noteq> EvUpdate Mgmt x q) (create_new S k rt u e ann sn :: ('w, answer, Universe) go)"
  proof -
    have "emits (\<lambda>ev. \<forall>x q. ev \<noteq> EvUpdate Mgmt x q) (set_status S rt u p n :: ('w, answer, Universe) go)" for p n
      unfolding set_status_def by (intro emits_intros) simp
    then show ?thesis unfolding create_new_def by (intro emits_intros) simp_all
  qed
  show ?thesis
  proof (cases "IsNotFound (err_of ?r)")
    case True
    with mem have "EvUpdate Mgmt x q \<in> set (events (create_new S k rt u e ann sn :: ('w, answer, Universe) go) ?s)"
      unfolding sync by (simp add: k_get_def events_ask)
    from emitsD [OF create this] show ?thesis by simp
  next
    case False
    with mem have "EvUpdate Mgmt x q \<in> set (events (rest ?r) ?s)"
      unfolding sync by (simp add: k_get_def events_ask)
    from satD_event [OF rest this] show ?thesis by (auto simp: sends_def)
  qed
qed

lemma sync_of_cases:
  "k \<le> KStorageBucket \<Longrightarrow> P KIAMServiceAccount \<Longrightarrow> P KComputeNetwork \<Longrightarrow> P KComputeSubnetwork \<Longrightarrow>
    P KContainerCluster \<Longrightarrow> P KContainerNodePool \<Longrightarrow> P KSQLInstance \<Longrightarrow> P KSQLDatabase \<Longrightarrow> P KComputeRouter \<Longrightarrow>
    P KComputeRouterNAT \<Longrightarrow> P KStorageBucket \<Longrightarrow> P k"
  by (cases k) (simp_all add: less_eq_kind_def)

lemmas sync_defs = syncIAMServiceAccounts_def syncComputeNetworks_def syncComputeSubnetworks_def
  syncContainerClusters_def syncContainerNodePools_def syncSQLInstances_def syncSQLDatabases_def
  syncComputeRouters_def syncComputeRouterNATs_def syncStorageBuckets_def

lemma sends_iam:
  "EvUpdate Mgmt x q \<in> set (events (sync_of S KIAMServiceAccount e u) s) \<Longrightarrow>
    needs_sync u \<and> merged KIAMServiceAccount e (found_or_zero KIAMServiceAccount
      (fst (svc_get S Mgmt KIAMServiceAccount (Namespace e) (Name e) (world s)))) x"
  by (erule sends_body [rotated 2], simp only: sync_of.simps sync_defs Let_def, rule sends_sync_only, rule merged_update(1)) auto

lemma sends_networks:
  "EvUpdate Mgmt x q \<in> set (events (sync_of S KComputeNetwork e u) s) \<Longrightarrow>
    needs_sync u \<and> merged KComputeNetwork e (found_or_zero KComputeNetwork
      (fst (svc_get S Mgmt KComputeNetwork (Namespace e) (Name e) (world s)))) x"
  "EvUpdate Mgmt x q \<in> set (events (sync_of S KComputeSubnetwork e u) s) \<Longrightarrow>
    needs_sync u \<and> merged KComputeSubnetwork e (found_or_zero KComputeSubnetwork
      (fst (svc_get S Mgmt KComputeSubnetwork (Namespace e) (Name e) (world s)))) x"
  by (erule sends_body [rotated 2], simp only: sync_of.simps sync_defs Let_def, rule sends_wait_sync,
      rule far_waits, rule merged_update(2), simp, simp_all)+

lemma far_finish_cluster:
  "sat far (\<lambda>_. True) R (bnd (set_status S a v p n) (\<lambda>u. bnd (setUpCluster S u c) (\<lambda>_. ret u)))"
  by (rule sat_bnd_any, rule far_set_status, rule sat_bnd_any, rule far_setUpCluster, rule sat_ret, simp)

lemma sends_cluster:
  "EvUpdate Mgmt x q \<in> set (events (sync_of S KContainerCluster e u) s) \<Longrightarrow>
    needs_sync u \<and> merged KContainerCluster e (found_or_zero KContainerCluster
      (fst (svc_get S Mgmt KContainerCluster (Namespace e) (Name e) (world s)))) x"
  by (erule sends_body [rotated 2], simp only: sync_of.simps sync_defs Let_def, rule sends_sync_wait,
      rule far_waits, rule far_finish_cluster, rule merged_update(1),
      simp, rule owned_lists, simp_all)

lemma sends_others:
  "EvUpdate Mgmt x q \<in> set (events (sync_of S KContainerNodePool e u) s) \<Longrightarrow>
    needs_sync u \<and> merged KContainerNodePool e (found_or_zero KContainerNodePool
      (fst (svc_get S Mgmt KContainerNodePool (Namespace e) (Name e) (world s)))) x"
  "EvUpdate Mgmt x q \<in> set (events (sync_of S KSQLInstance e u) s) \<Longrightarrow>
    needs_sync u \<and> merged KSQLInstance e (found_or_zero KSQLInstance
      (fst (svc_get S Mgmt KSQLInstance (Namespace e) (Name e) (world s)))) x"
  "EvUpdate Mgmt x q \<in> set (events (sync_of S KSQLDatabase e u) s) \<Longrightarrow>
    needs_sync u \<and> merged KSQLDatabase e (found_or_zero KSQLDatabase
      (fst (svc_get S Mgmt KSQLDatabase (Namespace e) (Name e) (world s)))) x"
  "EvUpdate Mgmt x q \<in> set (events (sync_of S KComputeRouter e u) s) \<Longrightarrow>
    needs_sync u \<and> merged KComputeRouter e (found_or_zero KComputeRouter
      (fst (svc_get S Mgmt KComputeRouter (Namespace e) (Name e) (world s)))) x"
  "EvUpdate Mgmt x q \<in> set (events (sync_of S KComputeRouterNAT e u) s) \<Longrightarrow>
    needs_sync u \<and> merged KComputeRouterNAT e (found_or_zero KComputeRouterNAT
      (fst (svc_get S Mgmt KComputeRouterNAT (Namespace e) (Name e) (world s)))) x"
  "EvUpdate Mgmt x q \<in> set (events (sync_of S KStorageBucket e u) s) \<Longrightarrow>
    needs_sync u \<and> merged KStorageBucket e (found_or_zero KStorageBucket
      (fst (svc_get S Mgmt KStorageBucket (Namespace e) (Name e) (world s)))) x"
  by (erule sends_body [rotated 2], simp only: sync_of.simps sync_defs Let_def, rule sends_sync_wait,
      rule far_waits, rule far_set_status, rule merged_update(1), simp,
      (rule owned_lists | simp), simp, simp, simp, simp, simp)+

section \<open>What a section deletes\<close>

text \<open>The keys of the deletes among the events, in order.\<close>

fun deleted :: "event list \<Rightarrow> (kind \<times> string \<times> string) list" where
  "deleted [] = []"
| "deleted (EvDelete t k ns n r # es) = (k, ns, n) # deleted es"
| "deleted (e # es) = deleted es"

definition key_of :: "resource \<Rightarrow> kind \<times> string \<times> string" where
  "key_of x = (rKind x, Namespace x, Name x)"

text \<open>What \<open>Delete or scale to zero\<close> deletes, when it counts, compares with and goes over these lists.\<close>

definition victims :: "resource list \<Rightarrow> TemplateSpec list \<Rightarrow> resource list \<Rightarrow> TemplateSpec list \<Rightarrow> (kind \<times> string \<times> string) list" where
  "victims counted ts existing inSpec =
     (if length ts < length counted then map key_of (filter (\<lambda>x. Name x \<notin> Name ` set inSpec) existing) else [])"

lemma deleted_append [simp]: "deleted (xs @ ys) = deleted xs @ deleted ys"
  by (induction xs rule: deleted.induct) simp_all

lemma deleted_quiet: "list_all quiet es \<Longrightarrow> deleted es = []"
  by (induction es rule: deleted.induct) simp_all

lemma prune_loop:
  "outcome (foreach (\<lambda>x _. if Name x \<in> set (map Name inSpec) then ret ()
      else bnd (k_delete S Mgmt x) (\<lambda>_. ret ())) existing () :: ('w, 'r, unit) go) s = Next () \<and>
   deleted (events (foreach (\<lambda>x _. if Name x \<in> set (map Name inSpec) then ret ()
      else bnd (k_delete S Mgmt x) (\<lambda>_. ret ())) existing () :: ('w, 'r, unit) go) s) =
    map key_of (filter (\<lambda>x. Name x \<notin> Name ` set inSpec) existing)"
proof (induction existing arbitrary: s)
  case Nil
  show ?case by (simp add: run_defs)
next
  case (Cons x xs)
  show ?case
  proof (cases "Name x \<in> set (map Name inSpec)")
    case True
    with Cons show ?thesis by simp
  next
    case False
    with Cons [of "s\<lparr>world := snd (svc_delete S Mgmt x (world s))\<rparr>"] show ?thesis
      by (simp add: bnd_assoc k_delete_def outcome_ask events_ask key_of_def)
  qed
qed

lemma prune_run:
  "outcome (prune S counted ts existing inSpec :: ('w, 'r, unit) go) s = Next () \<and>
   deleted (events (prune S counted ts existing inSpec :: ('w, 'r, unit) go) s) = victims counted ts existing inSpec"
proof (cases "length ts < length counted")
  case True
  with prune_loop [of inSpec S existing s, where ?'r = 'r] show ?thesis
    by (simp add: prune_def victims_def)
qed (simp add: prune_def victims_def run_defs)

text \<open>
  A whole section: the loop deletes nothing, then what is listed at its end decides.
\<close>

context resource_section
begin

lemma section_deletes:
  fixes lister :: "Universe \<Rightarrow> ('w, answer, error + resource list) go"
  assumes run: "outcome (bnd (foreach sync ts u) (\<lambda>v. bnd (lister v) (\<lambda>l.
      bnd (prune S (counted v l) (tmpl v l) (existing v l) (inSpec v l)) (\<lambda>_. ret (x v l))))) s = Next y"
    and lister: "\<And>v. lister v = k_list S Mgmt k' ns (sel v)"
    and w: "w = world (final (foreach sync ts u) s)"
  obtains v where "y = x v (fst (svc_list S Mgmt k' ns (sel v) w))" and "keeps S u v"
    and "deleted (events (bnd (foreach sync ts u) (\<lambda>v. bnd (lister v) (\<lambda>l.
      bnd (prune S (counted v l) (tmpl v l) (existing v l) (inSpec v l)) (\<lambda>_. ret (x v l))))) s) =
     (let l = fst (svc_list S Mgmt k' ns (sel v) w) in victims (counted v l) (tmpl v l) (existing v l) (inSpec v l))"
proof (cases rule: loop_cases [of ts u s])
  case (creates before e after pre post r)
  with run show thesis by (auto simp: run_defs bnd_def split: prod.splits flow.splits)
next
  case goes_on
  obtain o1 es1 s1 where loop: "foreach sync ts u s = (o1, es1, s1)" by (cases "foreach sync ts u s") auto
  with run goes_on(2) obtain v where v: "o1 = Next v"
    by (cases o1) (auto simp: run_defs bnd_def)
  let ?r = "svc_list S Mgmt k' ns (sel v) (world s1)"
  let ?prune = "prune S (counted v (fst ?r)) (tmpl v (fst ?r)) (existing v (fst ?r)) (inSpec v (fst ?r)) :: ('w, answer, unit) go"
  have out: "outcome ?prune (s1\<lparr>world := snd ?r\<rparr>) = Next ()"
    and del: "deleted (events ?prune (s1\<lparr>world := snd ?r\<rparr>)) =
      victims (counted v (fst ?r)) (tmpl v (fst ?r)) (existing v (fst ?r)) (inSpec v (fst ?r))"
    using prune_run by blast+
  have loop': "outcome (foreach sync ts u) s = Next v" "final (foreach sync ts u) s = s1"
    using loop v by (simp_all add: run_defs)
  have "y = x v (fst ?r)"
    using run by (simp add: bnd_falls_through [OF loop'(1)] loop'(2) lister k_list_def outcome_ask
        bnd_falls_through [OF out]) (simp add: run_defs)
  moreover have w1: "w = world s1" unfolding w loop'(2) ..
  moreover have "keeps S u v" using goes_on(3) loop'(1) by blast
  moreover have "deleted (events (bnd (foreach sync ts u) (\<lambda>v. bnd (lister v) (\<lambda>l.
      bnd (prune S (counted v l) (tmpl v l) (existing v l) (inSpec v l)) (\<lambda>_. ret (x v l))))) s) =
    victims (counted v (fst ?r)) (tmpl v (fst ?r)) (existing v (fst ?r)) (inSpec v (fst ?r))"
    using deleted_quiet [OF goes_on(1)] del
    by (simp add: bnd_falls_through [OF loop'(1)] loop'(2) lister k_list_def events_ask bnd_falls_through [OF out])
      (simp add: run_defs)
  ultimately show thesis using that by (simp add: Let_def)
qed

end

text \<open>The sections by kind: those that go over their own list, and those that are given another.\<close>

fun own_section :: "'w services \<Rightarrow> kind \<Rightarrow> Universe \<Rightarrow> ('w, answer, Universe) go" where
  "own_section S KIAMServiceAccount u = reconcileIAMServiceAccounts S u"
| "own_section S KComputeNetwork u = bnd (reconcileComputeNetworks S u) (\<lambda>(u, nwList). ret u)"
| "own_section S KContainerCluster u = reconcileContainerClusters S u"
| "own_section S KContainerNodePool u = reconcileContainerNodePools S u"
| "own_section S KSQLInstance u = bnd (reconcileSQLInstances S u) (\<lambda>(u, sList). ret u)"
| "own_section S KComputeRouterNAT u = reconcileComputeRouterNATs S u"
| "own_section S KStorageBucket u = reconcileStorageBuckets S u"
| "own_section S _ u = ret u"

fun given_section :: "'w services \<Rightarrow> kind \<Rightarrow> resource list \<Rightarrow> Universe \<Rightarrow> ('w, answer, Universe) go" where
  "given_section S KComputeSubnetwork l u = reconcileComputeSubnetworks S l u"
| "given_section S KSQLDatabase l u = reconcileSQLDatabases S l u"
| "given_section S KComputeRouter l u = reconcileComputeRouters S l u"
| "given_section S _ l u = ret u"

text \<open>The world a section asks its list in: the one its loop ends in.\<close>

definition listing_world :: "'w services \<Rightarrow> kind \<Rightarrow> Universe \<Rightarrow> 'w st \<Rightarrow> 'w" where
  "listing_world S k u s = world (final (foreach (sync_of S k) (templates k (uSpec u)) u) s)"

definition listed :: "'w services \<Rightarrow> kind \<Rightarrow> Universe \<Rightarrow> 'w \<Rightarrow> resource list" where
  "listed S k v w = items_of (fst (svc_list S Mgmt k [] [(''universe'', Name v)] w))"

text \<open>The kind whose templates a section compares with: a NAT's section compares with the routers.\<close>

definition compared :: "kind \<Rightarrow> kind" where
  "compared k = (if k = KComputeRouterNAT then KComputeRouter else k)"

definition deletes_as :: "'w services \<Rightarrow> kind \<Rightarrow> (resource list \<Rightarrow> resource list) \<Rightarrow> ('w, answer, Universe) go \<Rightarrow>
    Universe \<Rightarrow> 'w st \<Rightarrow> Universe \<Rightarrow> bool" where
  "deletes_as S k pick m u s v = (let l = listed S k v (listing_world S k u s) in deleted (events m s) =
     victims l (templates k (uSpec v)) (pick l) (templates (compared k) (uSpec v)))"

lemma list_selector: "listForUniverse S k (getLabelSelector n) = k_list S Mgmt k [] [(''universe'', n)]"
  by (simp add: listForUniverse_def getLabelSelector_def entries_def)

lemma drop_list:
  "bnd (bnd m (\<lambda>v. bnd (lister v) (\<lambda>l. bnd (p v l) (\<lambda>_. ret (v, f l))))) (\<lambda>(v, l). ret v) =
    bnd m (\<lambda>v. bnd (lister v) (\<lambda>l. bnd (p v l) (\<lambda>_. ret v)))"
  by (simp only: bnd_assoc bnd_ret_left prod.case)

lemmas section_defs = reconcileIAMServiceAccounts_def reconcileComputeNetworks_def reconcileComputeSubnetworks_def
  reconcileContainerClusters_def reconcileContainerNodePools_def reconcileSQLInstances_def
  reconcileSQLDatabases_def reconcileComputeRouters_def reconcileComputeRouterNATs_def
  reconcileStorageBuckets_def

lemmas own_unfold = own_section.simps section_defs list_defs list_selector Let_def drop_list

lemma own_deletes:
  "outcome (own_section S KIAMServiceAccount u) s = Next y \<Longrightarrow> deletes_as S KIAMServiceAccount (\<lambda>l. l) (own_section S KIAMServiceAccount u) u s y"
  "outcome (own_section S KComputeNetwork u) s = Next y \<Longrightarrow> deletes_as S KComputeNetwork (\<lambda>l. l) (own_section S KComputeNetwork u) u s y"
  "outcome (own_section S KContainerCluster u) s = Next y \<Longrightarrow> deletes_as S KContainerCluster (\<lambda>l. l) (own_section S KContainerCluster u) u s y"
  "outcome (own_section S KContainerNodePool u) s = Next y \<Longrightarrow> deletes_as S KContainerNodePool (\<lambda>l. l) (own_section S KContainerNodePool u) u s y"
  "outcome (own_section S KSQLInstance u) s = Next y \<Longrightarrow> deletes_as S KSQLInstance (\<lambda>l. l) (own_section S KSQLInstance u) u s y"
  "outcome (own_section S KComputeRouterNAT u) s = Next y \<Longrightarrow> deletes_as S KComputeRouterNAT (\<lambda>l. l) (own_section S KComputeRouterNAT u) u s y"
  "outcome (own_section S KStorageBucket u) s = Next y \<Longrightarrow> deletes_as S KStorageBucket (\<lambda>l. l) (own_section S KStorageBucket u) u s y"
  unfolding own_unfold deletes_as_def listed_def compared_def listing_world_def sync_of.simps templates.simps
  by (erule iam.section_deletes network.section_deletes cluster.section_deletes node_pool.section_deletes
      sql_instance.section_deletes router_nat.section_deletes bucket.section_deletes, rule refl, rule refl, simp add: Let_def)+

lemma given_deletes:
  "outcome (given_section S KComputeSubnetwork l u) s = Next y \<Longrightarrow> deletes_as S KComputeSubnetwork (\<lambda>_. l) (given_section S KComputeSubnetwork l u) u s y"
  "outcome (given_section S KSQLDatabase l u) s = Next y \<Longrightarrow> deletes_as S KSQLDatabase (\<lambda>_. l) (given_section S KSQLDatabase l u) u s y"
  "outcome (given_section S KComputeRouter l u) s = Next y \<Longrightarrow> deletes_as S KComputeRouter (\<lambda>_. l) (given_section S KComputeRouter l u) u s y"
  unfolding own_unfold given_section.simps deletes_as_def listed_def compared_def listing_world_def sync_of.simps templates.simps
  by (erule subnetwork.section_deletes sql_database.section_deletes router.section_deletes,
      rule refl, rule refl, simp add: Let_def)+

text \<open>The sections that are given a list delete from it.\<close>

lemma given_section_deletes:
  assumes "k \<in> {KComputeSubnetwork, KSQLDatabase, KComputeRouter}"
    and "outcome (given_section S k l u) s = Next v"
  shows "deleted (events (given_section S k l u) s) =
    (if length (templates k (uSpec v)) < length (listed S k v (listing_world S k u s))
     then map key_of (filter (\<lambda>x. Name x \<notin> Name ` set (templates k (uSpec v))) l) else [])"
proof -
  have "deletes_as S k (\<lambda>_. l) (given_section S k l u) u s v"
    using assms given_deletes [of S l u s v] by auto
  then show ?thesis using assms(1) by (auto simp: deletes_as_def victims_def compared_def Let_def)
qed

section \<open>What a section records\<close>

text \<open>\<open>records a p n m\<close>: when \<open>m\<close> falls through it has sent the status \<open>p\<close> for the resource \<open>n\<close> under \<open>a\<close>.\<close>

definition records :: "string \<Rightarrow> string \<Rightarrow> string \<Rightarrow> ('w, 'r, 'a) go \<Rightarrow> bool" where
  "records a p n m = (\<forall>s x. outcome m s = Next x \<longrightarrow>
     (\<exists>v q. EvStatusUniverse v q \<in> set (events m s) \<and> status_of (Resources (uStatus v)) (a, n) = Some p))"

lemma recordsD:
  "records a p n m \<Longrightarrow> outcome m s = Next x \<Longrightarrow>
    \<exists>v q. EvStatusUniverse v q \<in> set (events m s) \<and> status_of (Resources (uStatus v)) (a, n) = Some p"
  by (simp add: records_def)

lemma records_status: "n = n' \<Longrightarrow> records a p n (set_status S a u p n')"
proof -
  have "status_of (Resources (uStatus (setResources (upsert a n p (Resources (uStatus u))) u))) (a, n) = Some p"
    by (simp add: setResources_def status_of_upsert)
  then show "n = n' \<Longrightarrow> ?thesis"
    by (auto simp: records_def set_status_def updateStatus_upsert statusUpdate_def u_status_def bnd_assoc events_ask)
qed

lemma records_bnd:
  assumes m: "sat (\<lambda>_. True) V (\<lambda>_. True) m" and f: "\<And>x. V x \<Longrightarrow> records a p n (f x)"
  shows "records a p n (bnd m f)"
  unfolding records_def
proof (intro allI impI)
  fix s y
  assume y: "outcome (bnd m f) s = Next y"
  then obtain x where x: "outcome m s = Next x" by (auto simp: run_defs bnd_def split: prod.splits flow.splits)
  with m have "V x" by (simp add: sat_def)
  from f [OF this] y show "\<exists>v q. EvStatusUniverse v q \<in> set (events (bnd m f) s) \<and>
      status_of (Resources (uStatus v)) (a, n) = Some p"
    unfolding records_def bnd_falls_through [OF x] set_append by blast
qed

lemma records_bnd_any: "(\<And>x. records a p n (f x)) \<Longrightarrow> records a p n (bnd m f)"
  by (rule records_bnd [of "\<lambda>_. True"]) (simp_all add: sat_def)

lemma records_first:
  assumes "records a p n m"
  shows "records a p n (bnd m f)"
  unfolding records_def
proof (intro allI impI)
  fix s y
  assume y: "outcome (bnd m f) s = Next y"
  then obtain x where x: "outcome m s = Next x" by (auto simp: run_defs bnd_def split: prod.splits flow.splits)
  with assms show "\<exists>v q. EvStatusUniverse v q \<in> set (events (bnd m f) s) \<and>
      status_of (Resources (uStatus v)) (a, n) = Some p"
    unfolding records_def bnd_falls_through [OF x] set_append by blast
qed

lemma records_create: "records a p n (create_new S k rt u e ann sn)"
  unfolding create_new_def
  by (auto simp: records_def run_defs bnd_def k_create_def ask_def split: prod.splits flow.splits sum.splits)

text \<open>What the API server answers to an update is the object that was sent, under its name.\<close>

definition updates_named :: "'w services \<Rightarrow> bool" where
  "updates_named S = (\<forall>t x w y. fst (svc_update S t x w) = Inr y \<longrightarrow> Name y = Name x)"

lemma update_named:
  assumes "updates_named S" and "Name x = n"
  shows "sat (\<lambda>_. True) (\<lambda>y. Name y = n) (\<lambda>_. True) (update_found S x)"
  unfolding update_found_def k_update_def
proof (rule sat_bnd [OF sat_ask_value], intro conjI TrueI)
  fix r w w'
  assume "svc_update S Mgmt x w = (r, w')"
  then have r: "fst (svc_update S Mgmt x w) = r" by simp
  with assms show "Name (case r of Inl err \<Rightarrow> x | Inr y \<Rightarrow> y) = n"
    by (auto simp: updates_named_def split: sum.splits)
qed (rule sat_ret)

text \<open>The three shapes after the get once more.\<close>

lemma records_sync_only: "n = m \<Longrightarrow> records a p n (bnd z (\<lambda>v. set_status S a v p m))"
  by (rule records_bnd_any, rule records_status)

lemma records_wait_sync:
  assumes "updates_named S" and "Name found = n" and "Name upd = n"
  shows "records a p n (bnd w (\<lambda>err. bnd (if b then update_found S upd else ret found) (\<lambda>f. set_status S a u p (Name f))))"
  by (rule records_bnd_any, rule records_bnd [of "\<lambda>f. Name f = n"], rule sat_if, rule update_named [OF assms(1,3)],
      rule sat_ret, rule assms(2), rule records_status, erule sym)

lemma records_sync_wait:
  assumes "updates_named S" and "Name found = n" and "Name upd = n"
    and "\<And>v f. Name f = n \<Longrightarrow> records a p n (fin v f)"
  shows "records a p n (bnd (if b then bnd z (\<lambda>v. bnd (update_found S upd) (\<lambda>f. ret (v, f))) else ret (u, found)) (\<lambda>(v, f).
      bnd (wait f) (\<lambda>err. fin v f)))"
proof (rule records_bnd [of "\<lambda>(v, f). Name f = n"])
  show "sat (\<lambda>_. True) (\<lambda>(v, f). Name f = n) (\<lambda>_. True)
      (if b then bnd z (\<lambda>v. bnd (update_found S upd) (\<lambda>f. ret (v, f))) else ret (u, found))"
    by (rule sat_if, rule sat_bnd [of _ "\<lambda>_. True"], simp add: sat_def, rule sat_bnd, rule update_named [OF assms(1,3)],
        rule sat_ret, simp, rule sat_ret, simp add: assms(2))
qed (use assms(4) in \<open>auto intro: records_bnd_any\<close>)

fun status_type :: "kind \<Rightarrow> string" where
  "status_type KIAMServiceAccount = ''IAMServiceAccount''"
| "status_type KComputeNetwork = ''ComputeNetwork''"
| "status_type KComputeSubnetwork = ''ComputeSubNetwork''"
| "status_type KContainerCluster = ''ContainerCluster''"
| "status_type KContainerNodePool = ''ContainerNodePool''"
| "status_type KSQLInstance = ''SQLInstance''"
| "status_type KSQLDatabase = ''SQLDatabase''"
| "status_type KComputeRouter = ''ComputeRouter''"
| "status_type KComputeRouterNAT = ''ComputeRouterNAT''"
| "status_type KStorageBucket = ''StorageBucket''"
| "status_type _ = []"

text \<open>The name a section records: the template's for an account, the found object's for the other kinds.\<close>

definition recorded :: "kind \<Rightarrow> TemplateSpec \<Rightarrow> error + resource \<Rightarrow> string" where
  "recorded k e r = (if k = KIAMServiceAccount then Name e else Name (found_or_zero k r))"

lemma records_body:
  assumes sync: "m = bnd (k_get S Mgmt k (Namespace e) (Name e)) (\<lambda>r.
      if IsNotFound (err_of r) then create_new S k rt u e ann sn else rest r)"
    and rest: "\<And>r. records a p (recorded k e r) (rest r)"
    and y: "outcome m s = Next y"
  shows "\<exists>w q. EvStatusUniverse w q \<in> set (events m s) \<and> status_of (Resources (uStatus w))
    (a, recorded k e (fst (svc_get S Mgmt k (Namespace e) (Name e) (world s)))) = Some p"
proof -
  let ?g = "svc_get S Mgmt k (Namespace e) (Name e) (world s)"
  let ?k = "if IsNotFound (err_of (fst ?g)) then create_new S k rt u e ann sn else rest (fst ?g)"
  have run: "outcome ?k (s\<lparr>world := snd ?g\<rparr>) = Next y" "set (events ?k (s\<lparr>world := snd ?g\<rparr>)) \<subseteq> set (events m s)"
    using y unfolding sync k_get_def by (auto simp: outcome_ask events_ask)
  have "records a p (recorded k e (fst ?g)) ?k" by (simp add: rest records_create)
  from recordsD [OF this run(1)] run(2) show ?thesis by blast
qed

lemma sync_records:
  assumes "updates_named S" and "k \<le> KStorageBucket"
  shows "outcome (sync_of S k e u) s = Next y \<longrightarrow> (\<exists>w q. EvStatusUniverse w q \<in> set (events (sync_of S k e u) s) \<and>
    status_of (Resources (uStatus w))
      (status_type k, recorded k e (fst (svc_get S Mgmt k (Namespace e) (Name e) (world s)))) = Some RunningStatus)"
  by (rule sync_of_cases [OF assms(2)];
      (rule impI, erule records_body [rotated 2], simp only: sync_of.simps sync_defs Let_def,
       simp only: status_type.simps,
       rule records_sync_only records_wait_sync [OF assms(1)] records_sync_wait [OF assms(1)]))
    (simp_all add: recorded_def records_status records_first)

section \<open>Properties\<close>

text \<open>
  C9. A sync writes to the management cluster only when the Universe's generation has moved since it
  was last observed, and then only the resource the get answered (the zero one after an error other
  than NotFound) with the template's value in the fields its kind owns; every other field, and the
  labels and the controller, are the found ones.
\<close>

theorem sync_sends_merged:
  assumes "k \<le> KStorageBucket" and "EvUpdate Mgmt x q \<in> set (events (sync_of S k e u) s)"
  shows "needs_sync u \<and>
    (let found = found_or_zero k (fst (svc_get S Mgmt k (Namespace e) (Name e) (world s))) in
     Name x = Name found \<and> Namespace x = Namespace found \<and> rKind x = rKind found \<and>
     Labels x = Labels found \<and> Controller x = Controller found \<and>
     (\<forall>f. fget (rSpec x) f = (if owned_fields k f then fget (Spec e) f else fget (rSpec found) f)))"
proof -
  have "EvUpdate Mgmt x q \<in> set (events (sync_of S k e u) s) \<longrightarrow>
      needs_sync u \<and> merged k e (found_or_zero k (fst (svc_get S Mgmt k (Namespace e) (Name e) (world s)))) x"
    by (rule sync_of_cases [OF assms(1)];
        rule impI; erule sends_iam sends_networks sends_cluster sends_others)
  with assms(2) show ?thesis by (simp add: merged_def Let_def)
qed

text \<open>A Universe whose generation has moved, with one template of every kind the witnesses need.\<close>

definition moved_universe :: Universe where
  "moved_universe = demo_universe\<lparr>Generation := 2,
     uSpec := (uSpec demo_universe)\<lparr>uIAM := \<lparr> IAMServiceAccounts = [demo_template\<lparr>Spec := [(''Description'', VStr ''new'')]\<rparr>] \<rparr>\<rparr>,
     uStatus := zero_UniverseStatus\<lparr>ObservedGeneration := 1\<rparr>\<rparr>"

definition there :: "kind \<Rightarrow> string \<Rightarrow> target \<times> resource" where
  "there k n = (Mgmt, (zero_resource k)\<lparr>Name := n, Namespace := ''apps'', Labels := getLabelSelector ''shop-7'',
     rSpec := [(''Description'', VStr ''old''), (''ResourceID'', VStr ''id'')]\<rparr>)"

definition moved_start :: "(target \<times> resource) list \<Rightarrow> demo st" where
  "moved_start xs = demo_state (demo_world\<lparr>dUniverses := [moved_universe], dObjects := xs\<rparr>)"

definition nat_template :: TemplateSpec where
  "nat_template = demo_template\<lparr>Spec := [(''MinPortsPerVm'', VInt 128)]\<rparr>"

abbreviation nat_start :: "demo st" where
  "nat_start \<equiv> moved_start [(Mgmt, (snd (there KComputeRouterNAT ''shop-7''))\<lparr>
     rSpec := [(''MinPortsPerVm'', VInt 64), (''Region'', VStr ''asia'')]\<rparr>)]"

definition sent_nat :: resource where
  "sent_nat = (snd (there KComputeRouterNAT ''shop-7''))\<lparr>rSpec := [(''MinPortsPerVm'', VInt 128), (''Region'', VStr ''asia'')]\<rparr>"

theorem sync_sends_merged_witness:
  "EvUpdate Mgmt sent_nat None \<in> set (events (sync_of demo_services KComputeRouterNAT nat_template moved_universe) nat_start) \<and>
   (let found = found_or_zero KComputeRouterNAT (fst (svc_get demo_services Mgmt KComputeRouterNAT
        (Namespace nat_template) (Name nat_template) (world nat_start))) in
    Name sent_nat = Name found \<and> Labels sent_nat = Labels found \<and>
    fget (rSpec sent_nat) ''MinPortsPerVm'' = fget (Spec nat_template) ''MinPortsPerVm'' \<and>
    fget (rSpec sent_nat) ''Region'' = fget (rSpec found) ''Region'')"
proof -
  have "EvUpdate Mgmt sent_nat None \<in> set (events (sync_of demo_services KComputeRouterNAT nat_template moved_universe) nat_start)"
    by code_simp
  with sync_sends_merged [OF _ this] show ?thesis by (simp add: less_eq_kind_def Let_def)
qed

text \<open>
  C13. The clean-up of a section that is passed deletes exactly the listed resources, in the list's
  order, whose names are none of the kind's templates', and nothing unless more are listed than there
  are templates.  The section of NATs compares with the names of the routers' templates instead, so
  that it also deletes NATs that are in the specification.
\<close>

theorem orphans_deleted:
  assumes "k \<in> {KIAMServiceAccount, KComputeNetwork, KContainerCluster, KContainerNodePool, KSQLInstance,
      KComputeRouterNAT, KStorageBucket}"
    and "outcome (own_section S k u) s = Next v"
  shows "deleted (events (own_section S k u) s) = (let l = listed S k v (listing_world S k u s) in
    if length (templates k (uSpec v)) < length l
    then map key_of (filter (\<lambda>x. Name x \<notin> Name ` set (templates (compared k) (uSpec v))) l) else [])"
proof -
  have "deletes_as S k (\<lambda>l. l) (own_section S k u) u s v"
    using assms own_deletes [of S u s v] by auto
  then show ?thesis by (simp add: deletes_as_def victims_def Let_def)
qed

lemma falls_through: "(case outcome m s of Next v \<Rightarrow> True | _ \<Rightarrow> False) \<Longrightarrow> \<exists>v. outcome m s = Next v"
  by (cases "outcome m s") simp_all

abbreviation network_start :: "demo st" where
  "network_start \<equiv> moved_start [there KComputeNetwork ''shop-7'', there KComputeNetwork ''old'']"

theorem orphans_deleted_witness:
  "\<exists>v. [(KComputeNetwork, ''apps'', ''old'')] =
    (let l = listed demo_services KComputeNetwork v (listing_world demo_services KComputeNetwork moved_universe network_start) in
     if length (templates KComputeNetwork (uSpec v)) < length l
     then map key_of (filter (\<lambda>x. Name x \<notin> Name ` set (templates (compared KComputeNetwork) (uSpec v))) l) else [])"
proof -
  have "case outcome (own_section demo_services KComputeNetwork moved_universe) network_start of Next v \<Rightarrow> True | _ \<Rightarrow> False"
    by code_simp
  from falls_through [OF this] obtain v where
    v: "outcome (own_section demo_services KComputeNetwork moved_universe) network_start = Next v" by blast
  have del: "deleted (events (own_section demo_services KComputeNetwork moved_universe) network_start) =
      [(KComputeNetwork, ''apps'', ''old'')]" by code_simp
  from orphans_deleted [OF _ v] show ?thesis unfolding del by blast
qed

text \<open>
  C25. The body of a section's loop that falls through has sent a status write, whatever it was
  answered, with the resource of the template healthy: under the kind's name in the status table and,
  for an account, the template's name, for another kind the name of the object the get answered, the
  empty name when the get failed with another error than NotFound.  So it is whether the wait
  succeeded, ran out of time or was never answered.  An update is assumed to be answered with an
  object of the same name.
\<close>

theorem healthy_whatever_the_wait:
  assumes "\<forall>t x w y. fst (svc_update S t x w) = Inr y \<longrightarrow> Name y = Name x"
    and "k \<le> KStorageBucket" and "outcome (sync_of S k e u) s = Next v"
  shows "\<exists>w q. EvStatusUniverse w q \<in> set (events (sync_of S k e u) s) \<and>
    status_of (Resources (uStatus w)) (status_type k,
      if k = KIAMServiceAccount then Name e
      else case fst (svc_get S Mgmt k (Namespace e) (Name e) (world s)) of Inl err \<Rightarrow> [] | Inr x \<Rightarrow> Name x)
      = Some ''Healthy''"
proof -
  have name: "Name (found_or_zero k r) = (case r of Inl err \<Rightarrow> [] | Inr x \<Rightarrow> Name x)" for r :: "error + resource"
    by (cases r) (simp_all add: found_or_zero_def zero_resource_def)
  have "updates_named S" unfolding updates_named_def by (rule assms(1))
  from sync_records [OF this assms(2), of e u s v] assms(3) show ?thesis
    by (simp only: recorded_def RunningStatus_def name)
qed

text \<open>A cloud that answers every question with an error, and in which the hour of the wait is over at once.\<close>

definition dark_demo :: "demo services" where
  "dark_demo = demo_services\<lparr>svc_gcp := (\<lambda>a args w. (Inl (EMsg ''503''), w)),
     svc_sleep := (\<lambda>d w. w\<lparr>dClock := dClock w + 60 * Minute\<rparr>)\<rparr>"

abbreviation dark_sync :: "(demo, answer, Universe) go" where
  "dark_sync \<equiv> sync_of dark_demo KStorageBucket demo_template demo_universe"

abbreviation bucket_start :: "demo st" where
  "bucket_start \<equiv> moved_start [there KStorageBucket ''shop-7'']"

theorem healthy_whatever_the_wait_witness:
  "\<exists>w q. EvStatusUniverse w q \<in> set (events dark_sync bucket_start) \<and>
     status_of (Resources (uStatus w)) (''StorageBucket'', ''shop-7'') = Some ''Healthy''"
proof -
  have "case outcome dark_sync bucket_start of Next v \<Rightarrow> True | _ \<Rightarrow> False" by code_simp
  from falls_through [OF this] obtain v where run: "outcome dark_sync bucket_start = Next v" by blast
  have "\<forall>t x w y. fst (svc_update dark_demo t x w) = Inr y \<longrightarrow> Name y = Name x"
    by (simp add: dark_demo_def demo_services_def demo_update_def)
  from healthy_whatever_the_wait [OF this _ run]
  have "\<exists>w q. EvStatusUniverse w q \<in> set (events dark_sync bucket_start) \<and>
     status_of (Resources (uStatus w)) (''StorageBucket'', case fst (svc_get dark_demo Mgmt KStorageBucket
       (Namespace demo_template) (Name demo_template) (world bucket_start)) of Inl err \<Rightarrow> [] | Inr x \<Rightarrow> Name x) = Some ''Healthy''"
    by (simp add: less_eq_kind_def)
  moreover have "(case fst (svc_get dark_demo Mgmt KStorageBucket (Namespace demo_template) (Name demo_template)
       (world bucket_start)) of Inl err \<Rightarrow> [] | Inr x \<Rightarrow> Name x) = ''shop-7''" by code_simp
  ultimately show ?thesis by simp
qed

end
