(* ===== verification/UniverseSettles.thy ===== *)
theory UniverseSettles
  imports UniverseReconcile
begin

text \<open>
  Many reconciliations of one Universe, one after the other, as the requeues bring them about.

  A reconciliation creates at most one object and comes back.  What the sequence of them comes to
  rests on the API server keeping what it has accepted: \<open>created_stay\<close> reads a trace and refuses a
  get that answers NotFound for an object whose create succeeded and that was not deleted since,
  and on its gets being sound.
\<close>

section \<open>Rounds\<close>

primrec after_rounds :: "'w services \<Rightarrow> string \<Rightarrow> string \<Rightarrow> 'w st \<Rightarrow> nat \<Rightarrow> 'w st" where
  "after_rounds S ns n s 0 = s"
| "after_rounds S ns n s (Suc i) = final (Reconcile S ns n :: ('w, unit, answer) go) (after_rounds S ns n s i)"

definition round_events :: "'w services \<Rightarrow> string \<Rightarrow> string \<Rightarrow> 'w st \<Rightarrow> nat \<Rightarrow> event list" where
  "round_events S ns n s i = events (Reconcile S ns n :: ('w, unit, answer) go) (after_rounds S ns n s i)"

definition round_answer :: "'w services \<Rightarrow> string \<Rightarrow> string \<Rightarrow> 'w st \<Rightarrow> nat \<Rightarrow> (unit, answer) flow" where
  "round_answer S ns n s i = outcome (Reconcile S ns n) (after_rounds S ns n s i)"

definition rounds_trace :: "'w services \<Rightarrow> string \<Rightarrow> string \<Rightarrow> 'w st \<Rightarrow> nat \<Rightarrow> event list" where
  "rounds_trace S ns n s m = concat (map (round_events S ns n s) [0..<m])"

section \<open>The API server keeps what it has accepted\<close>

type_synonym key = "kind \<times> string \<times> string"

definition res_key :: "resource \<Rightarrow> key" where
  "res_key x = (rKind x, Namespace x, Name x)"

definition creates_key :: "event \<Rightarrow> key option" where
  "creates_key e = (case e of EvCreate t x r \<Rightarrow> (if t = Mgmt \<and> r = None then Some (res_key x) else None) | _ \<Rightarrow> None)"

definition deletes_key :: "event \<Rightarrow> key option" where
  "deletes_key e = (case e of EvDelete t k ns n r \<Rightarrow> (if t = Mgmt then Some (k, ns, n) else None) | _ \<Rightarrow> None)"

definition misses_key :: "event \<Rightarrow> key option" where
  "misses_key e = (case e of EvGet t k ns n r \<Rightarrow> (if t = Mgmt \<and> r = Some ENotFound then Some (k, ns, n) else None) | _ \<Rightarrow> None)"

fun created_stay :: "key list \<Rightarrow> event list \<Rightarrow> bool" where
  "created_stay ks [] = True"
| "created_stay ks (e # es) =
     ((case misses_key e of None \<Rightarrow> True | Some k \<Rightarrow> k \<notin> set ks) \<and>
      created_stay (case creates_key e of Some k \<Rightarrow> k # ks
        | None \<Rightarrow> (case deletes_key e of Some k \<Rightarrow> removeAll k ks | None \<Rightarrow> ks)) es)"

definition spares :: "key set \<Rightarrow> event list \<Rightarrow> bool" where
  "spares K es = list_all (\<lambda>e. case deletes_key e of None \<Rightarrow> True | Some k \<Rightarrow> k \<notin> K) es"

lemma key_events [simp]:
  "misses_key (asked_for Mgmt x) = Some (res_key x)" "creates_key (EvCreate Mgmt x None) = Some (res_key x)"
  by (simp_all add: misses_key_def creates_key_def asked_for_def res_key_def)

text \<open>Once created and not deleted, never missed.\<close>

lemma stay_no_miss:
  "created_stay ks es \<Longrightarrow> spares K es \<Longrightarrow> k \<in> K \<Longrightarrow> k \<in> set ks \<Longrightarrow> e \<in> set es \<Longrightarrow> misses_key e \<noteq> Some k"
proof (induction ks es rule: created_stay.induct)
  case (2 ks e' es)
  have "k \<in> set (case creates_key e' of Some k \<Rightarrow> k # ks
      | None \<Rightarrow> (case deletes_key e' of Some k \<Rightarrow> removeAll k ks | None \<Rightarrow> ks))"
    using "2.prems" by (auto simp: spares_def split: option.split)
  with 2 show ?case by (auto simp: spares_def)
qed simp

lemma created_stay_tail: "created_stay ks (us @ vs) \<Longrightarrow> \<exists>ks'. created_stay ks' vs"
  by (induction us arbitrary: ks) auto

lemma created_no_miss:
  assumes "created_stay ks (us @ EvCreate Mgmt x None # vs)" and "spares K vs" and "res_key x \<in> K" and "e \<in> set vs"
  shows "misses_key e \<noteq> Some (res_key x)"
proof -
  obtain ks' where "created_stay ks' (EvCreate Mgmt x None # vs)" using created_stay_tail [OF assms(1)] ..
  then have "created_stay (res_key x # ks') vs" by simp
  from stay_no_miss [OF this assms(2,3) _ assms(4)] show ?thesis by simp
qed

section \<open>The templates' keys\<close>

definition template_keys :: "UniverseSpec \<Rightarrow> key list" where
  "template_keys sp = concat (map (\<lambda>k. map (\<lambda>e. (k, Namespace e, Name e)) (templates k sp)) resource_kinds)"

definition template_count :: "UniverseSpec \<Rightarrow> nat" where
  "template_count sp = sum_list (map (\<lambda>k. length (templates k sp)) resource_kinds)"

lemma card_template_keys: "card (set (template_keys sp)) \<le> template_count sp"
proof -
  have "card (set (template_keys sp)) \<le> length (template_keys sp)" by (rule card_length)
  also have "\<dots> = template_count sp"
    by (simp add: template_keys_def template_count_def length_concat comp_def)
  finally show ?thesis .
qed

text \<open>The round goes through all its sections, and then on to \<open>finishReconcile\<close>, all it does after them.\<close>

definition goes_on :: "'w services \<Rightarrow> string \<Rightarrow> string \<Rightarrow> 'w st \<Rightarrow> nat \<Rightarrow> Universe \<Rightarrow> bool" where
  "goes_on S ns n s i v \<longleftrightarrow> outcome (resourcesOf S ns n) (after_rounds S ns n s i) = Next v \<and>
     round_events S ns n s i = events (resourcesOf S ns n) (after_rounds S ns n s i) @
       events (finishReconcile S v) (final (resourcesOf S ns n) (after_rounds S ns n s i))"

text \<open>A round that answers without an error either creates an object that was missing or sees them all.\<close>

lemma round_cases:
  assumes "status_keeps S" and "outcome (fetchUniverse S ns n) (after_rounds S ns n s i) = Next u" and "uSpec u = sp"
    and "round_answer S ns n s i = Next (r, None)"
  obtains (creates) us x vs where "round_events S ns n s i = us @ EvCreate Mgmt x None # vs"
      and "asked_for Mgmt x \<in> set us" and "res_key x \<in> set (template_keys sp)"
  | (all_there) v where "\<forall>k. k \<le> KStorageBucket \<longrightarrow> seen k (templates k sp) (round_events S ns n s i)"
      and "goes_on S ns n s i v"
proof (cases rule: reconcile_cases [where S = S and ns = ns and n = n and s = "after_rounds S ns n s i", where ?'r = unit])
  case not_fetched
  with assms(2) show thesis by simp
next
  case stuck
  with assms(4) show thesis by (simp add: round_answer_def)
next
  case (created u' es a)
  have u': "u' = u" using created(1) assms(2) by simp
  have a: "a = (r, None)" using created(4) assms(4) by (simp add: round_answer_def)
  obtain kb k ka before e after pre post where st: "resource_kinds = kb @ k # ka"
    "templates k (uSpec u) = before @ e # after" "es = pre @ post" "creation S k e u post a"
    using created(3) assms(1) unfolding stops_def u' by blast
  obtain v ann q1 q2 where post: "post = [asked_for Mgmt (controlled S v (new_resource k v e ann)),
      EvCreate Mgmt (controlled S v (new_resource k v e ann)) None, EvStatusUniverse q1 q2]"
    using st(4) unfolding creation_def Let_def a by (auto split: option.splits)
  let ?x = "controlled S v (new_resource k v e ann)"
  have "res_key ?x = (k, Namespace e, Name e)" by (simp add: res_key_def)
  moreover have "(k, Namespace e, Name e) \<in> set (template_keys sp)"
  proof -
    have "k \<in> set resource_kinds" unfolding st(1) by simp
    with st(2) assms(3) show ?thesis by (auto simp: template_keys_def intro!: bexI [of _ k])
  qed
  ultimately show thesis
    using creates [of "events (fetchUniverse S ns n) (after_rounds S ns n s i) @ pre @ [asked_for Mgmt ?x]" ?x] created(2) st(3) post
    by (simp add: round_events_def)
next
  case (in_place u' v es es')
  then have "all_seen S resource_kinds u (round_events S ns n s i)"
    using assms(2) by (auto simp: round_events_def intro: all_seen_append)
  moreover have "goes_on S ns n s i v" using in_place(7,8) by (simp add: goes_on_def round_events_def)
  ultimately show thesis using assms(1,3) all_there by (auto simp: all_seen_def resource_kinds_le)
qed

section \<open>The rounds together\<close>

lemma round_in_trace:
  assumes "i < j" and "j < m"
  shows "\<exists>A B. rounds_trace S ns n s m = A @ round_events S ns n s i @ B \<and> set (round_events S ns n s j) \<subseteq> set B"
proof -
  have "[0..<m] = [0..<i] @ i # [Suc i..<m]"
    using assms upt_add_eq_append [of 0 i "m - i"] by (simp add: upt_conv_Cons)
  then have "rounds_trace S ns n s m = concat (map (round_events S ns n s) [0..<i]) @ round_events S ns n s i @
      concat (map (round_events S ns n s) [Suc i..<m])" by (simp add: rounds_trace_def)
  moreover have "set (round_events S ns n s j) \<subseteq> set (concat (map (round_events S ns n s) [Suc i..<m]))"
  proof -
    have "j \<in> set [Suc i..<m]" using assms by simp
    then show ?thesis by fastforce
  qed
  ultimately show ?thesis by blast
qed

lemma spares_append: "spares K (xs @ ys) \<longleftrightarrow> spares K xs \<and> spares K ys"
  by (simp add: spares_def)

text \<open>What one round creates a later round does not ask for in vain.\<close>

lemma rounds_differ:
  assumes "created_stay [] (rounds_trace S ns n s m)" and "spares K (rounds_trace S ns n s m)" and "i < j" and "j < m"
    and i: "round_events S ns n s i = us @ EvCreate Mgmt x None # vs" and "res_key x \<in> K"
    and j: "asked_for Mgmt y \<in> set (round_events S ns n s j)"
  shows "res_key y \<noteq> res_key x"
proof -
  obtain A B where tr: "rounds_trace S ns n s m = A @ round_events S ns n s i @ B" "set (round_events S ns n s j) \<subseteq> set B"
    using round_in_trace [OF assms(3,4)] by blast
  have "created_stay [] ((A @ us) @ EvCreate Mgmt x None # vs @ B)" using assms(1) tr(1) i by simp
  moreover have "spares K (vs @ B)" using assms(2) tr(1) i by (simp add: spares_append) (simp add: spares_def)
  moreover have "asked_for Mgmt y \<in> set (vs @ B)" using j tr(2) by auto
  ultimately have "misses_key (asked_for Mgmt y) \<noteq> Some (res_key x)" using created_no_miss assms(6) by metis
  then show ?thesis by simp
qed

text \<open>
  Each of the first rounds creates a missing object, another one each time; there are only as many as
  templates.
\<close>

lemma rounds_come_up:
  assumes keep: "status_keeps S"
    and fetched: "\<And>i. i \<le> template_count sp \<Longrightarrow>
      \<exists>u. outcome (fetchUniverse S ns n) (after_rounds S ns n s i) = Next u \<and> uSpec u = sp"
    and answers: "\<And>i. i \<le> template_count sp \<Longrightarrow> \<exists>r. round_answer S ns n s i = Next (r, None)"
    and stay: "created_stay [] (rounds_trace S ns n s (Suc (template_count sp)))"
    and spared: "spares (set (template_keys sp)) (rounds_trace S ns n s (Suc (template_count sp)))"
  shows "\<exists>i \<le> template_count sp. (\<forall>k. k \<le> KStorageBucket \<longrightarrow> seen k (templates k sp) (round_events S ns n s i)) \<and>
    (\<exists>v. goes_on S ns n s i v)"
proof (rule ccontr)
  let ?N = "template_count sp" and ?re = "round_events S ns n s" and ?K = "set (template_keys sp)"
  assume not_yet: "\<not> ?thesis"
  have "\<exists>q us x vs. ?re i = us @ EvCreate Mgmt x None # vs \<and> asked_for Mgmt x \<in> set us \<and> q = res_key x \<and> q \<in> ?K"
    if i: "i \<le> ?N" for i
  proof -
    obtain u r where "outcome (fetchUniverse S ns n) (after_rounds S ns n s i) = Next u" "uSpec u = sp"
      "round_answer S ns n s i = Next (r, None)" using fetched [OF i] answers [OF i] by blast
    then show ?thesis
      by (cases rule: round_cases [OF keep]) (use not_yet i in blast)+
  qed
  then have "\<forall>i. \<exists>q. i \<le> ?N \<longrightarrow>
      (\<exists>us x vs. ?re i = us @ EvCreate Mgmt x None # vs \<and> asked_for Mgmt x \<in> set us \<and> q = res_key x \<and> q \<in> ?K)" by blast
  from choice [OF this] obtain f where f: "\<And>i. i \<le> ?N \<Longrightarrow>
      \<exists>us x vs. ?re i = us @ EvCreate Mgmt x None # vs \<and> asked_for Mgmt x \<in> set us \<and> f i = res_key x \<and> f i \<in> ?K"
    by blast
  have "f i \<noteq> f j" if "i < j" "j \<le> ?N" for i j
  proof
    assume eq: "f i = f j"
    obtain us x vs where i: "?re i = us @ EvCreate Mgmt x None # vs" "f i = res_key x" "f i \<in> ?K"
      using f [of i] \<open>i < j\<close> \<open>j \<le> ?N\<close> by auto
    obtain y where j: "asked_for Mgmt y \<in> set (?re j)" "f j = res_key y"
      using f [OF \<open>j \<le> ?N\<close>] by (metis Un_iff set_append)
    have "res_key y \<noteq> res_key x"
      by (rule rounds_differ [OF stay spared \<open>i < j\<close> _ i(1) _ j(1)]) (use \<open>j \<le> ?N\<close> i in auto)
    then show False using eq i(2) j(2) by simp
  qed
  then have "inj_on f {..?N}" by (intro inj_onI) (metis atMost_iff nat_neq_iff)
  then have "card {..?N} = card (f ` {..?N})" by (simp add: card_image)
  moreover have "f ` {..?N} \<subseteq> ?K"
  proof
    fix q
    assume "q \<in> f ` {..?N}"
    then obtain i where "i \<le> ?N" "q = f i" by auto
    with f [of i] show "q \<in> ?K" by blast
  qed
  then have "card (f ` {..?N}) \<le> card ?K" by (rule card_mono [OF finite_set])
  moreover have "card ?K \<le> ?N" by (rule card_template_keys)
  ultimately show False by simp
qed

lemma rounds_up:
  assumes keep: "status_keeps S"
    and fetched: "\<And>i. i \<le> template_count sp \<Longrightarrow>
      \<exists>u. outcome (fetchUniverse S ns n) (after_rounds S ns n s i) = Next u \<and> uSpec u = sp"
    and answers: "\<And>i. i \<le> template_count sp \<Longrightarrow> \<exists>r. round_answer S ns n s i = Next (r, None)"
    and sound: "list_all get_sound (rounds_trace S ns n s (Suc (template_count sp)))"
    and stay: "created_stay [] (rounds_trace S ns n s (Suc (template_count sp)))"
    and spared: "spares (set (template_keys sp)) (rounds_trace S ns n s (Suc (template_count sp)))"
  shows "\<exists>i \<le> template_count sp. (\<forall>k. k \<le> KStorageBucket \<longrightarrow> found_all k (templates k sp) (round_events S ns n s i)) \<and>
    (\<exists>v. goes_on S ns n s i v)"
proof -
  obtain i where i: "i \<le> template_count sp" "\<forall>k. k \<le> KStorageBucket \<longrightarrow> seen k (templates k sp) (round_events S ns n s i)"
    "\<exists>v. goes_on S ns n s i v" using rounds_come_up [OF keep fetched answers stay spared] by blast
  have "list_all get_sound (round_events S ns n s i)"
  proof -
    have "i \<in> set [0..<Suc (template_count sp)]" using i(1) by auto
    then have "set (round_events S ns n s i) \<subseteq> set (rounds_trace S ns n s (Suc (template_count sp)))"
      unfolding rounds_trace_def by fastforce
    with sound show ?thesis unfolding list_all_iff by blast
  qed
  with i show ?thesis using seen_found by blast
qed

section \<open>Properties\<close>

text \<open>
  C2. A Universe with \<open>N\<close> templates comes up within \<open>N + 1\<close> reconciliations.  When its specification
  stays as it is, no reconciliation fails, a get in the management cluster fails with NotFound only, the
  API server keeps what it has accepted and nothing that a template asks for is deleted, then one of the
  first \<open>N + 1\<close> reconciliations gets every template of every kind and finds it there; that one goes
  through all its sections and on to the rest, the backup and restore, the finalizer, the time to live and
  the observed generation.
\<close>

theorem comes_up:
  assumes keep: "status_keeps S"
    and fetched: "\<And>i. i \<le> template_count sp \<Longrightarrow>
      \<exists>u. outcome (fetchUniverse S ns n) (after_rounds S ns n s i) = Next u \<and> uSpec u = sp"
    and answers: "\<And>i. i \<le> template_count sp \<Longrightarrow> \<exists>r. round_answer S ns n s i = Next (r, None)"
    and sound: "list_all get_sound (rounds_trace S ns n s (Suc (template_count sp)))"
    and stay: "created_stay [] (rounds_trace S ns n s (Suc (template_count sp)))"
    and spared: "spares (set (template_keys sp)) (rounds_trace S ns n s (Suc (template_count sp)))"
  shows "\<exists>i \<le> template_count sp.
    (\<forall>k. k \<le> KStorageBucket \<longrightarrow> (\<forall>e \<in> set (templates k sp).
      EvGet Mgmt k (Namespace e) (Name e) None \<in> set (round_events S ns n s i))) \<and>
    (\<exists>v. outcome (resourcesOf S ns n) (after_rounds S ns n s i) = Next v \<and>
      round_events S ns n s i = events (resourcesOf S ns n) (after_rounds S ns n s i) @
        events (finishReconcile S v) (final (resourcesOf S ns n) (after_rounds S ns n s i)))"
  using rounds_up [OF assms] by (simp add: found_all_def list_all_iff goes_on_def)

text \<open>A Universe of a network and a subnetwork.\<close>

definition small_universe :: Universe where
  "small_universe = zero_Universe\<lparr>Name := ''shop-7'', Namespace := ''apps'', Generation := 1,
     uSpec := zero_UniverseSpec\<lparr>ProjectID := ''apps'', TTL := 86400,
       uCompute := (uCompute zero_UniverseSpec)\<lparr>ComputeNetworks := [demo_template], ComputeSubnetworks := [demo_template]\<rparr>\<rparr>\<rparr>"

abbreviation small_start :: "demo st" where
  "small_start \<equiv> demo_state (demo_world\<lparr>dUniverses := [small_universe]\<rparr>)"

abbreviation small_after :: "nat \<Rightarrow> demo st" where
  "small_after \<equiv> after_rounds gke_demo ''apps'' ''shop-7'' small_start"

definition round_fine :: "UniverseSpec \<Rightarrow> demo st \<Rightarrow> bool" where
  "round_fine sp s =
     ((case outcome (fetchUniverse gke_demo ''apps'' ''shop-7'') s of Next u \<Rightarrow> uSpec u = sp | _ \<Rightarrow> False) \<and>
      (case outcome (Reconcile gke_demo ''apps'' ''shop-7'' :: (demo, unit, answer) go) s of
         Next a \<Rightarrow> snd a = None | _ \<Rightarrow> False))"

lemma small_rounds: "round_fine (uSpec small_universe) (small_after 0)"
  "round_fine (uSpec small_universe) (small_after (Suc 0))"
  "round_fine (uSpec small_universe) (small_after (Suc (Suc 0)))"
  by code_simp+

lemma small_count: "template_count (uSpec small_universe) = Suc (Suc 0)"
  by code_simp

lemma small_trace:
  "created_stay [] (rounds_trace gke_demo ''apps'' ''shop-7'' small_start (Suc (Suc (Suc 0))))"
  "spares (set (template_keys (uSpec small_universe))) (rounds_trace gke_demo ''apps'' ''shop-7'' small_start (Suc (Suc (Suc 0))))"
  by code_simp+

lemma small_sound: "list_all get_sound (rounds_trace gke_demo ''apps'' ''shop-7'' small_start (Suc (Suc (Suc 0))))"
  by code_simp

theorem comes_up_witness:
  "\<exists>i. i \<le> 2 \<and> EvGet Mgmt KComputeNetwork ''apps'' ''shop-7'' None \<in> set (round_events gke_demo ''apps'' ''shop-7'' small_start i)"
proof -
  have rounds: "round_fine (uSpec small_universe) (small_after i)" if "i \<le> Suc (Suc 0)" for i
    using that small_rounds by (auto simp: le_Suc_eq)
  have "\<exists>i \<le> template_count (uSpec small_universe).
    (\<forall>k. k \<le> KStorageBucket \<longrightarrow> (\<forall>e \<in> set (templates k (uSpec small_universe)).
      EvGet Mgmt k (Namespace e) (Name e) None \<in> set (round_events gke_demo ''apps'' ''shop-7'' small_start i))) \<and>
    (\<exists>v. outcome (resourcesOf gke_demo ''apps'' ''shop-7'') (small_after i) = Next v \<and>
      round_events gke_demo ''apps'' ''shop-7'' small_start i = events (resourcesOf gke_demo ''apps'' ''shop-7'') (small_after i) @
        events (finishReconcile gke_demo v) (final (resourcesOf gke_demo ''apps'' ''shop-7'') (small_after i)))"
  proof (rule comes_up [OF gke_demo_keeps(1)], unfold small_count)
    fix i :: nat
    assume i: "i \<le> Suc (Suc 0)"
    show "\<exists>u. outcome (fetchUniverse gke_demo ''apps'' ''shop-7'') (small_after i) = Next u \<and> uSpec u = uSpec small_universe"
      using rounds [OF i] by (auto simp: round_fine_def split: flow.splits)
    show "\<exists>r. round_answer gke_demo ''apps'' ''shop-7'' small_start i = Next (r, None)"
      using rounds [OF i] by (auto simp: round_fine_def round_answer_def prod_eq_iff split: flow.splits)
  qed (rule small_sound small_trace)+
  then obtain i where "i \<le> 2" and all: "\<forall>k. k \<le> KStorageBucket \<longrightarrow> (\<forall>e \<in> set (templates k (uSpec small_universe)).
      EvGet Mgmt k (Namespace e) (Name e) None \<in> set (round_events gke_demo ''apps'' ''shop-7'' small_start i))"
    by (auto simp: small_count numeral_2_eq_2)
  moreover have "KComputeNetwork \<le> KStorageBucket" by (simp add: less_eq_kind_def)
  moreover have "demo_template \<in> set (templates KComputeNetwork (uSpec small_universe))" by (simp add: small_universe_def)
  ultimately have "EvGet Mgmt KComputeNetwork (Namespace demo_template) (Name demo_template) None \<in>
      set (round_events gke_demo ''apps'' ''shop-7'' small_start i)" by blast
  with \<open>i \<le> 2\<close> show ?thesis by (auto simp: demo_template_def)
qed

end
