(* ===== verification/UniverseInvariants.thy ===== *)
theory UniverseInvariants
  imports UniverseReconcile
begin

text \<open>
  Invariants of the local Universe through the ten sections of \<open>Reconcile\<close>.

  The locale \<open>template_invariant\<close> is the contract of an invariant \<open>inv\<close> and of a predicate \<open>P\<close> of the
  events: recording a status keeps \<open>inv\<close>, a needed sync may write, creates and what leaves the
  management cluster alone are fine.  From it the loops over the templates keep both.  Where deletes are
  fine too, \<open>section_invariant\<close>, the whole sections do.
  \<open>UniverseObserved\<close>, \<open>UniverseStatus\<close> and \<open>Answers\<close> interpret the second, \<open>PreviewSpared\<close> the first.
\<close>

section \<open>The contract\<close>

definition status_types :: "string set" where
  "status_types = {''IAMServiceAccount'', ''ComputeNetwork'', ''ComputeSubNetwork'', ''ContainerCluster'',
     ''ContainerNodePool'', ''SQLInstance'', ''SQLDatabase'', ''ComputeRouter'', ''ComputeRouterNAT'', ''StorageBucket''}"

definition progress_values :: "string set" where
  "progress_values = {CreatingStatus, ReconcilingStatus, RunningStatus}"

locale template_invariant =
  fixes S :: "'w services" and P :: "event \<Rightarrow> bool" and inv :: "Universe \<Rightarrow> bool"
  assumes fine: "distant e \<Longrightarrow> P e"
    and create_fine: "P (EvCreate Mgmt x q)"
    and sync_fine: "inv u \<Longrightarrow> needs_sync u \<Longrightarrow> P (EvUpdate Mgmt x q)"
    and record_keeps: "inv u \<Longrightarrow> a \<in> status_types \<Longrightarrow> p \<in> progress_values \<Longrightarrow>
      sat P inv (\<lambda>_. True) (set_status S a u p n :: ('w, answer, Universe) go)"
begin

lemma sat_fine: "sat distant V R m \<Longrightarrow> sat P V R m"
  by (erule sat_weaken) (simp_all add: fine)

lemmas waits = distant_waits [THEN sat_fine]
lemmas sets_up = distant_setUpCluster [THEN sat_fine]

lemma creates:
  assumes "inv u" and "rt \<in> status_types"
  shows "sat P V (\<lambda>_. True) (create_new S k rt u e ann sn :: ('w, answer, 'a) go)"
  unfolding create_new_def k_create_def
  by (rule sat_bnd_any, rule sat_ask, rule create_fine, rule sat_case_sum, rule sat_return, simp,
      rule sat_bnd [OF record_keeps [OF assms]], simp add: progress_values_def, rule sat_return, simp)

lemma records: "inv u \<Longrightarrow> a \<in> status_types \<Longrightarrow> p \<in> progress_values \<Longrightarrow> (\<And>v. inv v \<Longrightarrow> sat P V (\<lambda>_. True) (f v)) \<Longrightarrow>
    sat P V (\<lambda>_. True) (bnd (set_status S a u p n :: ('w, answer, Universe) go) f)"
  by (rule sat_bnd [OF record_keeps])

lemma writes: "inv u \<Longrightarrow> needs_sync u \<Longrightarrow> sat P (\<lambda>_. True) R (update_found S x)"
  unfolding update_found_def k_update_def by (intro sat_bnd_any sat_ask sat_ret) (auto intro: sync_fine)

text \<open>A template: create it, or go on.\<close>

lemma template:
  assumes "inv u" and "rt \<in> status_types" and "\<And>r. sat P inv (\<lambda>_. True) (g r)"
  shows "sat P inv (\<lambda>_. True) (bnd (k_get S Mgmt k ns n) (\<lambda>r.
    if IsNotFound (err_of r) then create_new S k rt u e ann sn else g r) :: ('w, answer, Universe) go)"
  unfolding k_get_def
  by (rule sat_bnd_any, rule sat_ask, rule fine, simp, rule sat_if, rule creates [OF assms(1,2)], rule assms(3))

text \<open>The three shapes of going on.\<close>

lemma sync_wait:
  assumes u: "inv u" and a: "a \<in> status_types" and w: "\<And>f. sat P (\<lambda>_. True) (\<lambda>_. True) (wait f)"
    and fin: "\<And>v f. inv v \<Longrightarrow> sat P inv (\<lambda>_. True) (fin v f)"
  shows "sat P inv (\<lambda>_. True) (bnd (if needs_sync u then
        bnd (set_status S a u ReconcilingStatus n) (\<lambda>v. bnd (update_found S upd) (\<lambda>f. ret (v, f))) else ret (u, found)) (\<lambda>(v, f).
      bnd (wait f) (\<lambda>err. fin v f)) :: ('w, answer, Universe) go)"
proof (rule sat_bnd)
  show "sat P (\<lambda>(v, f). inv v) (\<lambda>_. True) ((if needs_sync u then
        bnd (set_status S a u ReconcilingStatus n) (\<lambda>v. bnd (update_found S upd) (\<lambda>f. ret (v, f))) else ret (u, found))
      :: ('w, answer, Universe \<times> resource) go)"
    by (intro sat_if records [OF u a] sat_bnd_any [OF writes [OF u]] sat_ret) (use u in \<open>simp_all add: progress_values_def\<close>)
  fix x :: "Universe \<times> resource"
  assume "case x of (v, f) \<Rightarrow> inv v"
  then show "sat P inv (\<lambda>_. True) ((case x of (v, f) \<Rightarrow> bnd (wait f) (\<lambda>err. fin v f)) :: ('w, answer, Universe) go)"
    by (cases x) (auto intro: sat_bnd [OF w] fin)
qed

lemma wait_sync:
  assumes u: "inv u" and a: "a \<in> status_types" and w: "sat P (\<lambda>_. True) (\<lambda>_. True) w"
  shows "sat P inv (\<lambda>_. True) (bnd w (\<lambda>err.
      bnd (if needs_sync u then update_found S upd else ret found) (\<lambda>f. set_status S a u RunningStatus (n f)))
      :: ('w, answer, Universe) go)"
  by (rule sat_bnd [OF w], rule sat_bnd_any, rule sat_if, erule writes [OF u], rule sat_ret, simp,
      rule record_keeps [OF u a], simp add: progress_values_def)

lemma sync_only:
  assumes u: "inv u" and a: "a \<in> status_types"
  shows "sat P inv (\<lambda>_. True) (bnd (if needs_sync u then
      bnd (set_status S a u ReconcilingStatus n) (\<lambda>v. bnd (update_found S upd) (\<lambda>_. ret v)) else ret u) (\<lambda>v.
      set_status S a v RunningStatus m) :: ('w, answer, Universe) go)"
  by (rule sat_bnd [where U = inv], intro sat_if records [OF u a] sat_bnd_any [OF writes [OF u]] sat_ret)
    (use u in \<open>auto simp: progress_values_def intro!: record_keeps a\<close>)

lemma record_healthy: "inv u \<Longrightarrow> a \<in> status_types \<Longrightarrow>
    sat P inv (\<lambda>_. True) (set_status S a u RunningStatus n :: ('w, answer, Universe) go)"
  by (rule record_keeps) (simp_all add: progress_values_def)

lemma syncs:
  assumes u: "inv u"
  shows "sat P inv (\<lambda>_. True) (syncIAMServiceAccounts S e u)"
    and "sat P inv (\<lambda>_. True) (syncComputeNetworks S e u)"
    and "sat P inv (\<lambda>_. True) (syncComputeSubnetworks S e u)"
    and "sat P inv (\<lambda>_. True) (syncContainerNodePools S e u)"
    and "sat P inv (\<lambda>_. True) (syncSQLInstances S e u)"
    and "sat P inv (\<lambda>_. True) (syncSQLDatabases S e u)"
    and "sat P inv (\<lambda>_. True) (syncComputeRouters S e u)"
    and "sat P inv (\<lambda>_. True) (syncComputeRouterNATs S e u)"
    and "sat P inv (\<lambda>_. True) (syncStorageBuckets S e u)"
  unfolding syncIAMServiceAccounts_def syncComputeNetworks_def syncComputeSubnetworks_def
    syncContainerNodePools_def syncSQLInstances_def syncSQLDatabases_def syncComputeRouters_def
    syncComputeRouterNATs_def syncStorageBuckets_def Let_def
  by (rule template [OF u], simp add: status_types_def,
      rule sync_only [OF u] wait_sync [OF u] sync_wait [OF u], simp add: status_types_def,
      ((rule waits | rule record_healthy, assumption, simp add: status_types_def)+)?)+

lemma sync_cluster:
  assumes u: "inv u"
  shows "sat P inv (\<lambda>_. True) (syncContainerClusters S e u)"
  unfolding syncContainerClusters_def Let_def
  by (rule template [OF u], simp add: status_types_def, rule sync_wait [OF u], simp add: status_types_def, rule waits,
      rule records, assumption, simp add: status_types_def, simp add: progress_values_def,
      rule sat_bnd_any [OF sets_up], rule sat_ret)

lemma lists:
  "sat P (\<lambda>_. True) R (getIAMServiceAccountsForUniverse S sel)"
  "sat P (\<lambda>_. True) R (getComputeNetworksForUniverse S sel)"
  "sat P (\<lambda>_. True) R (getComputeSubNetworksForUniverse S sel)"
  "sat P (\<lambda>_. True) R (getContainerClustersForUniverse S sel)"
  "sat P (\<lambda>_. True) R (getContainerNodePoolsForUniverse S sel)"
  "sat P (\<lambda>_. True) R (getSQLInstancesForUniverse S sel)"
  "sat P (\<lambda>_. True) R (getSQLDatabasesForUniverse S sel)"
  "sat P (\<lambda>_. True) R (getComputeRoutersForUniverse S sel)"
  "sat P (\<lambda>_. True) R (getComputeRouterNATsForUniverse S sel)"
  "sat P (\<lambda>_. True) R (getStorageBucketsForUniverse S sel)"
  unfolding list_defs listForUniverse_def k_list_def by (rule sat_ask, rule fine, simp)+

end

section \<open>The sections\<close>

locale section_invariant = template_invariant S P inv
  for S :: "'w services" and P :: "event \<Rightarrow> bool" and inv :: "Universe \<Rightarrow> bool" +
  assumes delete_fine: "P (EvDelete Mgmt k ns n q)"
begin

lemma prunes: "sat P (\<lambda>_. True) R (prune S counted ts existing inSpec)"
  unfolding prune_def k_delete_def
  by (rule sat_if, rule sat_foreach, simp, rule sat_if, rule sat_ret, simp, rule sat_bnd_any, rule sat_ask,
      rule delete_fine, rule sat_ret, simp, rule sat_ret, simp)

lemma section_keeps:
  assumes "\<And>e u. inv u \<Longrightarrow> sat P inv (\<lambda>_. True) (sync e u)"
    and "\<And>v. sat P (\<lambda>_. True) (\<lambda>_. True) (lister v)" and "inv u" and "\<And>v l. V (x v l) = inv v"
  shows "sat P V (\<lambda>_. True) (bnd (foreach sync ts u) (\<lambda>v. bnd (lister v) (\<lambda>l.
     bnd (prune S (counted v l) (tmpl v l) (existing v l) (inSpec v l)) (\<lambda>_. ret (x v l)))) :: ('w, answer, 'a) go)"
  by (rule sat_bnd [where U = inv], rule sat_foreach, rule assms(3), rule assms(1), assumption,
      rule sat_bnd_any [OF assms(2)], rule sat_bnd_any [OF prunes], rule sat_ret, simp add: assms(4))

lemma sections_keep:
  assumes u: "inv u"
  shows "sat P inv (\<lambda>_. True) (reconcileIAMServiceAccounts S u)"
    and "sat P (\<lambda>(v, l). inv v) (\<lambda>_. True) (reconcileComputeNetworks S u)"
    and "sat P inv (\<lambda>_. True) (reconcileComputeSubnetworks S nwList u)"
    and "sat P inv (\<lambda>_. True) (reconcileContainerClusters S u)"
    and "sat P inv (\<lambda>_. True) (reconcileContainerNodePools S u)"
    and "sat P (\<lambda>(v, l). inv v) (\<lambda>_. True) (reconcileSQLInstances S u)"
    and "sat P inv (\<lambda>_. True) (reconcileSQLDatabases S sList u)"
    and "sat P inv (\<lambda>_. True) (reconcileComputeRouters S sList u)"
    and "sat P inv (\<lambda>_. True) (reconcileComputeRouterNATs S u)"
    and "sat P inv (\<lambda>_. True) (reconcileStorageBuckets S u)"
  unfolding reconcileIAMServiceAccounts_def reconcileComputeNetworks_def
    reconcileComputeSubnetworks_def reconcileContainerClusters_def reconcileContainerNodePools_def
    reconcileSQLInstances_def reconcileSQLDatabases_def reconcileComputeRouters_def
    reconcileComputeRouterNATs_def reconcileStorageBuckets_def Let_def
  by (rule section_keeps, erule syncs sync_cluster, rule lists, rule u, simp)+

lemma resources_keep:
  assumes u: "inv u"
  shows "sat P inv (\<lambda>_. True) (reconcileResources S u)"
  unfolding reconcileResources_def
  by (rule sat_bnd [OF sections_keep(1) [OF u]], rule sat_bnd [OF sections_keep(2)], assumption,
      rule sat_case_prod, simp, rule sat_bnd [OF sections_keep(3)], assumption,
      rule sat_bnd [OF sections_keep(4)], assumption, rule sat_bnd [OF sections_keep(5)], assumption,
      rule sat_bnd [OF sections_keep(6)], assumption, rule sat_case_prod, simp,
      rule sat_bnd [OF sections_keep(7)], assumption, rule sat_bnd [OF sections_keep(8)], assumption,
      rule sat_bnd [OF sections_keep(9)], assumption, rule sections_keep(10))

end

end
