(* ===== verification/UniverseObserved.thy ===== *)
theory UniverseObserved
  imports UniverseInvariants
begin

text \<open>
  When nothing is to be written: a Universe whose generation has been observed, or that has never
  been reconciled to its end.  \<open>still\<close> events update no resource of the management cluster; that the
  local Universe is \<open>observed\<close> is a \<open>section_invariant\<close> under which the sections are still.
\<close>

section \<open>Still events and observed Universes\<close>

definition still :: "event \<Rightarrow> bool" where
  "still e = (case e of EvUpdate t x r \<Rightarrow> t \<noteq> Mgmt | _ \<Rightarrow> True)"

lemma still_simps [simp]:
  "still (EvUpdate t x r) \<longleftrightarrow> t \<noteq> Mgmt" "still (EvCreate t x r)" "still (EvGet t k ns n r)" "still (EvList t k ns sel r)"
  "still (EvDelete t k ns n r)" "still (EvStatusUniverse u r)" "still (EvGetUniverse ns n r)"
  "still (EvUpdateUniverse u r)" "still (EvDeleteUniverse ns n r)" "still (EvGcp a args r)" "still (EvCredentials r)"
  "still (EvNewService a r)" "still (EvSleep d)" "still (EvListIngresses t ns r)" "still (EvUpdateIngress t ns i r)"
  by (simp_all add: still_def)

lemma far_still: "far e \<Longrightarrow> still e"
  by (cases e) (simp_all add: far_def still_def)

text \<open>
  The status subresource changes neither the generation of what is stored nor the observed one it is
  given; the API server checks the version of what it is sent, so nobody else has in between.
\<close>

definition status_keeps_generation :: "'w services \<Rightarrow> bool" where
  "status_keeps_generation S = (\<forall>v w v'. fst (svc_status_universe S v w) = Inr v' \<longrightarrow>
     Generation v' = Generation v \<and> ObservedGeneration (uStatus v') = ObservedGeneration (uStatus v))"

text \<open>The invariant: the generation has been observed, or none has; what it says of the events.\<close>

definition observed :: "'w services \<Rightarrow> Universe \<Rightarrow> bool" where
  "observed S u = (status_keeps_generation S \<longrightarrow> \<not> needs_sync u)"

definition still_if :: "'w services \<Rightarrow> event \<Rightarrow> bool" where
  "still_if S e = (status_keeps_generation S \<longrightarrow> still e)"

lemma observed_set_status:
  assumes "observed S u"
  shows "sat (still_if S) (observed S) R (set_status S a u p n)"
proof -
  let ?v = "setResources (upsert a n p (Resources (uStatus u))) u"
  have v: "observed S ?v" using assms by (simp add: observed_def needs_sync_def setResources_def)
  have "sat (still_if S) (\<lambda>r. observed S (case r of Inl e \<Rightarrow> ?v | Inr u' \<Rightarrow> u')) R (u_status S ?v)"
    unfolding u_status_def
  proof (rule sat_ask_value)
    fix x w w'
    assume x: "svc_status_universe S ?v w = (x, w')"
    have "observed S (case x of Inl e \<Rightarrow> ?v | Inr u' \<Rightarrow> u')"
    proof (cases x)
      case (Inr v')
      with x have "fst (svc_status_universe S ?v w) = Inr v'" by simp
      then have "status_keeps_generation S \<longrightarrow> Generation v' = Generation ?v \<and>
          ObservedGeneration (uStatus v') = ObservedGeneration (uStatus ?v)"
        unfolding status_keeps_generation_def by blast
      with v Inr show ?thesis by (auto simp: observed_def needs_sync_def)
    qed (use v in simp)
    then show "still_if S (EvStatusUniverse ?v (err_of x)) \<and> observed S (case x of Inl e \<Rightarrow> ?v | Inr u' \<Rightarrow> u')"
      by (simp add: still_if_def)
  qed
  then show ?thesis
    unfolding set_status_def updateStatus_upsert statusUpdate_def bnd_assoc bnd_ret_left
    by (auto intro!: sat_bnd sat_ret)
qed

interpretation observing: section_invariant S "still_if S" "observed S" for S
  by unfold_locales (auto simp: still_if_def observed_def far_still distant_far intro: observed_set_status)

section \<open>Around the sections\<close>

lemma still_statusUpdate: "emits still (statusUpdate S u)"
  by (intro emits_intros) simp

lemma still_fetch: "emits still (fetchUniverse S ns n)"
  by (auto simp: fetchUniverse_def Let_def intro!: emits_intros still_statusUpdate)

lemma still_clusters:
  "emits still (GetGKEClientsetWithTimeout S p c l)" "emits still (CreateClusterAdminToken S cs ns n)"
  "emits still (createBackUp S cfg nss n)" "emits still (createRestore S sec cfg n b)"
  "emits still (waitForBackUp S cfg n)" "emits still (waitForRestore S cfg n)" "emits still (ingressPatch S cfg suffix ns)"
proof -
  have "emits still (patch_rules S t ns suffix ing front rules)" for t ns suffix ing front rules
    by (induction rules arbitrary: front) (auto simp: Let_def intro!: emits_intros)
  then show "emits still (ingressPatch S cfg suffix ns)"
    unfolding ingressPatch_def by (auto intro!: emits_intros)
qed (auto simp: CreateClusterAdminToken_def createBackUp_def createRestore_def waitForBackUp_def waitForRestore_def
    backup_probe_def restore_probe_def intro!: emits_intros)

lemma still_finish: "emits still (finishReconcile S u)"
  by (auto simp: finishReconcile_def restorePreviews_def restoreCluster_def handleDeletion_def finalizeUniverse_def
      ensureFinalizer_def checkTTL_def recordGeneration_def intro!: emits_intros still_clusters still_statusUpdate)

section \<open>Properties\<close>

text \<open>
  C7. A resource of the management cluster is updated only for a generation of the Universe that is
  newer than the observed one, and only once a generation has been observed: otherwise a whole
  reconciliation, its waits, the set-up of its clusters, the backups and the finalizer included,
  writes no resource there, whatever the resources have become.
\<close>

theorem observed_writes_nothing:
  assumes "status_keeps_generation S" and "outcome (fetchUniverse S ns n) s = Next u"
    and "Generation u \<le> ObservedGeneration (uStatus u) \<or> ObservedGeneration (uStatus u) < 1"
  shows "EvUpdate Mgmt x r \<notin> set (events (Reconcile S ns n :: ('w, 'r, answer) go) s)"
proof -
  have u: "observed S u" using assms(3) by (auto simp: observed_def needs_sync_def)
  let ?rest = "bnd (reconcileResources S u) (\<lambda>u. finishReconcile S u) :: ('w, answer, answer) go"
  have "emits (still_if S) ?rest"
    unfolding emits_sat
    by (rule sat_bnd_any [OF sat_weaken [OF observing.resources_keep [OF u]]], simp_all)
      (rule sat_weaken [OF still_finish [unfolded emits_sat]], simp_all add: still_if_def)
  then have rest: "e \<in> set (events ?rest t) \<Longrightarrow> still e" for e t
    using assms(1) by (auto simp: emits_def still_if_def)
  have "events (Reconcile S ns n :: ('w, 'r, answer) go) s =
      events (fetchUniverse S ns n) s @ events ?rest (final (fetchUniverse S ns n) s)"
    unfolding Reconcile_def events_scope by (rule bnd_falls_through(1) [OF assms(2)])
  then have "still e" if "e \<in> set (events (Reconcile S ns n :: ('w, 'r, answer) go) s)" for e
    using that still_fetch [of S ns n] rest by (auto simp: emits_def)
  from this [of "EvUpdate Mgmt x r"] show ?thesis by auto
qed

text \<open>A Universe of one network, observed, and the network with another specification in its place.\<close>

definition settled_universe :: Universe where
  "settled_universe = zero_Universe\<lparr>Name := ''shop-7'', Namespace := ''apps'', Generation := 1,
     uStatus := (uStatus zero_Universe)\<lparr>ObservedGeneration := 1\<rparr>,
     uSpec := zero_UniverseSpec\<lparr>ProjectID := ''apps'', TTL := 86400,
       uCompute := (uCompute zero_UniverseSpec)\<lparr>ComputeNetworks := [demo_template]\<rparr>\<rparr>\<rparr>"

abbreviation settled_start :: "demo st" where
  "settled_start \<equiv> demo_state (demo_world\<lparr>dUniverses := [settled_universe],
     dObjects := [(Mgmt, demo_network\<lparr>rSpec := []\<rparr>)]\<rparr>)"

lemma demo_keeps_generation: "status_keeps_generation demo_services"
  by (auto simp: status_keeps_generation_def demo_services_def demo_put_status_def
      demo_put_universe_def same_universe_def split: option.splits if_splits dest!: find_holds)

theorem observed_writes_nothing_witness:
  "EvUpdate Mgmt (demo_network\<lparr>rSpec := Spec demo_template\<rparr>) None \<notin>
     set (events (Reconcile demo_services ''apps'' ''shop-7'' :: (demo, unit, answer) go) settled_start)"
proof (rule observed_writes_nothing)
  show "outcome (fetchUniverse demo_services ''apps'' ''shop-7'') settled_start = Next settled_universe" by code_simp
qed (rule demo_keeps_generation, simp add: settled_universe_def)

end
