(* ===== verification/UniverseStatus.thy ===== *)
theory UniverseStatus
  imports UniverseInvariants
begin

text \<open>
  The shape of the status table through a whole reconciliation: one entry per kind and name, kinds
  that the operator knows and values of \<^verbatim>\<open>pkg/common/common.go\<close>.  It is a \<open>section_invariant\<close>; the
  three status writes around the sections keep it too.
\<close>

section \<open>Well-formed tables\<close>

definition wf_table :: "ResourceStatus list \<Rightarrow> bool" where
  "wf_table rs = (distinct (map entry_key rs) \<and>
     (\<forall>r \<in> set rs. Kind r \<in> status_types \<and> Status r \<in> progress_values))"

abbreviation table :: "Universe \<Rightarrow> ResourceStatus list" where
  "table u \<equiv> Resources (uStatus u)"

lemma upsert_entries: "r \<in> set (upsert k n p rs) \<Longrightarrow> r \<in> set rs \<or> r = entry k n p"
  by (induction rs) (auto simp: upsert_Cons upsert_Nil split: if_splits)

lemma wf_upsert:
  assumes "wf_table rs" and "k \<in> status_types" and "p \<in> progress_values"
  shows "wf_table (upsert k n p rs)"
proof -
  have "distinct (map entry_key (upsert k n p rs))"
    using assms(1) by (simp add: keys_upsert wf_table_def)
  moreover have "Kind r \<in> status_types \<and> Status r \<in> progress_values" if "r \<in> set (upsert k n p rs)" for r
    using upsert_entries [OF that] assms by (auto simp: wf_table_def entry_def)
  ultimately show ?thesis by (simp add: wf_table_def)
qed

text \<open>The API server stores the table it is given and leaves it alone when the rest is updated.\<close>

definition tables_kept :: "'w services \<Rightarrow> bool" where
  "tables_kept S = (\<forall>v w v'. (fst (svc_status_universe S v w) = Inr v' \<longrightarrow> table v' = table v) \<and>
     (fst (svc_update_universe S v w) = Inr v' \<longrightarrow> table v' = table v))"

definition tabled :: "'w services \<Rightarrow> Universe \<Rightarrow> bool" where
  "tabled S u = (tables_kept S \<longrightarrow> wf_table (table u))"

definition writes_tabled :: "'w services \<Rightarrow> event \<Rightarrow> bool" where
  "writes_tabled S e = (case e of EvStatusUniverse v r \<Rightarrow> tabled S v | _ \<Rightarrow> True)"

lemma writes_tabled_simps [simp]:
  "writes_tabled S (EvStatusUniverse v r) = tabled S v" "writes_tabled S (EvCreate t x r)" "writes_tabled S (EvGet t k ns n r)"
  "writes_tabled S (EvUpdateUniverse u r)" "writes_tabled S (EvDeleteUniverse ns n r)" "writes_tabled S (EvGcp a args r)"
  "writes_tabled S (EvCredentials r)" "writes_tabled S (EvNewService a r)" "writes_tabled S (EvSleep d)"
  "writes_tabled S (EvListIngresses t ns r)" "writes_tabled S (EvUpdateIngress t ns i r)"
  by (simp_all add: writes_tabled_def)

section \<open>Every write keeps it\<close>

lemma sat_put_status:
  assumes "tabled S v"
  shows "sat (writes_tabled S) (tabled S) R (statusUpdate S v)"
proof -
  have "sat (writes_tabled S) (\<lambda>r. tabled S (case r of Inl e \<Rightarrow> v | Inr u' \<Rightarrow> u')) R (u_status S v)"
    unfolding u_status_def
  proof (rule sat_ask_value)
    fix x w w'
    assume x: "svc_status_universe S v w = (x, w')"
    have "tabled S (case x of Inl e \<Rightarrow> v | Inr u' \<Rightarrow> u')"
    proof (cases x)
      case (Inr v')
      with x have "fst (svc_status_universe S v w) = Inr v'" by simp
      then have "tables_kept S \<longrightarrow> table v' = table v" unfolding tables_kept_def by blast
      with assms Inr show ?thesis by (auto simp: tabled_def)
    qed (use assms in simp)
    with assms show "writes_tabled S (EvStatusUniverse v (err_of x)) \<and> tabled S (case x of Inl e \<Rightarrow> v | Inr u' \<Rightarrow> u')"
      by simp
  qed
  then show ?thesis
    unfolding statusUpdate_def by (auto intro!: sat_bnd sat_ret)
qed

lemma tabled_set_status:
  assumes "tabled S u" and "a \<in> status_types" and "p \<in> progress_values"
  shows "sat (writes_tabled S) (tabled S) R (set_status S a u p n)"
proof -
  have "tabled S (setResources (upsert a n p (table u)) u)"
    using assms by (simp add: tabled_def setResources_def wf_upsert)
  from sat_put_status [OF this] show ?thesis
    unfolding set_status_def updateStatus_upsert bnd_assoc bnd_ret_left
    by (auto intro!: sat_bnd sat_ret)
qed

interpretation tabling: section_invariant S "writes_tabled S" "tabled S" for S
proof unfold_locales
  show "distant e \<Longrightarrow> writes_tabled S e" for e
    by (cases e) (simp_all add: writes_tabled_def)
qed (simp_all add: writes_tabled_def tabled_set_status)

section \<open>After the sections\<close>

lemma tabled_clusters:
  "emits (writes_tabled S) (GetGKEClientsetWithTimeout S p c l)" "emits (writes_tabled S) (CreateClusterAdminToken S cs ns n)"
  "emits (writes_tabled S) (createBackUp S cfg nss n)" "emits (writes_tabled S) (createRestore S sec cfg n b)"
  "emits (writes_tabled S) (waitForBackUp S cfg n)" "emits (writes_tabled S) (waitForRestore S cfg n)"
  "emits (writes_tabled S) (ingressPatch S cfg suffix ns)"
proof -
  have "emits (writes_tabled S) (patch_rules S t ns suffix ing front rules)" for t ns suffix ing front rules
    by (induction rules arbitrary: front) (auto simp: Let_def intro!: emits_intros)
  then show "emits (writes_tabled S) (ingressPatch S cfg suffix ns)"
    unfolding ingressPatch_def by (auto intro!: emits_intros)
qed (auto simp: CreateClusterAdminToken_def createBackUp_def createRestore_def waitForBackUp_def waitForRestore_def
    backup_probe_def restore_probe_def intro!: emits_intros)

lemma tabled_around:
  "emits (writes_tabled S) (restorePreviews S u)" "emits (writes_tabled S) (handleDeletion S u)"
  "emits (writes_tabled S) (checkTTL S u)"
  by (auto simp: restorePreviews_def restoreCluster_def handleDeletion_def finalizeUniverse_def checkTTL_def
      intro!: emits_intros tabled_clusters)

lemma tabled_finalizer:
  assumes "tabled S u"
  shows "sat (writes_tabled S) (tabled S) (\<lambda>_. True) (ensureFinalizer S u)"
proof -
  let ?v = "u\<lparr>Finalizers := svc_add_finalizer S (Finalizers u) universeFinalizer\<rparr>"
  have "sat (writes_tabled S) (\<lambda>r. \<forall>y. r = Inr y \<longrightarrow> tabled S y) (\<lambda>_. True) (u_update S ?v)"
    unfolding u_update_def
  proof (rule sat_ask_value)
    fix x w w'
    assume x: "svc_update_universe S ?v w = (x, w')"
    have "tabled S y" if "x = Inr y" for y
    proof -
      have "fst (svc_update_universe S ?v w) = Inr y" using x that by simp
      then have "tables_kept S \<longrightarrow> table y = table ?v" unfolding tables_kept_def by blast
      with assms show ?thesis by (auto simp: tabled_def)
    qed
    then show "writes_tabled S (EvUpdateUniverse ?v (err_of x)) \<and> (\<forall>y. x = Inr y \<longrightarrow> tabled S y)" by simp
  qed
  then show ?thesis
    unfolding ensureFinalizer_def
    by (intro sat_if sat_bnd [where U = "\<lambda>r. \<forall>y. r = Inr y \<longrightarrow> tabled S y"] sat_case_sum sat_return sat_ret)
      (use assms in auto)
qed

lemma tabled_finish:
  assumes "tabled S u"
  shows "sat (writes_tabled S) (\<lambda>_. True) (\<lambda>_. True) (finishReconcile S u)"
proof -
  have "sat (writes_tabled S) (\<lambda>_. True) (\<lambda>_. True) (recordGeneration S v)" if "tabled S v" for v
  proof -
    have "tabled S (v\<lparr>uStatus := (uStatus v)\<lparr>ObservedGeneration := Generation v\<rparr>\<rparr>)"
      using that by (simp add: tabled_def)
    then show ?thesis
      unfolding recordGeneration_def by (rule sat_bnd [OF sat_put_status]) (rule sat_return, simp)
  qed
  then show ?thesis
    unfolding finishReconcile_def using assms tabled_around [of S, unfolded emits_sat]
    by (intro sat_bnd_any [OF tabled_around(1) [unfolded emits_sat]] sat_bnd_any [OF tabled_around(2) [unfolded emits_sat]]
        sat_bnd [OF tabled_finalizer] sat_bnd_any [OF tabled_around(3) [unfolded emits_sat]]) auto
qed

section \<open>Properties\<close>

text \<open>
  C15. The type of the status table is an invariant of a reconciliation.  When the fetched Universe's
  table has one entry per kind and name, only kinds the operator knows and only values of the status
  constants, then so has every table the reconciliation writes afterwards, in whichever section it
  stops, in its finalization and in the last write of the observed generation.
\<close>

theorem status_table_typed:
  assumes "tables_kept S" and "outcome (fetchUniverse S ns n) s = Next u" and "wf_table (Resources (uStatus u))"
  shows "\<exists>es. events (Reconcile S ns n :: ('w, 'r, answer) go) s = events (fetchUniverse S ns n) s @ es \<and>
    list_all (\<lambda>e. case e of EvStatusUniverse v r \<Rightarrow> wf_table (Resources (uStatus v)) | _ \<Rightarrow> True) es"
proof -
  have u: "tabled S u" using assms(3) by (simp add: tabled_def)
  let ?rest = "bnd (reconcileResources S u) (\<lambda>u. finishReconcile S u) :: ('w, answer, answer) go"
  have "sat (writes_tabled S) (\<lambda>_. True) (\<lambda>_. True) ?rest"
    by (rule sat_bnd [OF tabling.resources_keep [OF u] tabled_finish])
  then have "writes_tabled S e" if "e \<in> set (events ?rest t)" for e t
    using that by (rule satD_event)
  then have "list_all (\<lambda>e. case e of EvStatusUniverse v r \<Rightarrow> wf_table (table v) | _ \<Rightarrow> True) (events ?rest t)" for t
    using assms(1) by (fastforce simp: list_all_iff writes_tabled_def tabled_def split: event.split)
  moreover have "events (Reconcile S ns n :: ('w, 'r, answer) go) s =
      events (fetchUniverse S ns n) s @ events ?rest (final (fetchUniverse S ns n) s)"
    unfolding Reconcile_def events_scope by (rule bnd_falls_through(1) [OF assms(2)])
  ultimately show ?thesis by blast
qed

lemma demo_tables_kept: "tables_kept demo_services"
  by (auto simp: tables_kept_def demo_services_def demo_put_status_def demo_put_universe_def
      split: option.splits if_splits)

theorem status_table_typed_witness:
  "\<exists>es. events demo_run demo_start = events (fetchUniverse demo_services ''apps'' ''shop-7'') demo_start @ es \<and>
    list_all (\<lambda>e. case e of EvStatusUniverse v r \<Rightarrow> wf_table (Resources (uStatus v)) | _ \<Rightarrow> True) es"
proof (rule status_table_typed [OF demo_tables_kept])
  show "outcome (fetchUniverse demo_services ''apps'' ''shop-7'') demo_start = Next demo_universe" by code_simp
qed (simp add: wf_table_def demo_universe_def zero_Universe_def zero_UniverseStatus_def)

end
