(* ===== verification/NewUniverse.thy ===== *)
theory NewUniverse
  imports UniverseReconcile
begin

text \<open>
  \<open>NewUniverse\<close>, \<open>makeUniverseName\<close> and the comments of \<^verbatim>\<open>controllers/trigger_controller.go\<close>: the Universe
  the operator makes for a pull request.

  \<open>preview_universe\<close> is the object as the code spells it out, with every field of its templates;
  the local variables of \<open>NewUniverse\<close> that only name constants of it are written in place.
\<close>

definition makeUniverseName :: "string \<Rightarrow> int \<Rightarrow> string" where
  "makeUniverseName repo prNumber = repo @ ''-'' @ itoa prNumber"

section \<open>The comments\<close>

text \<open>The code's literals are UTF-8; a string is its bytes.\<close>

definition newline :: string where "newline = [CHR 0x0A]"
definition rocket :: string where "rocket = [CHR 0xF0, CHR 0x9F, CHR 0x9A, CHR 0x80]"
definition popper :: string where "popper = [CHR 0xF0, CHR 0x9F, CHR 0x8E, CHR 0x89]"
definition red_book :: string where "red_book = [CHR 0xF0, CHR 0x9F, CHR 0x93, CHR 0x95]"

definition createOpenComment :: "string \<Rightarrow> string" where
  "createOpenComment name =
     ''## '' @ rocket @ '' Preview Environment '' @ rocket @ newline @
     '' Environment for pr **'' @ name @ ''** was created successfully '' @ popper @ popper @ popper @ newline @
     '' ### Notes'' @ newline @
     '' * '' @ red_book @ ''The preview environment is open until this PR is **closed**. '' @ newline"

definition createCloseComment :: string where
  "createCloseComment =
     ''## '' @ rocket @ '' Preview Environment '' @ rocket @ newline @ ''Environment is closed.'' @ newline"

section \<open>The Universe of a pull request\<close>

definition preview_template :: "string \<Rightarrow> string \<Rightarrow> gomap \<Rightarrow> spec \<Rightarrow> TemplateSpec" where
  "preview_template namespace name annotations sp =
     \<lparr> Name = name, Namespace = namespace, Labels = None, Annotations = annotations, Spec = sp \<rparr>"

definition ref_to :: "string \<Rightarrow> val" where
  "ref_to name = VObj [(''Name'', VStr name)]"

definition preview_router :: "string \<Rightarrow> spec" where
  "preview_router name =
     [(''Description'', VStr (''Created for '' @ name)),
      (''Region'', VStr region),
      (''NetworkRef'', ref_to name)]"

definition preview_router_nat :: "string \<Rightarrow> spec" where
  "preview_router_nat name =
     [(''Region'', VStr region),
      (''RouterRef'', ref_to name),
      (''NatIpAllocateOption'', VStr ''AUTO_ONLY''),
      (''SourceSubnetworkIpRangesToNat'', VStr ''ALL_SUBNETWORKS_ALL_IP_RANGES'')]"

definition preview_network :: "string \<Rightarrow> spec" where
  "preview_network name =
     [(''Description'', VStr (''Created for '' @ name)),
      (''RoutingMode'', VStr ''REGIONAL''),
      (''AutoCreateSubnetworks'', VBool False)]"

definition preview_subnetwork :: "string \<Rightarrow> spec" where
  "preview_subnetwork name =
     [(''Description'', VStr (''Created for '' @ name)),
      (''IpCidrRange'', VStr ''10.29.0.0/16''),
      (''Region'', VStr region),
      (''NetworkRef'', ref_to name),
      (''SecondaryIpRange'', VList
        [VObj [(''IpCidrRange'', VStr ''192.168.0.0/16''), (''RangeName'', VStr ''ip-range-pod'')],
         VObj [(''IpCidrRange'', VStr ''172.16.0.0/16''), (''RangeName'', VStr ''ip-range-service'')]])]"

definition resource_limit :: "string \<Rightarrow> int \<Rightarrow> int \<Rightarrow> val" where
  "resource_limit resourceType maximum minimum =
     VObj [(''ResourceType'', VStr resourceType), (''Maximum'', VInt maximum), (''Minimum'', VInt minimum)]"

definition preview_cluster :: "string \<Rightarrow> string \<Rightarrow> spec" where
  "preview_cluster namespace name =
     [(''Description'', VStr (''Created for '' @ name)),
      (''Location'', VStr region),
      (''InitialNodeCount'', VInt 1),
      (''MinMasterVersion'', VStr ''1.23.8-gke.1900''),
      (''WorkloadIdentityConfig'', VObj [(''WorkloadPool'', VStr (namespace @ ''.svc.id.goog''))]),
      (''NetworkingMode'', VStr ''VPC_NATIVE''),
      (''NetworkRef'', ref_to name),
      (''SubnetworkRef'', ref_to name),
      (''IpAllocationPolicy'', VObj
        [(''ServicesSecondaryRangeName'', VStr ''ip-range-service''),
         (''ClusterSecondaryRangeName'', VStr ''ip-range-pod'')]),
      (''ClusterAutoscaling'', VObj
        [(''Enabled'', VBool True),
         (''AutoscalingProfile'', VStr ''BALANCED''),
         (''AutoProvisioningDefaults'', VObj [(''ServiceAccountRef'', ref_to ClusterServiceAccountName)]),
         (''ResourceLimits'', VList [resource_limit ''cpu'' 30 10, resource_limit ''memory'' 30 8])]),
      (''ReleaseChannel'', VObj [(''Channel'', VStr ''STABLE'')]),
      (''EnableBinaryAuthorization'', VBool False),
      (''EnableIntranodeVisibility'', VBool False),
      (''EnableShieldedNodes'', VBool True)]"

definition preview_node_pool :: "string \<Rightarrow> spec" where
  "preview_node_pool name =
     [(''Location'', VStr region),
      (''Autoscaling'', VObj [(''MinNodeCount'', VInt 1), (''MaxNodeCount'', VInt 5)]),
      (''InitialNodeCount'', VInt 1),
      (''NodeConfig'', VObj
        [(''MachineType'', VStr ''n1-standard-1''),
         (''DiskSizeGb'', VInt 50),
         (''DiskType'', VStr ''pd-standard''),
         (''Preemptible'', VBool True),
         (''MinCpuPlatform'', VStr ''Intel Haswell''),
         (''ServiceAccountRef'', ref_to ClusterServiceAccountName),
         (''OauthScopes'', strs
           [''https://www.googleapis.com/auth/logging.write'',
            ''https://www.googleapis.com/auth/monitoring'',
            ''https://www.googleapis.com/auth/devstorage.read_only'']),
         (''Metadata'', VObj [(''disable-legacy-endpoints'', VStr ''true'')])]),
      (''ClusterRef'', ref_to name)]"

definition preview_annotations :: "string \<Rightarrow> int \<Rightarrow> string list \<Rightarrow> string \<Rightarrow> gomap" where
  "preview_annotations repo prNumber previewServiceList prAdmin = Some
     [(''multiverse.saga.dev/cluster-addons'', ''external-dns,nginx-ingress,external-secrets,resource-patcher''),
      (''multiverse.saga.dev/repo'', repo),
      (''multiverse.saga.dev/pr'', itoa prNumber),
      (''multiverse.saga.dev/preview-services'', join_with '','' previewServiceList),
      (''multiverse.saga.dev/allow-tag'', ''^pr-'' @ itoa prNumber @ ''.*''),
      (''multiverse.saga.dev/pr-admin'', prAdmin)]"

definition preview_spec :: "string \<Rightarrow> string \<Rightarrow> string list \<Rightarrow> string \<Rightarrow> UniverseSpec" where
  "preview_spec namespace name syncTargetNamespace primaryCluster = zero_UniverseSpec
     \<lparr>ProjectID := namespace, TTL := 86400, TargetNamespaces := syncTargetNamespace, PrimaryCluster := primaryCluster,
      uCompute :=
        \<lparr> ComputeNetworks = [preview_template namespace name None (preview_network name)],
          ComputeSubnetworks = [preview_template namespace name None (preview_subnetwork name)],
          ComputeRouters = [preview_template namespace name None (preview_router name)],
          ComputeRouterNATs = [preview_template namespace name None (preview_router_nat name)] \<rparr>,
      uContainer :=
        \<lparr> ContainerClusters = [preview_template namespace name
            (Some [(''cnrm.cloud.google.com/remove-default-node-pool'', ''true'')]) (preview_cluster namespace name)],
          ContainerNodePools = [preview_template namespace name None (preview_node_pool name)] \<rparr>\<rparr>"

definition preview_universe ::
  "string \<Rightarrow> string \<Rightarrow> int \<Rightarrow> string list \<Rightarrow> string \<Rightarrow> string list \<Rightarrow> string \<Rightarrow> Universe" where
  "preview_universe namespace repo prNumber syncTargetNamespace primaryCluster previewServiceList prAdmin =
     (let name = makeUniverseName repo prNumber in
      zero_Universe\<lparr>Name := name, Namespace := namespace,
        Annotations := preview_annotations repo prNumber previewServiceList prAdmin,
        uSpec := preview_spec namespace name syncTargetNamespace primaryCluster\<rparr>)"

section \<open>NewUniverse\<close>

text \<open>
  The error of the service account's create is a new variable of the inner block: after a create
  that succeeds, the outer \<open>err\<close> is still the get's NotFound, and the next guard returns it.
\<close>

definition preview_service_account :: "string \<Rightarrow> resource" where
  "preview_service_account namespace = obj KIAMServiceAccount namespace ClusterServiceAccountName []"

definition NewUniverse ::
  "'w services \<Rightarrow> string \<Rightarrow> string \<Rightarrow> int \<Rightarrow> string list \<Rightarrow> string \<Rightarrow> string list \<Rightarrow> string \<Rightarrow>
     ('w, 'r, error option) go" where
  "NewUniverse S namespace repo prNumber syncTargetNamespace primaryCluster previewServiceList prAdmin = scope (
     let name = makeUniverseName repo prNumber in
     bnd (k_get S Mgmt KIAMServiceAccount namespace ClusterServiceAccountName) (\<lambda>foundServiceAccount.
     let err = err_of foundServiceAccount in
     bnd (if IsNotFound err then
            bnd (k_create S Mgmt (preview_service_account namespace)) (\<lambda>c. case c of
              Inl e \<Rightarrow> return (Some e)
            | Inr _ \<Rightarrow> ret ())
          else ret ()) (\<lambda>_.
     if err \<noteq> None then return err
     else
       bnd (u_get S namespace name) (\<lambda>foundUniverse. case foundUniverse of
         Inl err \<Rightarrow>
           (if IsNotFound (Some err) then
              bnd (u_create S (preview_universe namespace repo prNumber syncTargetNamespace primaryCluster
                previewServiceList prAdmin)) (\<lambda>c. return (err_of c))
            else return (Some err))
       | Inr _ \<Rightarrow> return None))))"

section \<open>Lemmas\<close>

lemma err_of_None: "err_of r = None \<longleftrightarrow> (\<exists>x. r = Inr x)"
  by (cases r) auto

lemma itoa_range: "0 \<le> n \<Longrightarrow> CHR ''-'' \<notin> set (itoa n)"
  by (rule itoa_no_dash)

text \<open>What is behind the last dash.\<close>

lemma last_dash_unique:
  assumes "xs @ CHR ''-'' # ys = xs' @ CHR ''-'' # ys'" and "CHR ''-'' \<notin> set ys" and "CHR ''-'' \<notin> set ys'"
  shows "xs = xs' \<and> ys = ys'"
  using assms by (induction xs arbitrary: xs') (auto simp: Cons_eq_append_conv append_eq_Cons_conv)

text \<open>The references of a specification, by the kind of the field, and whether a Universe resolves them.\<close>

definition ref_kind :: "string \<Rightarrow> kind option" where
  "ref_kind f = map_of [(''NetworkRef'', KComputeNetwork), (''SubnetworkRef'', KComputeSubnetwork),
     (''ClusterRef'', KContainerCluster), (''RouterRef'', KComputeRouter), (''InstanceRef'', KSQLInstance)] f"

definition spec_refs :: "spec \<Rightarrow> (kind \<times> string) list" where
  "spec_refs sp = concat (map (\<lambda>(f, v). case ref_kind f of None \<Rightarrow> [] | Some k \<Rightarrow> [(k, ref_name (Some v))]) sp)"

definition refs_resolved :: "UniverseSpec \<Rightarrow> bool" where
  "refs_resolved sp = list_all (\<lambda>k. list_all (\<lambda>e. list_all (\<lambda>(k', n). k' < k \<and>
     list_ex (\<lambda>e'. Name e' = n \<and> Namespace e' = Namespace e) (templates k' sp)) (spec_refs (Spec e)))
     (templates k sp)) resource_kinds"

lemma refs_resolvedD:
  assumes "refs_resolved sp" and "k \<le> KStorageBucket" and "e \<in> set (templates k sp)" and "(k', n) \<in> set (spec_refs (Spec e))"
  obtains e' where "k' < k" and "e' \<in> set (templates k' sp)" and "Name e' = n" and "Namespace e' = Namespace e"
proof -
  have "k \<in> set resource_kinds" using assms(2) resource_kinds_le by blast
  with assms(1,3,4) show thesis using that
    unfolding refs_resolved_def by (fastforce simp: list_all_iff list_ex_iff)
qed

lemma preview_refs_resolved: "refs_resolved (preview_spec namespace name targets primary)"
  by (simp add: refs_resolved_def resource_kinds_def preview_spec_def zero_UniverseSpec_def preview_template_def
      spec_refs_def ref_kind_def preview_network_def preview_subnetwork_def preview_cluster_def
      preview_node_pool_def preview_router_def preview_router_nat_def ref_to_def less_kind_def)

text \<open>
  While the clusters' service account is missing, \<open>NewUniverse\<close> makes no Universe and returns an
  error, even when it has just created the account: the get's NotFound.
\<close>

lemma new_universe_without_account:
  assumes "svc_get S Mgmt KIAMServiceAccount ns ClusterServiceAccountName (world s) = (Inl ENotFound, w)"
  shows "\<exists>e. outcome (NewUniverse S ns repo i targets primary services admin :: ('w, 'r, error option) go) s =
      Next (Some (case e of None \<Rightarrow> ENotFound | Some x \<Rightarrow> x)) \<and>
    events (NewUniverse S ns repo i targets primary services admin :: ('w, 'r, error option) go) s =
      [EvGet Mgmt KIAMServiceAccount ns ClusterServiceAccountName (Some ENotFound), EvCreate Mgmt (preview_service_account ns) e]"
  using assms
  by (cases "svc_create S Mgmt (preview_service_account ns) w"; cases "fst (svc_create S Mgmt (preview_service_account ns) w)")
    (auto simp: NewUniverse_def Let_def scope_def k_get_def k_create_def ask_def bnd_def run_defs)

section \<open>Properties\<close>

text \<open>
  C10. When a resource of a pull request's Universe is created, every resource it refers to (its
  network, subnetwork, cluster or router) has been got before in the same reconciliation, and was there
  or its get failed with an error other than NotFound; where the gets of the reconciliation fail with
  NotFound only, it was there.
\<close>

theorem preview_references_first:
  assumes "status_keeps S" and "outcome (fetchUniverse S ns n) s = Next u"
    and "uSpec u = preview_spec namespace name targets primary"
    and "events (Reconcile S ns n :: ('w, 'r, answer) go) s = us @ EvCreate Mgmt x c # vs"
    and "(k, m) \<in> set (spec_refs (rSpec x))"
  shows "(\<exists>r. r \<noteq> Some ENotFound \<and> EvGet Mgmt k (Namespace x) m r \<in> set us) \<and>
    (list_all get_sound us \<longrightarrow> EvGet Mgmt k (Namespace x) m None \<in> set us)"
proof -
  from create_position [OF assms(1,4)] assms(2) obtain before e after ann where
    e: "templates (rKind x) (uSpec u) = before @ e # after" and le: "rKind x \<le> KStorageBucket"
    and x: "x = controlled S u (new_resource (rKind x) u e ann)"
    and seen: "\<forall>k. k < rKind x \<longrightarrow> seen k (templates k (uSpec u)) us" by auto
  have "rSpec x = Spec e" "Namespace x = Namespace e" by (subst x, simp)+
  moreover have "e \<in> set (templates (rKind x) (uSpec u))" unfolding e by simp
  ultimately obtain e' where "k < rKind x" "e' \<in> set (templates k (uSpec u))" "Name e' = m" "Namespace e' = Namespace x"
    using refs_resolvedD [OF preview_refs_resolved le, of e namespace name targets primary k m] assms(3,5) by auto
  with seen have "\<exists>r. r \<noteq> Some ENotFound \<and> EvGet Mgmt k (Namespace x) m r \<in> set us"
    unfolding seen_def list_all_iff by metis
  then show ?thesis using sound_found by blast
qed

definition preview_demo :: Universe where
  "preview_demo = preview_universe ''apps'' ''shop'' 7 [''web''] ''main'' [''api''] ''MEMBER''"

definition preview_start :: "demo st" where
  "preview_start = demo_state (demo_world\<lparr>dUniverses := [preview_demo],
     dObjects := [(Mgmt, (zero_resource KComputeNetwork)\<lparr>Name := ''shop-7'', Namespace := ''apps''\<rparr>)]\<rparr>)"

definition preview_created :: "Universe \<Rightarrow> resource" where
  "preview_created u = controlled demo_services u (new_resource KComputeSubnetwork u
     (preview_template ''apps'' ''shop-7'' None (preview_subnetwork ''shop-7'')) None)"

theorem preview_references_first_witness:
  "\<exists>us vs. events demo_run preview_start = us @ EvCreate Mgmt (preview_created preview_demo) None # vs \<and>
     EvGet Mgmt KComputeNetwork ''apps'' ''shop-7'' None \<in> set us"
proof -
  have "EvCreate Mgmt (preview_created preview_demo) None \<in> set (events demo_run preview_start)" by code_simp
  then obtain us vs where run: "events demo_run preview_start = us @ EvCreate Mgmt (preview_created preview_demo) None # vs"
    by (auto simp: in_set_conv_decomp)
  have u: "outcome (fetchUniverse demo_services ''apps'' ''shop-7'') preview_start =
      Next (preview_demo\<lparr>uStatus := (uStatus preview_demo)\<lparr>Repository := ''shop'', PR := ''7''\<rparr>\<rparr>)" by code_simp
  have "(KComputeNetwork, ''shop-7'') \<in> set (spec_refs (rSpec (preview_created preview_demo)))" by code_simp
  moreover have "uSpec (preview_demo\<lparr>uStatus := (uStatus preview_demo)\<lparr>Repository := ''shop'', PR := ''7''\<rparr>\<rparr>) =
      preview_spec ''apps'' ''shop-7'' [''web''] ''main''" by code_simp
  moreover have "list_all get_sound (events demo_run preview_start)" by code_simp
  then have "list_all get_sound us" unfolding run by simp
  ultimately have "EvGet Mgmt KComputeNetwork (Namespace (preview_created preview_demo)) ''shop-7'' None \<in> set us"
    using preview_references_first [OF demo_keeps(1) u _ run] by blast
  moreover have "Namespace (preview_created preview_demo) = ''apps''" by code_simp
  ultimately show ?thesis using run by auto
qed

text \<open>
  C40. The names of the Universes of pull requests of one owner's repositories are different; the
  owner is no part of the name, so that pull requests of the same number of \<open>a/x\<close> and \<open>b/x\<close> share one.
\<close>

theorem universe_names_differ:
  assumes "0 \<le> i" and "0 \<le> j" and "makeUniverseName a i = makeUniverseName b j"
  shows "a = b \<and> i = j"
proof -
  have "a @ CHR ''-'' # itoa i = b @ CHR ''-'' # itoa j" using assms(3) by (simp add: makeUniverseName_def)
  from last_dash_unique [OF this itoa_range itoa_range] assms(1,2) show ?thesis using itoa_inj by blast
qed

theorem universe_names_differ_witness: "makeUniverseName ''shop'' 7 \<noteq> makeUniverseName ''shop-1'' 7"
  using universe_names_differ [of 7 7 "''shop''" "''shop-1''"] by auto

text \<open>
  The Universe made for a pull request never reaches its time to live, at no time and whenever
  it was created.
\<close>

theorem preview_never_expires:
  "\<not> ttl_reached ((preview_universe namespace repo prNumber targets primary services admin)\<lparr>CreationTimestamp := c\<rparr>) t"
proof -
  have "sint (86400 :: 64 word) = 86400" by simp
  moreover have "c mod 60 + 86400 < 2 ^ 63" using Second_range [of c] by simp
  moreover have "\<not> c mod 60 + 86400 < t mod 60" using Second_range [of t] Second_range [of c] by linarith
  ultimately show ?thesis
    by (simp add: ttl_reached_def sint_Second_plus sint_Second preview_universe_def preview_spec_def Let_def)
qed

text \<open>
  \<open>NewUniverse\<close> returns nil only when the clusters' service account was there and the Universe was
  there or has just been created as it should be.
\<close>

theorem new_universe_nil:
  assumes "outcome (NewUniverse S ns repo i targets primary services admin :: ('w, 'r, error option) go) s = Next None"
  shows "\<exists>sa q es. events (NewUniverse S ns repo i targets primary services admin :: ('w, 'r, error option) go) s =
      EvGet Mgmt KIAMServiceAccount ns ClusterServiceAccountName None # EvGetUniverse ns (makeUniverseName repo i) q # es \<and>
    fst (svc_get S Mgmt KIAMServiceAccount ns ClusterServiceAccountName (world s)) = Inr sa \<and>
    (q = None \<and> es = [] \<or>
     q = Some ENotFound \<and> es = [EvCreateUniverse (preview_universe ns repo i targets primary services admin) None])"
  using assms
  by (cases "svc_get S Mgmt KIAMServiceAccount ns ClusterServiceAccountName (world s)")
    (auto simp: NewUniverse_def Let_def scope_def k_get_def k_create_def u_get_def u_create_def ask_def bnd_def run_defs
      IsNotFound_def err_of_None split: sum.splits prod.splits flow.splits if_splits)

theorem new_universe_nil_witness:
  "let w = demo_world\<lparr>dObjects := [(Mgmt, preview_service_account ''apps'')]\<rparr> in
   \<exists>sa. fst (svc_get demo_services Mgmt KIAMServiceAccount ''apps'' ClusterServiceAccountName w) = Inr sa"
proof -
  let ?s = "demo_state (demo_world\<lparr>dObjects := [(Mgmt, preview_service_account ''apps'')]\<rparr>)"
  have "outcome (NewUniverse demo_services ''apps'' ''shop'' 7 [] ''main'' [] ''MEMBER'' :: (demo, unit, error option) go) ?s =
      Next None" by code_simp
  from new_universe_nil [OF this] show ?thesis by (auto simp: demo_state_def)
qed

end
