(* ===== verification/PreviewSpared.thy ===== *)
theory PreviewSpared
  imports UniverseSettles UniverseInvariants NewUniverse
begin

text \<open>
  Which Universes the pruning leaves whole.

  Three of the ten sections of \<^verbatim>\<open>controllers/universe_controller.go\<close> delete from the list of another
  kind, and the NATs are compared with the routers' names.  \<open>prune_safe\<close> is the condition on a
  specification under which none of that reaches an object that a template asks for; the sections then
  spare all of them (\<open>resources_spare\<close>), which \<open>template_invariant\<close> gives for the loops over the
  templates.  The Universe of a pull request is \<open>prune_safe\<close>, so that it comes up with no hypothesis on
  the deletes.
\<close>

section \<open>The condition\<close>

definition covered :: "UniverseSpec \<Rightarrow> kind \<Rightarrow> kind \<Rightarrow> bool" where
  "covered sp k k' = (set (map Name (templates k sp)) \<subseteq> set (map Name (templates k' sp)))"

definition prune_safe :: "UniverseSpec \<Rightarrow> bool" where
  "prune_safe sp = (covered sp KComputeNetwork KComputeSubnetwork \<and> covered sp KSQLInstance KSQLDatabase \<and>
     covered sp KSQLInstance KComputeRouter \<and> covered sp KComputeRouterNAT KComputeRouter)"

lemma covered_refl [simp]: "covered sp k k"
  by (simp add: covered_def)

lemma preview_prune_safe: "prune_safe (preview_spec namespace name targets primary)"
  by (simp add: prune_safe_def covered_def preview_spec_def zero_UniverseSpec_def preview_template_def)

text \<open>A list of the API server holds objects of the kind it was asked for.\<close>

definition lists_of_kind :: "'w services \<Rightarrow> bool" where
  "lists_of_kind S = (\<forall>t k ns sel w xs. fst (svc_list S t k ns sel w) = Inr xs \<longrightarrow> (\<forall>x \<in> set xs. rKind x = k))"

abbreviation all_of :: "kind \<Rightarrow> resource list \<Rightarrow> bool" where
  "all_of k xs \<equiv> \<forall>x \<in> set xs. rKind x = k"

section \<open>The sections spare the templates\<close>

definition sparing_event :: "UniverseSpec \<Rightarrow> event \<Rightarrow> bool" where
  "sparing_event sp e = (case deletes_key e of None \<Rightarrow> True | Some k \<Rightarrow> k \<notin> set (template_keys sp))"

definition has_spec :: "'w services \<Rightarrow> UniverseSpec \<Rightarrow> Universe \<Rightarrow> bool" where
  "has_spec S sp u = (status_keeps S \<longrightarrow> uSpec u = sp)"

lemma spares_alt: "spares (set (template_keys sp)) es \<longleftrightarrow> list_all (sparing_event sp) es"
  unfolding spares_def sparing_event_def by (rule refl)

lemma sparing_quiet: "quiet e \<Longrightarrow> sparing_event sp e"
  by (cases e) (simp_all add: sparing_event_def deletes_key_def)

lemma sparing_late: "late S u e \<Longrightarrow> sparing_event sp e"
  by (cases e) (simp_all add: late_def sparing_event_def deletes_key_def)

lemma template_key: "(k, m, n) \<in> set (template_keys sp) \<Longrightarrow> n \<in> set (map Name (templates k sp))"
  by (auto simp: template_keys_def)

interpretation sparing: template_invariant S "sparing_event sp" "has_spec S sp" for S sp
proof unfold_locales
  fix a u p n
  assume "has_spec S sp u"
  then show "sat (sparing_event sp) (has_spec S sp) (\<lambda>_. True) (set_status S a u p n)"
    by (intro sat_weaken [OF sat_set_status_keeps])
      (auto simp: sparing_quiet keeps_def has_spec_def same_universe_spec_def)
qed (auto simp: sparing_event_def deletes_key_def intro: far_quiet distant_far sparing_quiet [unfolded sparing_event_def deletes_key_def])

lemma prune_spares:
  assumes "all_of k existing" and "set (map Name (templates k sp)) \<subseteq> set (map Name inSpec)"
  shows "sat (sparing_event sp) (\<lambda>_. True) R (prune S counted ts existing inSpec)"
proof -
  have "sparing_event sp (EvDelete Mgmt (rKind x) (Namespace x) (Name x) r)"
    if "x \<in> set existing" "Name x \<notin> set (map Name inSpec)" for x r
    using that assms template_key [of k "Namespace x" "Name x" sp]
    by (auto simp: sparing_event_def deletes_key_def)
  then show ?thesis
    unfolding prune_def k_delete_def
    by (intro sat_if sat_foreach sat_ret sat_bnd_any sat_ask) simp_all
qed

lemma lists_kind:
  assumes "lists_of_kind S" and P: "\<And>e. quiet e \<Longrightarrow> P e"
  shows "sat P (\<lambda>l. all_of k (items_of l)) R (listForUniverse S k sel)"
  unfolding listForUniverse_def k_list_def
proof (rule sat_ask_value)
  fix x w w'
  assume "svc_list S Mgmt k [] (entries sel) w = (x, w')"
  then have "fst (svc_list S Mgmt k [] (entries sel) w) = x" by simp
  with assms(1) have "x = Inr xs \<Longrightarrow> all_of k xs" for xs unfolding lists_of_kind_def by blast
  then have "all_of k (items_of x)" by (cases x) (simp_all add: items_of_def)
  then show "P (EvList Mgmt k [] (entries sel) (err_of x)) \<and> all_of k (items_of x)"
    by (simp add: P)
qed

lemma section_spares:
  assumes keep: "status_keeps S" and u: "has_spec S sp u"
    and sync: "\<And>e u. has_spec S sp u \<Longrightarrow> sat (sparing_event sp) (has_spec S sp) (\<lambda>_. True) (sync e u)"
    and lister: "\<And>v. sat (sparing_event sp) (\<lambda>l. all_of k (items_of l)) (\<lambda>_. True) (lister v)"
    and kinds: "\<And>v l. all_of k (items_of l) \<Longrightarrow> all_of k' (existing v l)"
    and names: "\<And>v l. uSpec v = sp \<Longrightarrow> set (map Name (templates k' sp)) \<subseteq> set (map Name (inSpec v l))"
    and val: "\<And>v l. has_spec S sp v \<Longrightarrow> all_of k (items_of l) \<Longrightarrow> V (x v l)"
  shows "sat (sparing_event sp) V (\<lambda>_. True) (bnd (foreach sync ts u) (\<lambda>v. bnd (lister v) (\<lambda>l.
     bnd (prune S (counted v l) (tmpl v l) (existing v l) (inSpec v l)) (\<lambda>_. ret (x v l)))) :: ('w, answer, 'a) go)"
proof (rule sat_bnd)
  show "sat (sparing_event sp) (has_spec S sp) (\<lambda>_. True) (foreach sync ts u)"
    by (rule sat_foreach [OF u sync])
  fix v
  assume v: "has_spec S sp v"
  show "sat (sparing_event sp) V (\<lambda>_. True) (bnd (lister v) (\<lambda>l.
     bnd (prune S (counted v l) (tmpl v l) (existing v l) (inSpec v l)) (\<lambda>_. ret (x v l))))"
  proof (rule sat_bnd [OF lister])
    fix l
    assume l: "all_of k (items_of l)"
    have "uSpec v = sp" using v keep by (simp add: has_spec_def)
    from prune_spares [OF kinds [OF l] names [OF this]] val [OF v l]
    show "sat (sparing_event sp) V (\<lambda>_. True)
       (bnd (prune S (counted v l) (tmpl v l) (existing v l) (inSpec v l)) (\<lambda>_. ret (x v l)))"
      by (intro sat_bnd_any sat_ret)
  qed
qed

lemma sections_spare:
  assumes keep: "status_keeps S" and lists: "lists_of_kind S" and safe: "prune_safe sp" and u: "has_spec S sp u"
  shows "sat (sparing_event sp) (has_spec S sp) (\<lambda>_. True) (reconcileIAMServiceAccounts S u)"
    and "sat (sparing_event sp) (\<lambda>(v, l). has_spec S sp v \<and> all_of KComputeNetwork l) (\<lambda>_. True) (reconcileComputeNetworks S u)"
    and "all_of KComputeNetwork nwList \<Longrightarrow>
      sat (sparing_event sp) (has_spec S sp) (\<lambda>_. True) (reconcileComputeSubnetworks S nwList u)"
    and "sat (sparing_event sp) (has_spec S sp) (\<lambda>_. True) (reconcileContainerClusters S u)"
    and "sat (sparing_event sp) (has_spec S sp) (\<lambda>_. True) (reconcileContainerNodePools S u)"
    and "sat (sparing_event sp) (\<lambda>(v, l). has_spec S sp v \<and> all_of KSQLInstance l) (\<lambda>_. True) (reconcileSQLInstances S u)"
    and "all_of KSQLInstance sList \<Longrightarrow>
      sat (sparing_event sp) (has_spec S sp) (\<lambda>_. True) (reconcileSQLDatabases S sList u)"
    and "all_of KSQLInstance sList \<Longrightarrow>
      sat (sparing_event sp) (has_spec S sp) (\<lambda>_. True) (reconcileComputeRouters S sList u)"
    and "sat (sparing_event sp) (has_spec S sp) (\<lambda>_. True) (reconcileComputeRouterNATs S u)"
    and "sat (sparing_event sp) (has_spec S sp) (\<lambda>_. True) (reconcileStorageBuckets S u)"
  using safe
  unfolding reconcileIAMServiceAccounts_def reconcileComputeNetworks_def
    reconcileComputeSubnetworks_def reconcileContainerClusters_def reconcileContainerNodePools_def
    reconcileSQLInstances_def reconcileSQLDatabases_def reconcileComputeRouters_def
    reconcileComputeRouterNATs_def reconcileStorageBuckets_def list_defs prune_safe_def covered_def Let_def
  by - (rule section_spares [OF keep u], erule sparing.syncs sparing.sync_cluster, rule lists_kind [OF lists sparing_quiet], assumption,
      (assumption | simp)+)+

lemma resources_spare:
  assumes "status_keeps S" and "lists_of_kind S" and "prune_safe sp" and "has_spec S sp u"
  shows "sat (sparing_event sp) (\<lambda>_. True) (\<lambda>_. True) (reconcileResources S u)"
proof -
  note secs = sections_spare [OF assms(1-3)]
  have "sat (sparing_event sp) (has_spec S sp) (\<lambda>_. True) (reconcileResources S u)"
    unfolding reconcileResources_def
    by (rule sat_bnd [OF secs(1) [OF assms(4)]], rule sat_bnd [OF secs(2)], assumption,
        rule sat_case_prod, clarsimp, rule sat_bnd [OF secs(3)], assumption, simp,
        rule sat_bnd [OF secs(4)], assumption, rule sat_bnd [OF secs(5)], assumption,
        rule sat_bnd [OF secs(6)], assumption, rule sat_case_prod, clarsimp,
        rule sat_bnd [OF secs(7)], assumption, simp, rule sat_bnd [OF secs(8)], assumption, simp,
        rule sat_bnd [OF secs(9)], assumption, rule secs(10))
  then show ?thesis by (rule sat_weaken) simp_all
qed

text \<open>A whole reconciliation of such a Universe.\<close>

lemma reconcile_spares:
  fixes S :: "'w services" and s :: "'w st"
  assumes "status_keeps S" and "lists_of_kind S" and "prune_safe (uSpec u)" and u: "outcome (fetchUniverse S ns n) s = Next u"
  shows "spares (set (template_keys (uSpec u))) (events (Reconcile S ns n :: ('w, 'r, answer) go) s)"
proof -
  let ?rest = "bnd (reconcileResources S u) (\<lambda>u. finishReconcile S u) :: ('w, answer, answer) go" and ?P = "sparing_event (uSpec u)"
  have "has_spec S (uSpec u) u" by (simp add: has_spec_def)
  then have "emits ?P ?rest"
    unfolding emits_sat
    by (intro sat_bnd_any [OF resources_spare [OF assms(1-3)]] sat_weaken [OF sat_finish])
      (simp_all add: sparing_late)
  moreover have "emits ?P (fetchUniverse S ns n :: ('w, answer, Universe) go)"
    by (rule emits_weaken [OF emits_fetch]) (simp add: sparing_quiet)
  moreover have "events (Reconcile S ns n :: ('w, 'r, answer) go) s =
      events (fetchUniverse S ns n) s @ events ?rest (final (fetchUniverse S ns n) s)"
    unfolding Reconcile_def events_scope by (rule bnd_falls_through(1) [OF u])
  ultimately show ?thesis by (auto simp: spares_alt list_all_iff emits_def)
qed

lemma rounds_spare:
  assumes "status_keeps S" and "lists_of_kind S" and "prune_safe sp"
    and "\<And>i. i < m \<Longrightarrow> \<exists>u. outcome (fetchUniverse S ns n) (after_rounds S ns n s i) = Next u \<and> uSpec u = sp"
  shows "spares (set (template_keys sp)) (rounds_trace S ns n s m)"
  using reconcile_spares [OF assms(1,2)] assms(3,4)
  unfolding rounds_trace_def spares_def list_all_iff round_events_def by fastforce

text \<open>The Universe of a pull request is up within seven reconciliations.\<close>

theorem preview_comes_up:
  fixes namespace name targets primary
  defines "sp \<equiv> preview_spec namespace name targets primary"
  assumes "status_keeps S" and "lists_of_kind S"
    and "\<And>i. i \<le> 6 \<Longrightarrow> \<exists>u. outcome (fetchUniverse S ns n) (after_rounds S ns n s i) = Next u \<and> uSpec u = sp"
    and "\<And>i. i \<le> 6 \<Longrightarrow> \<exists>r. round_answer S ns n s i = Next (r, None)"
    and "list_all get_sound (rounds_trace S ns n s 7)" and "created_stay [] (rounds_trace S ns n s 7)"
  shows "\<exists>i \<le> 6. \<forall>k. k \<le> KStorageBucket \<longrightarrow> found_all k (templates k sp) (round_events S ns n s i)"
proof -
  have six: "template_count sp = 6"
    by (simp add: sp_def template_count_def resource_kinds_def preview_spec_def zero_UniverseSpec_def)
  have "spares (set (template_keys sp)) (rounds_trace S ns n s 7)"
    by (rule rounds_spare [OF assms(2,3)]) (use assms(4) preview_prune_safe sp_def in auto)
  then show ?thesis
    using rounds_up [of S sp ns n s] assms(2,4-7) six by auto
qed

section \<open>Properties\<close>

text \<open>
  C8. A reconciliation deletes no object that its Universe's specification asks for, provided that
  every network's name is also a subnetwork's, every database instance's name a database's and a
  router's, and every NAT's name a router's: what the sections compare the lists with.
\<close>

theorem templates_spared:
  assumes "status_keeps S" and "lists_of_kind S" and "outcome (fetchUniverse S ns n) s = Next u"
    and "prune_safe (uSpec u)" and "e \<in> set (templates k (uSpec u))" and "k \<le> KStorageBucket"
  shows "EvDelete Mgmt k (Namespace e) (Name e) r \<notin> set (events (Reconcile S ns n :: ('w, 'r, answer) go) s)"
proof
  assume "EvDelete Mgmt k (Namespace e) (Name e) r \<in> set (events (Reconcile S ns n :: ('w, 'r, answer) go) s)"
  with reconcile_spares [OF assms(1,2,4,3)]
  have "(k, Namespace e, Name e) \<notin> set (template_keys (uSpec u))"
    by (auto simp: spares_def list_all_iff deletes_key_def split: option.splits)
  moreover have "k \<in> set resource_kinds" using assms(6) resource_kinds_le by blast
  ultimately show False using assms(5) by (auto simp: template_keys_def)
qed

text \<open>A network and a subnetwork of one name, and a network left over from an older specification.\<close>

definition stale_network :: resource where
  "stale_network = (zero_resource KComputeNetwork)\<lparr>Name := ''old'', Namespace := ''apps'', Labels := Some [(''universe'', ''shop-7'')]\<rparr>"

abbreviation stale_start :: "demo st" where
  "stale_start \<equiv> demo_state (demo_world\<lparr>dUniverses := [small_universe],
     dObjects := [(Mgmt, stale_network), (Mgmt, demo_network)]\<rparr>)"

lemma demo_lists_of_kind: "lists_of_kind demo_services"
  by (auto simp: lists_of_kind_def demo_services_def)

theorem templates_spared_witness:
  "EvDelete Mgmt KComputeNetwork ''apps'' ''old'' None \<in> set (events demo_run stale_start) \<and>
   EvDelete Mgmt KComputeNetwork (Namespace demo_template) (Name demo_template) None \<notin> set (events demo_run stale_start)"
proof
  show "EvDelete Mgmt KComputeNetwork ''apps'' ''old'' None \<in> set (events demo_run stale_start)" by code_simp
  show "EvDelete Mgmt KComputeNetwork (Namespace demo_template) (Name demo_template) None \<notin> set (events demo_run stale_start)"
  proof (rule templates_spared [OF demo_keeps(1) demo_lists_of_kind])
    show "outcome (fetchUniverse demo_services ''apps'' ''shop-7'') stale_start = Next small_universe" by code_simp
    show "prune_safe (uSpec small_universe)" by code_simp
  qed (simp_all add: small_universe_def less_eq_kind_def)
qed

end
