(* ===== verification/CrossedLists.thy ===== *)
theory CrossedLists
  imports UniverseSync PreviewSpared
begin

text \<open>
  The three sections of \<^verbatim>\<open>controllers/universe_controller.go\<close> that clean up with the list of another kind,
  those of subnetworks, databases and routers: what each deletes from the list it is given
  (\<open>given_section_deletes\<close> of theory UniverseSync), and what follows from the lists that \<open>Reconcile\<close>
  gives them.  \<open>template_invariant\<close> carries the second part through the loops over the templates.
\<close>

section \<open>Through the sections\<close>

definition crossed_kinds :: "kind list" where
  "crossed_kinds = [KComputeSubnetwork, KSQLDatabase, KComputeRouter]"

definition leaves_crossed :: "event \<Rightarrow> bool" where
  "leaves_crossed e = (case e of EvDelete t k ns n r \<Rightarrow> k \<notin> set crossed_kinds | _ \<Rightarrow> True)"

lemma leaves_quiet: "quiet e \<Longrightarrow> leaves_crossed e"
  by (cases e) (simp_all add: leaves_crossed_def)

lemma leaves_deleted: "list_all leaves_crossed es \<Longrightarrow> k \<in> set crossed_kinds \<Longrightarrow> (k, ns, n) \<notin> set (deleted es)"
  by (induction es rule: deleted.induct) (auto simp: leaves_crossed_def)

lemma leaves_late: "late S u e \<Longrightarrow> leaves_crossed e"
  by (cases e) (simp_all add: late_def leaves_crossed_def)

interpretation crossed: template_invariant S leaves_crossed "\<lambda>_. True" for S
proof unfold_locales
  show "sat leaves_crossed (\<lambda>_. True) (\<lambda>_. True) (set_status S a u p n :: ('w, answer, Universe) go)"
    for S :: "'w services" and a u p n
    by (rule sat_weaken [OF sat_set_status_keeps]) (simp_all add: leaves_quiet)
qed (auto simp: leaves_crossed_def intro: far_quiet distant_far leaves_quiet [unfolded leaves_crossed_def])

lemma prune_leaves:
  assumes "all_of k existing" and "k \<notin> set crossed_kinds"
  shows "sat leaves_crossed (\<lambda>_. True) R (prune S counted ts existing inSpec)"
proof -
  have "leaves_crossed (EvDelete Mgmt (rKind x) (Namespace x) (Name x) r)" if "x \<in> set existing" for x r
    using that assms by (simp add: leaves_crossed_def)
  then show ?thesis
    unfolding prune_def k_delete_def
    by (intro sat_if sat_foreach sat_ret sat_bnd_any sat_ask) simp_all
qed

text \<open>A section whose clean-up goes over a list of a kind that is none of the three.\<close>

lemma section_leaves:
  assumes sync: "\<And>e u. sat leaves_crossed (\<lambda>_. True) (\<lambda>_. True) (sync e u)"
    and lister: "\<And>v. sat leaves_crossed (\<lambda>l. all_of k (items_of l)) (\<lambda>_. True) (lister v)"
    and kinds: "\<And>v l. all_of k (items_of l) \<Longrightarrow> all_of k' (existing v l)" and k': "k' \<notin> set crossed_kinds"
    and val: "\<And>v l. all_of k (items_of l) \<Longrightarrow> V (x v l)"
  shows "sat leaves_crossed V (\<lambda>_. True) (bnd (foreach sync ts u) (\<lambda>v. bnd (lister v) (\<lambda>l.
     bnd (prune S (counted v l) (tmpl v l) (existing v l) (inSpec v l)) (\<lambda>_. ret (x v l)))) :: ('w, answer, 'a) go)"
  by (rule sat_bnd [of _ "\<lambda>_. True"], rule sat_foreach, simp, rule sync, rule sat_bnd [OF lister],
      rule sat_bnd_any, rule prune_leaves [OF kinds k'], assumption, rule sat_ret, erule val)

lemma sections_leave:
  assumes lists: "lists_of_kind S"
  shows "sat leaves_crossed (\<lambda>_. True) (\<lambda>_. True) (reconcileIAMServiceAccounts S u)"
    and "sat leaves_crossed (\<lambda>(v, l). all_of KComputeNetwork l) (\<lambda>_. True) (reconcileComputeNetworks S u)"
    and "all_of KComputeNetwork nwList \<Longrightarrow>
      sat leaves_crossed (\<lambda>_. True) (\<lambda>_. True) (reconcileComputeSubnetworks S nwList u)"
    and "sat leaves_crossed (\<lambda>_. True) (\<lambda>_. True) (reconcileContainerClusters S u)"
    and "sat leaves_crossed (\<lambda>_. True) (\<lambda>_. True) (reconcileContainerNodePools S u)"
    and "sat leaves_crossed (\<lambda>(v, l). all_of KSQLInstance l) (\<lambda>_. True) (reconcileSQLInstances S u)"
    and "all_of KSQLInstance sList \<Longrightarrow>
      sat leaves_crossed (\<lambda>_. True) (\<lambda>_. True) (reconcileSQLDatabases S sList u)"
    and "all_of KSQLInstance sList \<Longrightarrow>
      sat leaves_crossed (\<lambda>_. True) (\<lambda>_. True) (reconcileComputeRouters S sList u)"
    and "sat leaves_crossed (\<lambda>_. True) (\<lambda>_. True) (reconcileComputeRouterNATs S u)"
    and "sat leaves_crossed (\<lambda>_. True) (\<lambda>_. True) (reconcileStorageBuckets S u)"
  unfolding reconcileIAMServiceAccounts_def reconcileComputeNetworks_def
    reconcileComputeSubnetworks_def reconcileContainerClusters_def reconcileContainerNodePools_def
    reconcileSQLInstances_def reconcileSQLDatabases_def reconcileComputeRouters_def
    reconcileComputeRouterNATs_def reconcileStorageBuckets_def list_defs Let_def
  by (rule section_leaves, rule crossed.syncs crossed.sync_cluster, simp, rule lists_kind [OF lists leaves_quiet], assumption,
      (assumption | simp add: crossed_kinds_def)+)+

lemma resources_leave:
  assumes "lists_of_kind S"
  shows "sat leaves_crossed (\<lambda>_. True) (\<lambda>_. True) (reconcileResources S u)"
proof -
  note secs = sections_leave [OF assms]
  show ?thesis
    unfolding reconcileResources_def
    by (rule sat_bnd_any [OF secs(1)], rule sat_bnd [OF secs(2)], rule sat_case_prod, clarsimp,
        rule sat_bnd_any [OF secs(3)], simp, rule sat_bnd_any [OF secs(4)], rule sat_bnd_any [OF secs(5)],
        rule sat_bnd [OF secs(6)], rule sat_case_prod, clarsimp, rule sat_bnd_any [OF secs(7)], simp,
        rule sat_bnd_any [OF secs(8)], simp, rule sat_bnd_any [OF secs(9)], rule secs(10))
qed

lemma reconcile_leaves:
  assumes "lists_of_kind S"
  shows "emits leaves_crossed (Reconcile S ns n :: ('w, 'r, answer) go)"
proof -
  have "emits leaves_crossed (bnd (reconcileResources S u) (\<lambda>u. finishReconcile S u) :: ('w, answer, answer) go)" for u
    unfolding emits_sat
    by (intro sat_bnd_any [OF resources_leave [OF assms]] sat_weaken [OF sat_finish]) (simp_all add: leaves_late)
  moreover have "emits leaves_crossed (fetchUniverse S ns n :: ('w, answer, Universe) go)"
    by (rule emits_weaken [OF emits_fetch]) (simp add: leaves_quiet)
  ultimately show ?thesis
    unfolding Reconcile_def by - (rule emits_scope, rule emits_bnd)
qed

section \<open>Properties\<close>

text \<open>
  C14. The sections of subnetworks, databases and routers count their own resources but delete from
  the list they are given: those of it whose names are none of the section's templates', however they
  stand in the specification.  In \<open>Reconcile\<close> that list is never one of these kinds: when lists hold
  objects of the kind they were asked for, a reconciliation deletes no subnetwork, no database and no
  router at all, however many more of them there are than templates.
\<close>

theorem other_list_deleted:
  assumes "k \<in> {KComputeSubnetwork, KSQLDatabase, KComputeRouter}"
  shows "(\<forall>v. outcome (given_section S k l u) s = Next v \<longrightarrow>
      deleted (events (given_section S k l u) s) =
        (if length (templates k (uSpec v)) < length (listed S k v (listing_world S k u s))
         then map key_of (filter (\<lambda>x. Name x \<notin> Name ` set (templates k (uSpec v))) l) else [])) \<and>
    (lists_of_kind S \<longrightarrow>
      (\<forall>kns kn. (k, kns, kn) \<notin> set (deleted (events (Reconcile S ns n :: ('w, 'r, answer) go) t))))"
proof (intro conjI allI impI)
  fix v
  assume "outcome (given_section S k l u) s = Next v"
  then show "deleted (events (given_section S k l u) s) =
      (if length (templates k (uSpec v)) < length (listed S k v (listing_world S k u s))
       then map key_of (filter (\<lambda>x. Name x \<notin> Name ` set (templates k (uSpec v))) l) else [])"
    by (rule given_section_deletes [OF assms])
next
  fix kns kn
  assume "lists_of_kind S"
  from reconcile_leaves [OF this] have "list_all leaves_crossed (events (Reconcile S ns n :: ('w, 'r, answer) go) t)"
    by (auto simp: emits_def list_all_iff)
  from leaves_deleted [OF this] assms show "(k, kns, kn) \<notin> set (deleted (events (Reconcile S ns n :: ('w, 'r, answer) go) t))"
    by (auto simp: crossed_kinds_def)
qed

text \<open>
  The network is in the specification, the surplus is a subnetwork: the section, given the networks,
  deletes the network, and the reconciliation, too.
\<close>

abbreviation network_there :: "target \<times> resource" where
  "network_there \<equiv> there KComputeNetwork ''shop-7''"

definition network_universe :: Universe where
  "network_universe = zero_Universe\<lparr>Name := ''shop-7'', Namespace := ''apps'', Generation := 1,
     uSpec := zero_UniverseSpec\<lparr>ProjectID := ''apps'', TTL := 86400,
       uCompute := (uCompute zero_UniverseSpec)\<lparr>ComputeNetworks := [demo_template]\<rparr>\<rparr>\<rparr>"

abbreviation subnetwork_start :: "demo st" where
  "subnetwork_start \<equiv> demo_state (demo_world\<lparr>dUniverses := [network_universe],
     dObjects := [network_there, there KComputeSubnetwork ''old'']\<rparr>)"

abbreviation subnetwork_section :: "(demo, answer, Universe) go" where
  "subnetwork_section \<equiv> given_section demo_services KComputeSubnetwork [snd network_there] network_universe"

theorem other_list_deleted_witness:
  "(\<exists>v. [(KComputeNetwork, ''apps'', ''shop-7'')] =
      (if length (templates KComputeSubnetwork (uSpec v)) < length (listed demo_services KComputeSubnetwork v
          (listing_world demo_services KComputeSubnetwork network_universe subnetwork_start))
       then map key_of (filter (\<lambda>x. Name x \<notin> Name ` set (templates KComputeSubnetwork (uSpec v))) [snd network_there])
       else [])) \<and>
   deleted (events demo_run subnetwork_start) = [(KComputeNetwork, ''apps'', ''shop-7'')] \<and>
   (KComputeSubnetwork, ''apps'', ''old'') \<notin> set (deleted (events demo_run subnetwork_start))"
proof (intro conjI)
  have k: "KComputeSubnetwork \<in> {KComputeSubnetwork, KSQLDatabase, KComputeRouter}" by simp
  have "case outcome subnetwork_section subnetwork_start of Next v \<Rightarrow> True | _ \<Rightarrow> False" by code_simp
  from falls_through [OF this] obtain v where v: "outcome subnetwork_section subnetwork_start = Next v" by blast
  have del: "deleted (events subnetwork_section subnetwork_start) = [(KComputeNetwork, ''apps'', ''shop-7'')]"
    by code_simp
  from other_list_deleted [OF k, of demo_services] v
  show "\<exists>v. [(KComputeNetwork, ''apps'', ''shop-7'')] =
      (if length (templates KComputeSubnetwork (uSpec v)) < length (listed demo_services KComputeSubnetwork v
          (listing_world demo_services KComputeSubnetwork network_universe subnetwork_start))
       then map key_of (filter (\<lambda>x. Name x \<notin> Name ` set (templates KComputeSubnetwork (uSpec v))) [snd network_there])
       else [])"
    unfolding del [symmetric] by blast
  show "deleted (events demo_run subnetwork_start) = [(KComputeNetwork, ''apps'', ''shop-7'')]" by code_simp
  from other_list_deleted [OF k, of demo_services] demo_lists_of_kind
  show "(KComputeSubnetwork, ''apps'', ''old'') \<notin> set (deleted (events demo_run subnetwork_start))" by blast
qed

end
