(* ===== verification/TriggerReconcile.thy ===== *)
theory TriggerReconcile
  imports NewUniverse
begin

text \<open>
  \<open>TriggerReconciler.Reconcile\<close> (\<^verbatim>\<open>controllers/trigger_controller.go\<close>): for every repository of a Trigger,
  make a Universe for each open pull request that asks for a preview, keep the cron job that
  reconciles the Trigger again, and delete the Universe of each closed pull request.

  What has been done for a pull request is kept in its labels.  \<open>history\<close> follows one pull request
  through any number of runs of the two loops' bodies, with its users' edits in between, and reads its
  labels and whether its Universe exists off the calls those runs make.
\<close>

section \<open>Labels\<close>

text \<open>\<open>*label.Name\<close> of every label, in order; a nil name panics.\<close>

fun label_names :: "string option list \<Rightarrow> string list option" where
  "label_names [] = Some []"
| "label_names (None # ls) = None"
| "label_names (Some l # ls) = map_option ((#) l) (label_names ls)"

text \<open>
  \<open>regexp.Compile(`svc\/.+`)\<close> and \<open>MatchString\<close>: somewhere \<open>svc/\<close> and then a character other than a newline.
\<close>

fun svc_match :: "string \<Rightarrow> bool" where
  "svc_match [] = False"
| "svc_match (x # xs) =
     (is_prefix ''svc/'' (x # xs) \<and> drop 4 (x # xs) \<noteq> [] \<and> hd (drop 4 (x # xs)) \<noteq> CHR 0x0A \<or> svc_match xs)"

definition preview_services :: "gomap \<Rightarrow> string list \<Rightarrow> string list" where
  "preview_services labelToDeploymentMap labelNames = map (mget labelToDeploymentMap) (filter svc_match labelNames)"

text \<open>\<open>append\<close>, then remove the first occurrence by slicing around it.\<close>

definition wants_preview :: "string list \<Rightarrow> bool" where
  "wants_preview labelNames = (\<not> stringInSlice ''preview-created'' labelNames \<and> stringInSlice ''preview'' labelNames)"

definition opened_labels :: "string list \<Rightarrow> string list" where
  "opened_labels labelNames = remove1 ''preview-closed'' (labelNames @ [''preview-created''])"

definition wants_teardown :: "string list \<Rightarrow> bool" where
  "wants_teardown labelNames = (\<not> stringInSlice ''preview-closed'' labelNames \<and> stringInSlice ''preview'' labelNames)"

definition closed_labels :: "string list \<Rightarrow> string list" where
  "closed_labels labelNames = remove1 ''preview-created'' (labelNames @ [''preview-closed''])"

section \<open>Pull requests\<close>

text \<open>
  The comment and the label edit of both loops.  Errors are only logged, so that a request that could
  not be made is nil when \<open>Do\<close> reads it, which panics; in the loops that cannot happen, because the
  list of pull requests they go through was asked for under the same path.
\<close>

definition comment_url :: "string \<Rightarrow> string \<Rightarrow> int \<Rightarrow> string" where
  "comment_url owner repository n = ''repos/'' @ owner @ ''/'' @ repository @ ''/issues/'' @ itoa n @ ''/comments''"

definition comment_and_label ::
  "'w services \<Rightarrow> string \<Rightarrow> string \<Rightarrow> string \<Rightarrow> int \<Rightarrow> string \<Rightarrow> string list \<Rightarrow> ('w, 'r, unit) go" where
  "comment_and_label S gitToken owner repository n content newLabels =
     (let payload = \<lparr> Body = content, PullNumber = Some n, Owner = owner, Repo = repository \<rparr>;
          u = comment_url owner repository n in
      case svc_repo_request S owner repository of
        Some err \<Rightarrow> panic ''nil request''
      | None \<Rightarrow>
      bnd (github_do S gitToken (u, payload)) (\<lambda>_.
      bnd (edit_labels S gitToken owner repository n newLabels) (\<lambda>_. ret ())))"

definition openPullRequest ::
  "'w services \<Rightarrow> string \<Rightarrow> string \<Rightarrow> Trigger \<Rightarrow> string \<Rightarrow> string \<Rightarrow> pull \<Rightarrow> ('w, 'r, unit) go" where
  "openPullRequest S gitToken namespace trigger owner repository pr = (case label_names (LabelPtrs pr) of
       None \<Rightarrow> panic ''nil label name''
     | Some labelNames \<Rightarrow>
         if wants_preview labelNames then (case Number pr of
             None \<Rightarrow> panic ''nil number''
           | Some n \<Rightarrow>
               bnd (NewUniverse S namespace repository n (TriggerTargetNamespaces (tSpec trigger))
                 (TriggerPrimaryCluster (tSpec trigger))
                 (preview_services (LabelToDeploymentMap (tSpec trigger)) labelNames) (AuthorAssociation pr)) (\<lambda>err.
               comment_and_label S gitToken owner repository n (createOpenComment (makeUniverseName repository n))
                 (opened_labels labelNames)))
         else ret ())"

definition closedPullRequest ::
  "'w services \<Rightarrow> string \<Rightarrow> string \<Rightarrow> string \<Rightarrow> string \<Rightarrow> pull \<Rightarrow> ('w, 'r, unit) go" where
  "closedPullRequest S gitToken namespace owner repository pr = (case label_names (LabelPtrs pr) of
       None \<Rightarrow> panic ''nil label name''
     | Some labelNames \<Rightarrow>
         if wants_teardown labelNames then (case Number pr of
             None \<Rightarrow> panic ''nil number''
           | Some n \<Rightarrow>
               bnd (u_get S namespace (makeUniverseName repository n)) (\<lambda>r.
               bnd (u_delete S (case r of Inl err \<Rightarrow> zero_Universe | Inr u \<Rightarrow> u)) (\<lambda>err.
               comment_and_label S gitToken owner repository n createCloseComment (closed_labels labelNames))))
         else ret ())"

section \<open>The cron job\<close>

definition quote :: string where "quote = [CHR 0x22]"

definition cron_job :: "string \<Rightarrow> string \<Rightarrow> int \<Rightarrow> resource" where
  "cron_job namespace triggerName minutes = (let cronName = triggerName @ ''-cron'' in
     obj KCronJob namespace cronName
       [(''Schedule'', VStr (''*/'' @ itoa minutes @ '' * * * *'')),
        (''ConcurrencyPolicy'', VStr ''Replace''),
        (''JobTemplate'', VObj
          [(''RestartPolicy'', VStr ''OnFailure''),
           (''Containers'', VList [VObj
              [(''Name'', VStr cronName),
               (''Image'', VStr ''bitnami/kubectl:1.24.3-debian-11-r11''),
               (''Command'', strs [''sh'', ''-c'', ''kubectl annotate --overwrite trigger '' @ triggerName @
                  '' triggers.multiverse.saga.dev/last-sync-timestamp='' @ quote @ ''$(date)'' @ quote])]]),
           (''ServiceAccountName'', VStr cronName)])])"

definition cron_role :: "string \<Rightarrow> string \<Rightarrow> resource" where
  "cron_role namespace cronName = obj KRole namespace cronName
     [(''Rules'', VList [policy_rule [''multiverse.saga.dev''] [''triggers'']
        [''get'', ''watch'', ''list'', ''patch'', ''update'']])]"

definition cron_role_binding :: "string \<Rightarrow> string \<Rightarrow> resource" where
  "cron_role_binding namespace cronName = obj KRoleBinding namespace cronName
     [(''RoleRef'', VObj [(''APIGroup'', VStr ''rbac.authorization.k8s.io''), (''Kind'', VStr ''Role''), (''Name'', VStr cronName)]),
      (''Subjects'', VList [sa_subject cronName namespace])]"

definition owned_by_trigger :: "'w services \<Rightarrow> Trigger \<Rightarrow> resource \<Rightarrow> resource" where
  "owned_by_trigger S t x = x\<lparr>Controller := svc_set_controller_reference S ''Trigger'' (Namespace t) (Name t) x\<rparr>"

text \<open>What is created, in order.\<close>

definition cron_objects :: "'w services \<Rightarrow> string \<Rightarrow> Trigger \<Rightarrow> resource list" where
  "cron_objects S namespace t = (let cronName = Name t @ ''-cron'' in map (owned_by_trigger S t)
     [service_account namespace cronName, cron_role namespace cronName, cron_role_binding namespace cronName,
      cron_job namespace (Name t) (RequeueAfterMinutes (tSpec t))])"

definition ensureCron :: "'w services \<Rightarrow> string \<Rightarrow> Trigger \<Rightarrow> ('w, 'r, unit) go" where
  "ensureCron S namespace t =
     bnd (k_get S Mgmt KCronJob namespace (Name t @ ''-cron'')) (\<lambda>r.
     if IsNotFound (err_of r)
     then foreach (\<lambda>x _. bnd (k_create S Mgmt x) (\<lambda>_. ret ())) (cron_objects S namespace t) ()
     else ret ())"

section \<open>Reconcile\<close>

definition recordTriggerGeneration :: "'w services \<Rightarrow> Trigger \<Rightarrow> ('w, 'r, Trigger) go" where
  "recordTriggerGeneration S t =
     (let t' = t\<lparr>tStatus := (tStatus t)\<lparr>TriggerObservedGeneration := Generation t\<rparr>\<rparr> in
      bnd (t_status S t') (\<lambda>r. ret (case r of Inl e \<Rightarrow> t' | Inr u \<Rightarrow> u)))"

definition pulls_or_none :: "error + pull list \<Rightarrow> pull list" where
  "pulls_or_none l = (case l of Inl err \<Rightarrow> [] | Inr prs \<Rightarrow> prs)"

definition reconcileRepository ::
  "'w services \<Rightarrow> string \<Rightarrow> string \<Rightarrow> string \<Rightarrow> Trigger \<Rightarrow> ('w, 'r, Trigger) go" where
  "reconcileRepository S gitToken namespace repo trigger = (case split_on CHR ''/'' repo of
       owner # repository # rest \<Rightarrow>
         bnd (pulls_list S gitToken owner repository ''open'') (\<lambda>prListOpen.
         bnd (foreach (\<lambda>pr _. openPullRequest S gitToken namespace trigger owner repository pr)
           (pulls_or_none prListOpen) ()) (\<lambda>_.
         bnd (ensureCron S namespace trigger) (\<lambda>_.
         bnd (recordTriggerGeneration S trigger) (\<lambda>trigger.
         bnd (pulls_list S gitToken owner repository ''closed'') (\<lambda>prListClosed.
         bnd (foreach (\<lambda>pr _. closedPullRequest S gitToken namespace owner repository pr)
           (pulls_or_none prListClosed) ()) (\<lambda>_.
         ret trigger))))))
     | _ \<Rightarrow> panic ''index out of range'')"

definition ReconcileTrigger :: "'w services \<Rightarrow> string \<Rightarrow> string \<Rightarrow> ('w, 'r, answer) go" where
  "ReconcileTrigger S namespace name = scope (
     bnd (t_get S namespace name) (\<lambda>r. case r of
       Inl err \<Rightarrow> (if IsNotFound (Some err) then return (no_requeue, None) else return (no_requeue, Some err))
     | Inr trigger \<Rightarrow>
     bnd (if TriggerObservedGeneration (tStatus trigger) = Generation trigger
          then record_event (Namespace trigger) (Name trigger) else ret ()) (\<lambda>_.
     bnd (k_get S Mgmt KSecret namespace (CredentialSecretRef (tSpec trigger))) (\<lambda>foundGitSecret.
     let gitToken = data_of ''token'' (found_or_zero KSecret foundGitSecret) in
     bnd (foreach (reconcileRepository S gitToken namespace) (Respositories (tSpec trigger)) trigger) (\<lambda>_.
     return (no_requeue, None))))))"

section \<open>Lemmas\<close>

lemma label_names_Some: "label_names ls = Some names \<longleftrightarrow> ls = map Some names"
proof (induction ls arbitrary: names rule: label_names.induct)
  case (3 l ls)
  then show ?case by (cases names) auto
qed auto

lemma new_universe_falls_through: "\<exists>e. outcome (NewUniverse S ns repo i targets primary services admin :: ('w, 'r, error option) go) s = Next e"
  by (auto simp: NewUniverse_def Let_def scope_def k_get_def k_create_def u_get_def u_create_def ask_def bnd_def run_defs
      split: sum.splits prod.splits flow.splits if_splits)

definition comment_of :: "string \<Rightarrow> string \<Rightarrow> int \<Rightarrow> string \<Rightarrow> string \<times> comment" where
  "comment_of owner repository n content = (comment_url owner repository n,
     \<lparr> Body = content, PullNumber = Some n, Owner = owner, Repo = repository \<rparr>)"

text \<open>What the two calls of \<open>comment_and_label\<close> leave in the trace: both, or neither where it panics.\<close>

definition noted :: "'w services \<Rightarrow> string \<Rightarrow> string \<Rightarrow> int \<Rightarrow> string \<Rightarrow> string list \<Rightarrow> event list \<Rightarrow> bool" where
  "noted S owner repository n content ls es =
     (if svc_repo_request S owner repository = None
      then (\<exists>c d. es = [EvComment (comment_of owner repository n content) c, EvEditLabels owner repository n ls d])
      else es = [])"

lemma comment_and_label_run:
  "noted S owner repository n content ls (events (comment_and_label S tok owner repository n content ls :: ('w, 'r, unit) go) s)"
  "outcome (comment_and_label S tok owner repository n content ls :: ('w, 'r, unit) go) s =
     (if svc_repo_request S owner repository = None then Next () else Panic ''nil request'')"
  by (auto simp: comment_and_label_def noted_def comment_of_def Let_def github_do_def edit_labels_def events_ask outcome_ask
      split: option.split) (auto simp: run_defs)

text \<open>Adding a label and taking the other away.\<close>

lemma opened_labels_set:
  "distinct ls \<Longrightarrow> ''preview-created'' \<notin> set ls \<Longrightarrow>
    distinct (opened_labels ls) \<and> set (opened_labels ls) = insert ''preview-created'' (set ls - {''preview-closed''})"
  by (auto simp: opened_labels_def)

lemma closed_labels_set:
  "distinct ls \<Longrightarrow> ''preview-closed'' \<notin> set ls \<Longrightarrow>
    distinct (closed_labels ls) \<and> set (closed_labels ls) = insert ''preview-closed'' (set ls - {''preview-created''})"
  by (auto simp: closed_labels_def)

section \<open>The labels and the environment along the runs\<close>

text \<open>What a call changes: the labels of the pull request, and whether its Universe exists.\<close>

definition labels_event :: "string \<Rightarrow> string \<Rightarrow> int \<Rightarrow> event \<Rightarrow> string list \<Rightarrow> string list" where
  "labels_event owner repo n e ls = (case e of
       EvEditLabels o1 r1 i ls' None \<Rightarrow> (if o1 = owner \<and> r1 = repo \<and> i = n then ls' else ls)
     | _ \<Rightarrow> ls)"

definition environment_event :: "string \<Rightarrow> string \<Rightarrow> event \<Rightarrow> bool \<Rightarrow> bool" where
  "environment_event ns name e env = (case e of
       EvCreateUniverse u None \<Rightarrow> env \<or> (Namespace u = ns \<and> Name u = name)
     | EvDeleteUniverse a b None \<Rightarrow> env \<and> \<not> (a = ns \<and> b = name)
     | _ \<Rightarrow> env)"

definition labels_after :: "string \<Rightarrow> string \<Rightarrow> int \<Rightarrow> event list \<Rightarrow> string list \<Rightarrow> string list" where
  "labels_after owner repo n = fold (labels_event owner repo n)"

definition environment_after :: "string \<Rightarrow> string \<Rightarrow> event list \<Rightarrow> bool \<Rightarrow> bool" where
  "environment_after ns name = fold (environment_event ns name)"

text \<open>
  A call that goes well in a world where the Universe exists or not: the service account is there, a
  get of the Universe tells whether it exists, its create, its delete and the label edit succeed.
  The answer to a comment, and to the delete of another Universe (the zero one), does not matter.
\<close>

definition goes_well :: "string \<Rightarrow> string \<Rightarrow> bool \<Rightarrow> event \<Rightarrow> bool" where
  "goes_well ns name env e = (case e of
       EvGet t k a b r \<Rightarrow> r = None
     | EvGetUniverse a b r \<Rightarrow> r = (if env then None else Some ENotFound)
     | EvCreateUniverse u r \<Rightarrow> r = None
     | EvDeleteUniverse a b r \<Rightarrow> a = ns \<and> b = name \<longrightarrow> r = None
     | EvEditLabels o1 r1 i ls r \<Rightarrow> r = None
     | _ \<Rightarrow> True)"

text \<open>The users' part: they label as they like, but leave the operator's two labels alone.\<close>

definition operator_labels :: "string set" where
  "operator_labels = {''preview-created'', ''preview-closed''}"

definition user_edit :: "string list \<Rightarrow> string list \<Rightarrow> bool" where
  "user_edit ls ls' \<longleftrightarrow> distinct ls' \<and> set ls' \<inter> operator_labels = set ls \<inter> operator_labels"

text \<open>
  A run of the loops' bodies on the pull request with these labels, in any state of the operator: by the
  loop over the open pull requests, or by that over the closed ones.
\<close>

inductive visit :: "'w services \<Rightarrow> string \<Rightarrow> Trigger \<Rightarrow> string \<Rightarrow> string \<Rightarrow> int \<Rightarrow> bool \<Rightarrow> string list \<Rightarrow> event list \<Rightarrow> bool"
  for S :: "'w services" and ns t owner repo n where
  opened: "LabelPtrs pr = map Some ls \<Longrightarrow> Number pr = Some n \<Longrightarrow>
    (openPullRequest S tok ns t owner repo pr :: ('w, answer, unit) go) s = (Next (), es, s') \<Longrightarrow> visit S ns t owner repo n True ls es"
| closed: "LabelPtrs pr = map Some ls \<Longrightarrow> Number pr = Some n \<Longrightarrow>
    (closedPullRequest S tok ns owner repo pr :: ('w, answer, unit) go) s = (Next (), es, s') \<Longrightarrow> visit S ns t owner repo n False ls es"

text \<open>The labels and the existence of the Universe after any number of visits that go well and edits by users.\<close>

inductive history :: "'w services \<Rightarrow> string \<Rightarrow> Trigger \<Rightarrow> string \<Rightarrow> string \<Rightarrow> int \<Rightarrow> string list \<Rightarrow> bool \<Rightarrow> bool"
  for S :: "'w services" and ns t owner repo n where
  fresh: "distinct ls \<Longrightarrow> set ls \<inter> operator_labels = {} \<Longrightarrow> history S ns t owner repo n ls False"
| users: "history S ns t owner repo n ls env \<Longrightarrow> user_edit ls ls' \<Longrightarrow> history S ns t owner repo n ls' env"
| visited: "history S ns t owner repo n ls env \<Longrightarrow> visit S ns t owner repo n b ls es \<Longrightarrow>
    list_all (goes_well ns (makeUniverseName repo n) env) es \<Longrightarrow>
    history S ns t owner repo n (labels_after owner repo n es ls) (environment_after ns (makeUniverseName repo n) es env)"

text \<open>The same for visits by the loop over the closed pull requests only, whatever its calls are answered.\<close>

inductive stays_closed :: "'w services \<Rightarrow> string \<Rightarrow> Trigger \<Rightarrow> string \<Rightarrow> string \<Rightarrow> int \<Rightarrow> string list \<Rightarrow> bool \<Rightarrow> string list \<Rightarrow> bool \<Rightarrow> bool"
  for S :: "'w services" and ns t owner repo n ls0 env0 where
  now_closed: "stays_closed S ns t owner repo n ls0 env0 ls0 env0"
| users_again: "stays_closed S ns t owner repo n ls0 env0 ls env \<Longrightarrow> user_edit ls ls' \<Longrightarrow> stays_closed S ns t owner repo n ls0 env0 ls' env"
| visited_again: "stays_closed S ns t owner repo n ls0 env0 ls env \<Longrightarrow> visit S ns t owner repo n False ls es \<Longrightarrow>
    stays_closed S ns t owner repo n ls0 env0 (labels_after owner repo n es ls) (environment_after ns (makeUniverseName repo n) es env)"

lemma labels_after_simps [simp]:
  "labels_after owner repo n [] ls = ls"
  "labels_after owner repo n (es @ es') ls = labels_after owner repo n es' (labels_after owner repo n es ls)"
  "labels_after owner repo n (EvEditLabels owner repo n ls' None # es) ls = labels_after owner repo n es ls'"
  "labels_after owner repo n (EvEditLabels owner repo n ls' (Some x) # es) ls = labels_after owner repo n es ls"
  "labels_after owner repo n (EvComment req c # es) ls = labels_after owner repo n es ls"
  "labels_after owner repo n (EvGetUniverse a b r # es) ls = labels_after owner repo n es ls"
  "labels_after owner repo n (EvCreateUniverse u r # es) ls = labels_after owner repo n es ls"
  "labels_after owner repo n (EvDeleteUniverse a b r # es) ls = labels_after owner repo n es ls"
  "labels_after owner repo n (EvGet tg k a b r # es) ls = labels_after owner repo n es ls"
  by (simp_all add: labels_after_def labels_event_def)

lemma environment_after_simps [simp]:
  "environment_after ns name [] env = env"
  "environment_after ns name (es @ es') env = environment_after ns name es' (environment_after ns name es env)"
  "environment_after ns name (EvEditLabels o1 r1 i ls c # es) env = environment_after ns name es env"
  "environment_after ns name (EvComment req c # es) env = environment_after ns name es env"
  "environment_after ns name (EvGetUniverse a b c # es) env = environment_after ns name es env"
  "environment_after ns name (EvCreateUniverse u None # es) env =
     environment_after ns name es (env \<or> (Namespace u = ns \<and> Name u = name))"
  "environment_after ns name (EvDeleteUniverse a b c # es) env =
     environment_after ns name es (env \<and> \<not> (c = None \<and> a = ns \<and> b = name))"
  "environment_after ns name (EvGet tg k a b c # es) env = environment_after ns name es env"
  by (auto simp: environment_after_def environment_event_def split: option.split)

lemma goes_well_simps [simp]:
  "goes_well ns name env (EvGet tg k a b r) \<longleftrightarrow> r = None"
  "goes_well ns name env (EvGetUniverse a b r) \<longleftrightarrow> r = (if env then None else Some ENotFound)"
  "goes_well ns name env (EvCreateUniverse u r) \<longleftrightarrow> r = None"
  "goes_well ns name env (EvDeleteUniverse a b r) \<longleftrightarrow> (a = ns \<and> b = name \<longrightarrow> r = None)"
  "goes_well ns name env (EvEditLabels o1 r1 i ls r) \<longleftrightarrow> r = None"
  "goes_well ns name env (EvComment req r)"
  by (simp_all add: goes_well_def)

lemma open_run:
  fixes S :: "'w services"
  assumes "LabelPtrs pr = map Some ls" and "Number pr = Some n" and "wants_preview ls"
  shows "\<exists>es. events (openPullRequest S tok ns t owner repo pr :: ('w, 'r, unit) go) s =
      events (NewUniverse S ns repo n (TriggerTargetNamespaces (tSpec t)) (TriggerPrimaryCluster (tSpec t))
        (preview_services (LabelToDeploymentMap (tSpec t)) ls) (AuthorAssociation pr) :: ('w, unit, error option) go) s @ es \<and>
      noted S owner repo n (createOpenComment (makeUniverseName repo n)) (opened_labels ls) es"
    and "outcome (openPullRequest S tok ns t owner repo pr :: ('w, 'r, unit) go) s =
      (if svc_repo_request S owner repo = None then Next () else Panic ''nil request'')"
    and "''preview-created'' \<in> set (opened_labels ls)"
proof -
  let ?args = "(preview_services (LabelToDeploymentMap (tSpec t)) ls)"
  let ?new = "NewUniverse S ns repo n (TriggerTargetNamespaces (tSpec t)) (TriggerPrimaryCluster (tSpec t)) ?args (AuthorAssociation pr)"
  obtain e where e: "outcome (?new :: ('w, 'r, error option) go) s = Next e" using new_universe_falls_through by blast
  have same: "events (?new :: ('w, 'r, error option) go) s = events (?new :: ('w, unit, error option) go) s"
    by (simp add: NewUniverse_def events_scope)
  note run = openPullRequest_def label_names_Some [THEN iffD2, OF refl] bnd_falls_through [OF e] same
  show "\<exists>es. events (openPullRequest S tok ns t owner repo pr :: ('w, 'r, unit) go) s =
      events (?new :: ('w, unit, error option) go) s @ es \<and>
      noted S owner repo n (createOpenComment (makeUniverseName repo n)) (opened_labels ls) es"
    using assms comment_and_label_run(1) by (simp add: run) blast
  show "outcome (openPullRequest S tok ns t owner repo pr :: ('w, 'r, unit) go) s =
      (if svc_repo_request S owner repo = None then Next () else Panic ''nil request'')"
    using assms by (simp add: run comment_and_label_run(2) split del: if_split)
  show "''preview-created'' \<in> set (opened_labels ls)"
    using assms(3) by (auto simp: opened_labels_def wants_preview_def remove1_append)
qed

lemma closed_run:
  fixes S :: "'w services"
  assumes "LabelPtrs pr = map Some ls" and "Number pr = Some n" and "wants_teardown ls"
  shows "\<exists>r u d es. events (closedPullRequest S tok ns owner repo pr :: ('w, 'r, unit) go) s =
         EvGetUniverse ns (makeUniverseName repo n) (err_of r) # EvDeleteUniverse (Namespace u) (Name u) d # es \<and>
       noted S owner repo n createCloseComment (closed_labels ls) es \<and>
       r = fst (svc_get_universe S ns (makeUniverseName repo n) (world s)) \<and>
       u = (case r of Inl err \<Rightarrow> zero_Universe | Inr u \<Rightarrow> u)"
    and "outcome (closedPullRequest S tok ns owner repo pr :: ('w, 'r, unit) go) s =
      (if svc_repo_request S owner repo = None then Next () else Panic ''nil request'')"
    and "''preview-closed'' \<in> set (closed_labels ls)"
proof -
  note run = closedPullRequest_def label_names_Some [THEN iffD2, OF refl] u_get_def u_delete_def events_ask outcome_ask
  show "\<exists>r u d es. events (closedPullRequest S tok ns owner repo pr :: ('w, 'r, unit) go) s =
         EvGetUniverse ns (makeUniverseName repo n) (err_of r) # EvDeleteUniverse (Namespace u) (Name u) d # es \<and>
       noted S owner repo n createCloseComment (closed_labels ls) es \<and>
       r = fst (svc_get_universe S ns (makeUniverseName repo n) (world s)) \<and>
       u = (case r of Inl err \<Rightarrow> zero_Universe | Inr u \<Rightarrow> u)"
    using assms comment_and_label_run(1) by (simp add: run) blast
  show "outcome (closedPullRequest S tok ns owner repo pr :: ('w, 'r, unit) go) s =
      (if svc_repo_request S owner repo = None then Next () else Panic ''nil request'')"
    using assms by (simp add: run comment_and_label_run(2) split del: if_split)
  show "''preview-closed'' \<in> set (closed_labels ls)"
    using assms(3) by (auto simp: closed_labels_def wants_teardown_def remove1_append)
qed

definition gets_named :: "'w services \<Rightarrow> bool" where
  "gets_named S = (\<forall>ns n w u. fst (svc_get_universe S ns n w) = Inr u \<longrightarrow> Namespace u = ns \<and> Name u = n)"

text \<open>What a visit does, by its kind.\<close>

lemma opened_visit:
  fixes S :: "'w services"
  assumes "visit S ns t owner repo n True ls es"
  shows "if wants_preview ls then \<exists>targets primary services admin s c d. es =
      events (NewUniverse S ns repo n targets primary services admin :: ('w, unit, error option) go) (s :: 'w st) @
      [EvComment (comment_of owner repo n (createOpenComment (makeUniverseName repo n))) c,
       EvEditLabels owner repo n (opened_labels ls) d]
    else es = []"
  using assms
proof (cases rule: visit.cases)
  case (opened pr tok s s')
  let ?run = "openPullRequest S tok ns t owner repo pr :: ('w, answer, unit) go"
  have run: "events ?run s = es" "outcome ?run s = Next ()" using opened(3) by (simp_all add: run_defs)
  show ?thesis
  proof (cases "wants_preview ls")
    case True
    then show ?thesis
      using open_run(1,2) [OF opened(1,2) True, of S tok ns t owner repo s, where ?'r = answer] run
      by (auto simp: noted_def split: if_splits) blast
  next
    case False
    then show ?thesis
      using run opened(1) by (simp add: openPullRequest_def label_names_Some [THEN iffD2, OF refl] run_defs)
  qed
qed simp

lemma closed_visit:
  fixes S :: "'w services"
  assumes "visit S ns t owner repo n False ls es"
  shows "if wants_teardown ls then \<exists>r u d c e w. es =
      [EvGetUniverse ns (makeUniverseName repo n) (err_of r), EvDeleteUniverse (Namespace u) (Name u) d,
       EvComment (comment_of owner repo n createCloseComment) c, EvEditLabels owner repo n (closed_labels ls) e] \<and>
      r = fst (svc_get_universe S ns (makeUniverseName repo n) w) \<and> u = (case r of Inl err \<Rightarrow> zero_Universe | Inr u \<Rightarrow> u)
    else es = []"
  using assms
proof (cases rule: visit.cases)
  case (closed pr tok s s')
  let ?run = "closedPullRequest S tok ns owner repo pr :: ('w, answer, unit) go"
  have run: "events ?run s = es" "outcome ?run s = Next ()" using closed(3) by (simp_all add: run_defs)
  show ?thesis
  proof (cases "wants_teardown ls")
    case True
    then show ?thesis
      using closed_run(1,2) [OF closed(1,2) True, of S tok ns owner repo s, where ?'r = answer] run
      by (auto simp: noted_def split: if_splits)
  next
    case False
    then show ?thesis
      using run closed(1) by (simp add: closedPullRequest_def label_names_Some [THEN iffD2, OF refl] run_defs)
  qed
qed simp

text \<open>Where it goes well, \<open>NewUniverse\<close> leaves the Universe there.\<close>

lemma new_universe_well:
  assumes "list_all (goes_well ns (makeUniverseName repo n) env)
      (events (NewUniverse S ns repo n targets primary services admin :: ('w, 'r, error option) go) s)"
  shows "environment_after ns (makeUniverseName repo n)
      (events (NewUniverse S ns repo n targets primary services admin :: ('w, 'r, error option) go) s) env"
    and "labels_after owner repo n (events (NewUniverse S ns repo n targets primary services admin :: ('w, 'r, error option) go) s) ls = ls"
  using assms
  by (cases "svc_get S Mgmt KIAMServiceAccount ns ClusterServiceAccountName (world s)",
      auto simp: NewUniverse_def Let_def scope_def k_get_def k_create_def u_get_def u_create_def ask_def bnd_def run_defs
      preview_universe_def split: sum.splits prod.splits flow.splits if_splits)+

section \<open>The invariant of the labels\<close>

definition labels_ok :: "string list \<Rightarrow> bool \<Rightarrow> bool" where
  "labels_ok ls env \<longleftrightarrow> distinct ls \<and> \<not> (''preview-created'' \<in> set ls \<and> ''preview-closed'' \<in> set ls) \<and>
     env = (''preview-created'' \<in> set ls)"

lemma user_edit_marks:
  "user_edit ls ls' \<Longrightarrow> ''preview-created'' \<in> set ls' \<longleftrightarrow> ''preview-created'' \<in> set ls"
  "user_edit ls ls' \<Longrightarrow> ''preview-closed'' \<in> set ls' \<longleftrightarrow> ''preview-closed'' \<in> set ls"
  by (auto simp: user_edit_def operator_labels_def)

lemma labels_ok_opened:
  assumes "labels_ok ls env" and "visit S ns t owner repo n True ls es"
    and "list_all (goes_well ns (makeUniverseName repo n) env) es"
  shows "labels_ok (labels_after owner repo n es ls) (environment_after ns (makeUniverseName repo n) es env)"
  using opened_visit [OF assms(2)] assms(1,3) opened_labels_set [of ls] new_universe_well(1) [of ns repo n env S]
  by (fastforce simp: labels_ok_def wants_preview_def split: if_splits)

lemma labels_ok_closed:
  assumes "labels_ok ls env" and "gets_named S" and "visit S ns t owner repo n False ls es"
    and "list_all (goes_well ns (makeUniverseName repo n) env) es"
  shows "labels_ok (labels_after owner repo n es ls) (environment_after ns (makeUniverseName repo n) es env)"
proof (cases "wants_teardown ls")
  case True
  then obtain r u d c e w where es: "es =
      [EvGetUniverse ns (makeUniverseName repo n) (err_of r), EvDeleteUniverse (Namespace u) (Name u) d,
       EvComment (comment_of owner repo n createCloseComment) c, EvEditLabels owner repo n (closed_labels ls) e]"
    and r: "fst (svc_get_universe S ns (makeUniverseName repo n) w) = r" and u: "u = (case r of Inl err \<Rightarrow> zero_Universe | Inr u \<Rightarrow> u)"
    using closed_visit [OF assms(3)] by auto
  have "\<not> environment_after ns (makeUniverseName repo n) es env"
  proof (cases r)
    case (Inr v)
    then have "Namespace v = ns" "Name v = makeUniverseName repo n" using r assms(2) unfolding gets_named_def by blast+
    then show ?thesis using assms(4) Inr by (simp add: es u)
  next
    case (Inl e)
    then show ?thesis using assms(4) by (simp add: es split: if_splits)
  qed
  moreover have "labels_after owner repo n es ls = closed_labels ls" using assms(4) by (simp add: es)
  ultimately show ?thesis
    using assms(1) True closed_labels_set [of ls] by (auto simp: labels_ok_def wants_teardown_def)
next
  case False
  then show ?thesis using closed_visit [OF assms(3)] assms(1) by simp
qed

lemma history_ok: "history S ns t owner repo n ls env \<Longrightarrow> gets_named S \<Longrightarrow> labels_ok ls env"
proof (induction rule: history.induct)
  case (fresh ls)
  then show ?case by (auto simp: labels_ok_def operator_labels_def)
next
  case (users ls env ls')
  then show ?case by (simp add: labels_ok_def user_edit_marks) (simp add: user_edit_def)
next
  case (visited ls env b es)
  then show ?case by (cases b) (auto intro: labels_ok_opened labels_ok_closed)
qed

text \<open>A visit by the loop over the closed pull requests does nothing to one that is marked as closed.\<close>

lemma marked_visit:
  "visit S ns t owner repo n False ls es \<Longrightarrow> ''preview-closed'' \<in> set ls \<Longrightarrow> es = []"
  using closed_visit [of S ns t owner repo n ls es] by (simp add: wants_teardown_def)

lemma stays_marked:
  "stays_closed S ns t owner repo n ls0 env0 ls env \<Longrightarrow> ''preview-closed'' \<in> set ls0 \<Longrightarrow>
    env = env0 \<and> ''preview-closed'' \<in> set ls"
proof (induction rule: stays_closed.induct)
  case (users_again ls env ls')
  then show ?case by (simp add: user_edit_marks)
next
  case (visited_again ls env es)
  then show ?case using marked_visit by fastforce
qed simp

section \<open>Properties\<close>

text \<open>
  C21. An open pull request that asks for a preview and has none yet goes through \<open>NewUniverse\<close> and
  then, whatever that returned, gets the comment that names the Universe and the label
  \<open>preview-created\<close>, with which it asks no more; any other pull request with named labels is left
  alone.  The request for the comment is to a path of the repository; one whose path the library does
  not accept would be nil, and a panic, but then its pull requests could not have been listed.
\<close>

theorem open_pull_request_run:
  assumes "LabelPtrs pr = map Some ls" and "Number pr = Some n"
  shows "if wants_preview ls then
      (\<exists>es. events (openPullRequest S tok ns t owner repo pr :: ('w, 'r, unit) go) s =
         events (NewUniverse S ns repo n (TriggerTargetNamespaces (tSpec t)) (TriggerPrimaryCluster (tSpec t))
           (preview_services (LabelToDeploymentMap (tSpec t)) ls) (AuthorAssociation pr) :: ('w, unit, error option) go) s @ es \<and>
         (if svc_repo_request S owner repo = None
          then (\<exists>c d. es = [EvComment (comment_of owner repo n (createOpenComment (makeUniverseName repo n))) c,
             EvEditLabels owner repo n (opened_labels ls) d])
          else es = [] \<and> outcome (openPullRequest S tok ns t owner repo pr :: ('w, 'r, unit) go) s = Panic ''nil request'')) \<and>
      \<not> wants_preview (opened_labels ls)
    else events (openPullRequest S tok ns t owner repo pr :: ('w, 'r, unit) go) s = []"
proof (cases "wants_preview ls")
  case False
  with assms show ?thesis by (simp add: openPullRequest_def label_names_Some [THEN iffD2, OF refl] run_defs)
next
  case True
  have "\<not> wants_preview (opened_labels ls)"
    using open_run(3) [OF assms True] by (simp add: wants_preview_def)
  with True open_run(1,2) [OF assms True, of S tok ns t owner repo s, where ?'r = 'r]
  show ?thesis by (auto simp: noted_def)
qed

text \<open>
  C23. While the clusters' service account is missing, a pull request that asks for a preview is told
  that its environment was created, and marked as having it, although no Universe was made.
\<close>

theorem marked_without_environment:
  assumes "LabelPtrs pr = map Some ls" and "Number pr = Some n" and "wants_preview ls"
    and "svc_get S Mgmt KIAMServiceAccount ns ClusterServiceAccountName (world s) = (Inl ENotFound, w)"
  shows "\<exists>e es. events (openPullRequest S tok ns t owner repo pr :: ('w, 'r, unit) go) s =
      EvGet Mgmt KIAMServiceAccount ns ClusterServiceAccountName (Some ENotFound) # EvCreate Mgmt (preview_service_account ns) e # es \<and>
    (if svc_repo_request S owner repo = None
     then (\<exists>c d. es = [EvComment (comment_of owner repo n (createOpenComment (makeUniverseName repo n))) c,
        EvEditLabels owner repo n (opened_labels ls) d])
     else es = []) \<and> ''preview-created'' \<in> set (opened_labels ls)"
  using open_run(1) [OF assms(1-3), of S tok ns t owner repo s, where ?'r = 'r] open_run(3) [OF assms(1-3)]
    new_universe_without_account [OF assms(4), where ?'r = unit]
  unfolding noted_def by (metis append_Cons append_Nil)

definition demo_pull :: pull where
  "demo_pull = \<lparr> Number = Some 7, LabelPtrs = [Some ''preview'', Some ''svc/api''], AuthorAssociation = ''MEMBER'' \<rparr>"

definition demo_trigger :: Trigger where
  "demo_trigger = \<lparr> Name = ''shop'', Namespace = ''apps'', Labels = None, Annotations = None, Generation = 1,
     CreationTimestamp = 0, DeletionTimestamp = None, Finalizers = [], Controller = None,
     tSpec = \<lparr> Respositories = [''acme/shop''], TriggerProjectID = ''apps'', CredentialSecretRef = ''git'',
       RequeueAfterMinutes = 5, TriggerTargetNamespaces = [''web''], TriggerPrimaryCluster = ''main'',
       LabelToDeploymentMap = Some [(''svc/api'', ''api'')] \<rparr>,
     tStatus = \<lparr> TriggerObservedGeneration = 0 \<rparr> \<rparr>"

theorem open_pull_request_run_witness:
  "\<not> wants_preview (opened_labels [''preview'', ''svc/api''])"
proof -
  have "wants_preview [''preview'', ''svc/api'']" by code_simp
  with open_pull_request_run [of demo_pull "[''preview'', ''svc/api'']" 7 demo_services "[]" "''apps''" demo_trigger
      "''acme''" "''shop''" "demo_state demo_world", where ?'r = unit]
  show ?thesis by (simp add: demo_pull_def)
qed

theorem marked_without_environment_witness:
  "\<exists>e c d. events (openPullRequest demo_services [] ''apps'' demo_trigger ''acme'' ''shop'' demo_pull :: (demo, unit, unit) go)
     (demo_state demo_world) =
     [EvGet Mgmt KIAMServiceAccount ''apps'' ClusterServiceAccountName (Some ENotFound),
      EvCreate Mgmt (preview_service_account ''apps'') e,
      EvComment (comment_of ''acme'' ''shop'' 7 (createOpenComment (makeUniverseName ''shop'' 7))) c,
      EvEditLabels ''acme'' ''shop'' 7 (opened_labels [''preview'', ''svc/api'']) d]"
proof -
  have "svc_get demo_services Mgmt KIAMServiceAccount ''apps'' ClusterServiceAccountName (world (demo_state demo_world)) =
      (Inl ENotFound, demo_world)" by code_simp
  moreover have "wants_preview [''preview'', ''svc/api'']" by code_simp
  moreover have "svc_repo_request demo_services ''acme'' ''shop'' = None" by code_simp
  ultimately show ?thesis
    using marked_without_environment [of demo_pull "[''preview'', ''svc/api'']" 7 demo_services "''apps''"
        "demo_state demo_world" demo_world "[]" demo_trigger "''acme''" "''shop''", where ?'r = unit]
    by (auto simp: demo_pull_def)
qed

text \<open>
  C22. A closed pull request with the preview label that is not marked as closed: its Universe is got
  and what the get answered, the zero Universe when it failed, is deleted; whatever came of that, it
  is marked as closed and asks no more.
\<close>

theorem closed_pull_request_run:
  assumes "LabelPtrs pr = map Some ls" and "Number pr = Some n"
  shows "if wants_teardown ls then
      (\<exists>r u d es. events (closedPullRequest S tok ns owner repo pr :: ('w, 'r, unit) go) s =
         EvGetUniverse ns (makeUniverseName repo n) (err_of r) # EvDeleteUniverse (Namespace u) (Name u) d # es \<and>
        (if svc_repo_request S owner repo = None
         then (\<exists>c e. es = [EvComment (comment_of owner repo n createCloseComment) c,
            EvEditLabels owner repo n (closed_labels ls) e])
         else es = [] \<and> outcome (closedPullRequest S tok ns owner repo pr :: ('w, 'r, unit) go) s = Panic ''nil request'') \<and>
        r = fst (svc_get_universe S ns (makeUniverseName repo n) (world s)) \<and>
        u = (case r of Inl err \<Rightarrow> zero_Universe | Inr u \<Rightarrow> u)) \<and>
      \<not> wants_teardown (closed_labels ls)
    else events (closedPullRequest S tok ns owner repo pr :: ('w, 'r, unit) go) s = []"
proof (cases "wants_teardown ls")
  case False
  with assms show ?thesis by (simp add: closedPullRequest_def label_names_Some [THEN iffD2, OF refl] run_defs)
next
  case True
  have "\<not> wants_teardown (closed_labels ls)"
    using closed_run(3) [OF assms True] by (simp add: wants_teardown_def)
  with True closed_run(1,2) [OF assms True, of S tok ns owner repo s, where ?'r = 'r]
  show ?thesis by (auto simp: noted_def)
qed

theorem closed_pull_request_run_witness:
  "\<not> wants_teardown (closed_labels [''preview'', ''preview-created''])"
proof -
  have "wants_teardown [''preview'', ''preview-created'']" by code_simp
  with closed_pull_request_run [of "demo_pull\<lparr>LabelPtrs := [Some ''preview'', Some ''preview-created'']\<rparr>"
      "[''preview'', ''preview-created'']" 7 demo_services "[]" "''apps''"
      "''acme''" "''shop''" "demo_state demo_world", where ?'r = unit]
  show ?thesis by (simp add: demo_pull_def)
qed

text \<open>
  C12. The labels of a pull request tell whether it has an environment.  Through any number of runs of
  the two loops' bodies on it, as long as their calls go well, and its users leave the operator's labels
  and the Universe alone: the labels are duplicate-free, never carry both marks, and carry
  \<open>preview-created\<close> exactly when its Universe was created and not deleted since.  Going well means that
  the clusters' service account is there, that a get of the Universe tells the truth (a deleted one is
  gone) and that its create, its delete and the edits of the labels succeed.
\<close>

theorem labels_tell_environment:
  assumes "gets_named S" and "history S ns t owner repo n ls env"
  shows "distinct ls \<and> \<not> (''preview-created'' \<in> set ls \<and> ''preview-closed'' \<in> set ls) \<and>
    env = (''preview-created'' \<in> set ls)"
  using history_ok [OF assms(2,1)] by (simp add: labels_ok_def)

lemma demo_gets_named: "gets_named demo_services"
  by (auto simp: gets_named_def demo_services_def or_not_found_def same_universe_def dest!: find_holds split: option.splits)

text \<open>A world with the clusters' service account, and one visit of an open pull request in it.\<close>

definition account_world :: demo where
  "account_world = demo_world\<lparr>dObjects := [(Mgmt, preview_service_account ''apps'')]\<rparr>"

definition demo_visit :: "(demo, answer, unit) go" where
  "demo_visit = openPullRequest demo_services [] ''apps'' demo_trigger ''acme'' ''shop'' demo_pull"

lemma demo_history:
  "history demo_services ''apps'' demo_trigger ''acme'' ''shop'' 7 [''preview'', ''svc/api'', ''preview-created''] True"
proof -
  let ?es = "events demo_visit (demo_state account_world)"
  have start: "history demo_services ''apps'' demo_trigger ''acme'' ''shop'' 7 [''preview'', ''svc/api''] False"
    by (rule history.fresh) (simp_all add: operator_labels_def)
  have "outcome demo_visit (demo_state account_world) = Next ()" by code_simp
  then have "(openPullRequest demo_services [] ''apps'' demo_trigger ''acme'' ''shop'' demo_pull :: (demo, answer, unit) go)
      (demo_state account_world) = (Next (), ?es, final demo_visit (demo_state account_world))"
    by (simp add: demo_visit_def [symmetric] run_defs prod_eq_iff)
  then have "visit demo_services ''apps'' demo_trigger ''acme'' ''shop'' 7 True [''preview'', ''svc/api''] ?es"
    by (intro visit.opened [of demo_pull]) (simp_all add: demo_pull_def)
  moreover have "list_all (goes_well ''apps'' (makeUniverseName ''shop'' 7) False) ?es" by code_simp
  ultimately have "history demo_services ''apps'' demo_trigger ''acme'' ''shop'' 7
      (labels_after ''acme'' ''shop'' 7 ?es [''preview'', ''svc/api''])
      (environment_after ''apps'' (makeUniverseName ''shop'' 7) ?es False)"
    by (rule history.visited [OF start])
  moreover have "labels_after ''acme'' ''shop'' 7 ?es [''preview'', ''svc/api''] = [''preview'', ''svc/api'', ''preview-created'']"
    by code_simp
  moreover have "environment_after ''apps'' (makeUniverseName ''shop'' 7) ?es False" by code_simp
  ultimately show ?thesis by simp
qed

theorem labels_tell_environment_witness:
  "environment_after ''apps'' (makeUniverseName ''shop'' 7) (events demo_visit (demo_state account_world)) False =
    (''preview-created'' \<in> set (labels_after ''acme'' ''shop'' 7 (events demo_visit (demo_state account_world)) [''preview'', ''svc/api'']))"
proof -
  have "labels_after ''acme'' ''shop'' 7 (events demo_visit (demo_state account_world)) [''preview'', ''svc/api''] =
      [''preview'', ''svc/api'', ''preview-created'']"
    and "environment_after ''apps'' (makeUniverseName ''shop'' 7) (events demo_visit (demo_state account_world)) False"
    by code_simp+
  with labels_tell_environment [OF demo_gets_named demo_history] show ?thesis by simp
qed

text \<open>
  C24. When the Universe of a closed pull request is not deleted, because the get or the delete failed,
  but the labels are written, it is lost to the operator.  The pull request is marked as closed all the
  same; from then on, whatever the calls are answered and whatever users do to other labels, every run
  of the loop's body over the closed pull request makes no call at all, and whether the Universe exists
  never changes.
\<close>

theorem environment_leaks:
  assumes "wants_teardown ls" and "visit S ns t owner repo n False ls es"
    and "EvDeleteUniverse ns (makeUniverseName repo n) None \<notin> set es"
    and "EvEditLabels owner repo n (closed_labels ls) None \<in> set es"
    and "stays_closed S ns t owner repo n (labels_after owner repo n es ls)
      (environment_after ns (makeUniverseName repo n) es env) ls' env'"
  shows "env' = env \<and> ''preview-closed'' \<in> set ls' \<and> (\<forall>es'. visit S ns t owner repo n False ls' es' \<longrightarrow> es' = [])"
proof -
  obtain q a b d c e where es: "es = [EvGetUniverse ns (makeUniverseName repo n) q, EvDeleteUniverse a b d,
       EvComment (comment_of owner repo n createCloseComment) c, EvEditLabels owner repo n (closed_labels ls) e]"
    using closed_visit [OF assms(2)] assms(1) by auto
  have "e = None" using assms(4) by (simp add: es)
  moreover have "''preview-closed'' \<in> set (closed_labels ls)"
    using assms(1) by (auto simp: closed_labels_def wants_teardown_def remove1_append)
  ultimately have "''preview-closed'' \<in> set (labels_after owner repo n es ls)" by (simp add: es)
  moreover have "environment_after ns (makeUniverseName repo n) es env = env" using assms(3) by (auto simp: es)
  ultimately show ?thesis using stays_marked [OF assms(5)] marked_visit by blast
qed

text \<open>A world in which no Universe can be deleted.\<close>

definition undeletable :: "demo services" where
  "undeletable = demo_services\<lparr>svc_delete_universe := (\<lambda>u w. (Some (EMsg ''unavailable''), w))\<rparr>"

definition closing_visit :: "(demo, answer, unit) go" where
  "closing_visit = closedPullRequest undeletable [] ''apps'' ''acme'' ''shop'' demo_pull"

theorem environment_leaks_witness:
  "''preview-closed'' \<in> set (labels_after ''acme'' ''shop'' 7 (events closing_visit (demo_state demo_world)) [''preview'', ''svc/api'']) \<and>
   environment_after ''apps'' (makeUniverseName ''shop'' 7) (events closing_visit (demo_state demo_world)) True"
proof -
  let ?es = "events closing_visit (demo_state demo_world)"
  have "outcome closing_visit (demo_state demo_world) = Next ()" by code_simp
  then have "(closedPullRequest undeletable [] ''apps'' ''acme'' ''shop'' demo_pull :: (demo, answer, unit) go)
      (demo_state demo_world) = (Next (), ?es, final closing_visit (demo_state demo_world))"
    by (simp add: closing_visit_def [symmetric] run_defs prod_eq_iff)
  then have visit: "visit undeletable ''apps'' demo_trigger ''acme'' ''shop'' 7 False [''preview'', ''svc/api''] ?es"
    by (intro visit.closed [of demo_pull]) (simp_all add: demo_pull_def)
  have "wants_teardown [''preview'', ''svc/api'']" by code_simp
  moreover have "EvDeleteUniverse ''apps'' (makeUniverseName ''shop'' 7) None \<notin> set ?es" by code_simp
  moreover have "EvEditLabels ''acme'' ''shop'' 7 (closed_labels [''preview'', ''svc/api'']) None \<in> set ?es" by code_simp
  ultimately show ?thesis
    using environment_leaks [OF _ visit _ _ stays_closed.now_closed, of True] by auto
qed

lemma create_all_run:
  "\<exists>cs. length cs = length xs \<and>
    events (foreach (\<lambda>x _. bnd (k_create S Mgmt x) (\<lambda>_. ret ())) xs () :: ('w, 'r, unit) go) s =
      map (\<lambda>(x, c). EvCreate Mgmt x c) (zip xs cs)"
proof (induction xs arbitrary: s)
  case Nil
  show ?case by (simp add: run_defs)
next
  case (Cons x xs)
  let ?r = "svc_create S Mgmt x (world s)"
  obtain cs where cs: "length cs = length xs"
    "events (foreach (\<lambda>x _. bnd (k_create S Mgmt x) (\<lambda>_. ret ())) xs () :: ('w, 'r, unit) go) (s\<lparr>world := snd ?r\<rparr>) =
      map (\<lambda>(x, c). EvCreate Mgmt x c) (zip xs cs)" using Cons.IH by blast
  have "length (err_of (fst ?r) # cs) = length (x # xs)" using cs(1) by simp
  moreover have "events (foreach (\<lambda>x _. bnd (k_create S Mgmt x) (\<lambda>_. ret ())) (x # xs) () :: ('w, 'r, unit) go) s =
      map (\<lambda>(x, c). EvCreate Mgmt x c) (zip (x # xs) (err_of (fst ?r) # cs))"
    using cs(2) by (simp add: bnd_assoc k_create_def events_ask)
  ultimately show ?case by blast
qed

text \<open>
  C37. The cron job of a Trigger is looked for, and when it is not found its service account, role, role
  binding and the job itself are created, in this order and all four whatever the creates answer, each
  with the controller reference that the library makes of the Trigger for it; when the job is found, or
  the get fails otherwise, nothing is created or repaired.
\<close>

theorem cron_all_or_nothing:
  "\<exists>r cs. length cs = 4 \<and> events (ensureCron S ns t :: ('w, 'r, unit) go) s =
    EvGet Mgmt KCronJob ns (Name t @ ''-cron'') r #
      (if r = Some ENotFound then map (\<lambda>(x, c). EvCreate Mgmt x c) (zip (cron_objects S ns t) cs) else []) \<and>
    map rKind (cron_objects S ns t) = [KServiceAccount, KRole, KRoleBinding, KCronJob] \<and>
    list_all (\<lambda>x. Name x = Name t @ ''-cron'' \<and> Namespace x = ns \<and>
      Controller x = svc_set_controller_reference S ''Trigger'' (Namespace t) (Name t) (x\<lparr>Controller := None\<rparr>)) (cron_objects S ns t)"
proof -
  let ?r = "svc_get S Mgmt KCronJob ns (Name t @ ''-cron'') (world s)"
  have objects: "map rKind (cron_objects S ns t) = [KServiceAccount, KRole, KRoleBinding, KCronJob]"
    "list_all (\<lambda>x. Name x = Name t @ ''-cron'' \<and> Namespace x = ns \<and>
      Controller x = svc_set_controller_reference S ''Trigger'' (Namespace t) (Name t) (x\<lparr>Controller := None\<rparr>)) (cron_objects S ns t)"
    by (simp_all add: cron_objects_def owned_by_trigger_def cron_role_def cron_role_binding_def cron_job_def
        service_account_def obj_def zero_resource_def Let_def)
  have four: "length (cron_objects S ns t) = 4" by (simp add: cron_objects_def Let_def)
  obtain cs where "length cs = length (cron_objects S ns t)"
    "events (foreach (\<lambda>x _. bnd (k_create S Mgmt x) (\<lambda>_. ret ())) (cron_objects S ns t) () :: ('w, 'r, unit) go)
       (s\<lparr>world := snd ?r\<rparr>) = map (\<lambda>(x, c). EvCreate Mgmt x c) (zip (cron_objects S ns t) cs)"
    using create_all_run by blast
  with four objects have "length cs = 4 \<and> events (ensureCron S ns t :: ('w, 'r, unit) go) s =
    EvGet Mgmt KCronJob ns (Name t @ ''-cron'') (err_of (fst ?r)) #
      (if err_of (fst ?r) = Some ENotFound then map (\<lambda>(x, c). EvCreate Mgmt x c) (zip (cron_objects S ns t) cs) else [])"
    by (simp add: ensureCron_def k_get_def events_ask IsNotFound_def) (simp add: run_defs)
  with objects show ?thesis by (intro exI [of _ "err_of (fst ?r)"] exI [of _ cs]) simp
qed

definition trigger_repo :: "Trigger \<Rightarrow> string \<Rightarrow> bool" where
  "trigger_repo t repo \<longleftrightarrow> (\<exists>r \<in> set (Respositories (tSpec t)). \<exists>owner rest. split_on CHR ''/'' r = owner # repo # rest)"

definition footprint :: "'w services \<Rightarrow> string \<Rightarrow> Trigger \<Rightarrow> event \<Rightarrow> bool" where
  "footprint S ns t e = (case e of
       EvCreateUniverse u c \<Rightarrow> (\<exists>repo n services admin. trigger_repo t repo \<and> u = preview_universe ns repo n
         (TriggerTargetNamespaces (tSpec t)) (TriggerPrimaryCluster (tSpec t)) services admin)
     | EvDeleteUniverse a b c \<Rightarrow> (a = ns \<and> (\<exists>repo n. trigger_repo t repo \<and> b = makeUniverseName repo n)) \<or> (a = [] \<and> b = [])
     | EvCreate tg x c \<Rightarrow> tg = Mgmt \<and> (x = preview_service_account ns \<or> x \<in> set (cron_objects S ns t))
     | EvUpdateUniverse u c \<Rightarrow> False
     | EvStatusUniverse u c \<Rightarrow> False
     | EvUpdate tg x c \<Rightarrow> False
     | EvDelete tg k a b c \<Rightarrow> False
     | _ \<Rightarrow> True)"

lemma footprint_simps [simp]:
  "footprint S ns t (EvGet tg k a b r)" "footprint S ns t (EvGetUniverse a b r)" "footprint S ns t (EvGetTrigger a b r)"
  "footprint S ns t (EvStatusTrigger tr r)" "footprint S ns t (EvRecord a b)" "footprint S ns t (EvListPulls ow repo st r)"
  "footprint S ns t (EvComment req r)" "footprint S ns t (EvEditLabels ow repo i ls r)"
  by (simp_all add: footprint_def)

text \<open>The status update of a Trigger answers with the Trigger it was given, but for its status.\<close>

definition same_trigger :: "Trigger \<Rightarrow> Trigger \<Rightarrow> bool" where
  "same_trigger t t' \<longleftrightarrow> Name t' = Name t \<and> Namespace t' = Namespace t \<and> tSpec t' = tSpec t"

lemma same_trigger_trans: "same_trigger t t' \<Longrightarrow> same_trigger t' t'' \<Longrightarrow> same_trigger t t''"
  by (simp add: same_trigger_def)

definition trigger_status_keeps :: "'w services \<Rightarrow> bool" where
  "trigger_status_keeps S \<longleftrightarrow> (\<forall>t t' w. fst (svc_status_trigger S t w) = Inr t' \<longrightarrow> same_trigger t t')"

lemma cron_objects_same: "same_trigger t t' \<Longrightarrow> cron_objects S ns t' = cron_objects S ns t"
proof -
  assume "same_trigger t t'"
  then have same: "Name t' = Name t" "Namespace t' = Namespace t" "tSpec t' = tSpec t" by (simp_all add: same_trigger_def)
  have "owned_by_trigger S t' = owned_by_trigger S t" by (rule ext) (simp add: owned_by_trigger_def same)
  with same show ?thesis by (simp add: cron_objects_def)
qed

lemma footprint_new:
  assumes "trigger_repo t repo"
  shows "emits (footprint S' ns t) (NewUniverse S ns repo i (TriggerTargetNamespaces (tSpec t)) (TriggerPrimaryCluster (tSpec t)) services admin)"
proof -
  have "footprint S' ns t (EvCreateUniverse (preview_universe ns repo i (TriggerTargetNamespaces (tSpec t))
      (TriggerPrimaryCluster (tSpec t)) services admin) c)" for c
    unfolding footprint_def by (simp only: event.case) (use assms in blast)
  moreover have "footprint S' ns t (EvCreate Mgmt (preview_service_account ns) c)" for c
    by (simp add: footprint_def)
  ultimately show ?thesis
    unfolding NewUniverse_def Let_def by (intro emits_intros) simp_all
qed

lemma footprint_comment: "emits (footprint S' ns t) (comment_and_label S tok owner repo i content ls)"
  unfolding comment_and_label_def Let_def by (intro emits_intros) simp_all

lemma footprint_open:
  assumes "trigger_repo t repo" and "same_trigger t t'"
  shows "emits (footprint S' ns t) (openPullRequest S tok ns t' owner repo pr)"
proof -
  have "tSpec t' = tSpec t" using assms(2) by (simp add: same_trigger_def)
  then show ?thesis
    unfolding openPullRequest_def
    by (simp only:) (intro emits_intros footprint_new [OF assms(1)] footprint_comment)
qed

lemma footprint_closed:
  assumes "gets_named S" and "trigger_repo t repo"
  shows "emits (footprint S' ns t) (closedPullRequest S tok ns owner repo pr)"
proof -
  have get: "sat (footprint S' ns t) (\<lambda>r. \<forall>u. r = Inr u \<longrightarrow> Namespace u = ns \<and> Name u = n) (\<lambda>_. True) (u_get S ns n)" for n
    unfolding u_get_def
  proof (rule sat_ask_value)
    fix x w w'
    assume "svc_get_universe S ns n w = (x, w')"
    then show "footprint S' ns t (EvGetUniverse ns n (err_of x)) \<and> (\<forall>u. x = Inr u \<longrightarrow> Namespace u = ns \<and> Name u = n)"
      using assms(1) unfolding gets_named_def by (metis footprint_simps(2) fst_conv)
  qed
  have del: "emits (footprint S' ns t) (u_delete S (case r of Inl err \<Rightarrow> zero_Universe | Inr u \<Rightarrow> u))"
    if "\<forall>u. r = Inr u \<longrightarrow> Namespace u = ns \<and> Name u = makeUniverseName repo n" for r n
  proof (cases r)
    case (Inr u)
    have "footprint S' ns t (EvDeleteUniverse ns (makeUniverseName repo n) c)" for c
      unfolding footprint_def by (simp only: event.case) (use assms(2) in blast)
    with that Inr show ?thesis by (auto intro!: emits_intros)
  qed (simp add: footprint_def zero_Universe_def emits_intros)
  show ?thesis
    unfolding closedPullRequest_def emits_sat
    by (rule sat_case_option, rule sat_panic, rule sat_if, rule sat_case_option, rule sat_panic,
        rule sat_bnd [OF get], rule sat_bnd [OF del [unfolded emits_sat]], assumption,
        rule footprint_comment [unfolded emits_sat], rule sat_ret, rule TrueI)
qed

lemma footprint_cron: "same_trigger t t' \<Longrightarrow> emits (footprint S ns t) (ensureCron S ns t')"
  unfolding ensureCron_def cron_objects_same
  by (intro emits_intros) (simp_all add: footprint_def)

lemma sat_recordTrigger:
  assumes "trigger_status_keeps S" and "same_trigger t t'"
  shows "sat (footprint S' ns t) (same_trigger t) (\<lambda>_. True) (recordTriggerGeneration S t')"
proof -
  let ?new = "t'\<lparr>tStatus := (tStatus t')\<lparr>TriggerObservedGeneration := Generation t'\<rparr>\<rparr>"
  have new: "same_trigger t ?new" using assms(2) by (simp add: same_trigger_def)
  have "sat (footprint S' ns t) (\<lambda>r. \<forall>u. r = Inr u \<longrightarrow> same_trigger t u) (\<lambda>_. True) (t_status S ?new)"
    unfolding t_status_def
  proof (rule sat_ask_value)
    fix x w w'
    assume x: "svc_status_trigger S ?new w = (x, w')"
    have "same_trigger ?new u" if "x = Inr u" for u
    proof -
      have "fst (svc_status_trigger S ?new w) = Inr u" using x that by simp
      then show ?thesis using assms(1) unfolding trigger_status_keeps_def by blast
    qed
    then show "footprint S' ns t (EvStatusTrigger ?new (err_of x)) \<and> (\<forall>u. x = Inr u \<longrightarrow> same_trigger t u)"
      using same_trigger_trans [OF new] footprint_simps(4) by blast
  qed
  then show ?thesis
    unfolding recordTriggerGeneration_def Let_def
    by (rule sat_bnd) (use new in \<open>auto intro!: sat_ret split: sum.split\<close>)
qed

lemma sat_repository:
  assumes S: "gets_named S" "trigger_status_keeps S" and repo: "repo \<in> set (Respositories (tSpec t))" and t': "same_trigger t t'"
  shows "sat (footprint S ns t) (same_trigger t) (\<lambda>_. True) (reconcileRepository S tok ns repo t')"
proof (cases "split_on CHR ''/'' repo")
  case (Cons owner rest)
  show ?thesis
  proof (cases rest)
    case (Cons repository more)
    with \<open>split_on CHR ''/'' repo = owner # rest\<close> repo have r: "trigger_repo t repository"
      unfolding trigger_repo_def by blast
    have list: "sat (footprint S ns t) (\<lambda>_. True) (\<lambda>_. True) (pulls_list S tok ow rp st)" for ow rp st
      unfolding emits_sat [symmetric] by (intro emits_intros) simp
    have opens: "sat (footprint S ns t) (\<lambda>_. True) (\<lambda>_. True)
        (foreach (\<lambda>pr _. openPullRequest S tok ns t' owner repository pr) prs ())" for prs
      unfolding emits_sat [symmetric] by (intro emits_intros footprint_open [OF r t'])
    have closes: "sat (footprint S ns t) (\<lambda>_. True) (\<lambda>_. True)
        (foreach (\<lambda>pr _. closedPullRequest S tok ns owner repository pr) prs ())" for prs
      unfolding emits_sat [symmetric] by (intro emits_intros footprint_closed [OF S(1) r])
    show ?thesis
      unfolding reconcileRepository_def \<open>split_on CHR ''/'' repo = owner # rest\<close> Cons list.case
      by (rule sat_bnd [OF list], rule sat_bnd [OF opens], rule sat_bnd [OF footprint_cron [OF t', unfolded emits_sat]],
          rule sat_bnd [OF sat_recordTrigger [OF S(2) t']], rule sat_bnd [OF list], rule sat_bnd [OF closes], rule sat_ret)
  qed (simp add: reconcileRepository_def \<open>split_on CHR ''/'' repo = owner # rest\<close> sat_panic)
qed (simp add: reconcileRepository_def)

text \<open>
  C20. The footprint of a Trigger's reconciliation, the Trigger being the one its first get answers: of
  Universes it creates only those of pull requests of the Trigger's repositories, in its own namespace,
  for its targets and its primary cluster, and deletes only Universes with such a name there, or the
  zero one; of other objects it creates only the clusters' service account and the four of its cron job,
  exactly as they are made; it deletes and updates none.  A get of a Universe is taken to answer with the
  one asked for, a status update of the Trigger to leave its name and specification alone.
\<close>

theorem trigger_footprint:
  assumes "gets_named S" and "trigger_status_keeps S"
  shows "case fst (svc_get_trigger S ns name (world s)) of
      Inl e \<Rightarrow> events (ReconcileTrigger S ns name :: ('w, 'r, answer) go) s = [EvGetTrigger ns name (Some e)]
    | Inr t \<Rightarrow> list_all (footprint S ns t) (events (ReconcileTrigger S ns name :: ('w, 'r, answer) go) s)"
proof (cases "fst (svc_get_trigger S ns name (world s))")
  case (Inl e)
  then show ?thesis by (simp add: ReconcileTrigger_def t_get_def events_scope events_ask) (simp add: run_defs)
next
  case (Inr t)
  define body :: "('w, answer, answer) go" where "body =
     (bnd (if TriggerObservedGeneration (tStatus t) = Generation t
          then record_event (Namespace t) (Name t) else ret ()) (\<lambda>_.
     bnd (k_get S Mgmt KSecret ns (CredentialSecretRef (tSpec t))) (\<lambda>foundGitSecret.
     let gitToken = data_of ''token'' (found_or_zero KSecret foundGitSecret) in
     bnd (foreach (reconcileRepository S gitToken ns) (Respositories (tSpec t)) t) (\<lambda>_.
     return (no_requeue, None)))))"
  have "same_trigger t t" by (simp add: same_trigger_def)
  then have loop: "sat (footprint S ns t) (same_trigger t) (\<lambda>_. True)
      (foreach (reconcileRepository S tok ns) (Respositories (tSpec t)) t)" for tok
    by (rule sat_foreach) (rule sat_repository [OF assms])
  have first: "sat (footprint S ns t) (\<lambda>_. True) (\<lambda>_. True) (record_event a b)"
    "sat (footprint S ns t) (\<lambda>_. True) (\<lambda>_. True) (k_get S Mgmt k a b)" for a b k
    unfolding emits_sat [symmetric] by (intro emits_intros; simp)+
  have "sat (footprint S ns t) (\<lambda>_. True) (\<lambda>_. True) body"
    unfolding body_def Let_def
    by (rule sat_bnd, rule sat_if, rule first, rule sat_ret, rule TrueI, rule sat_bnd [OF first(2)], rule sat_bnd [OF loop],
        rule sat_return, rule TrueI)
  then have "list_all (footprint S ns t) (events body u)" for u by (auto simp: sat_def list_all_iff)
  moreover have "events (ReconcileTrigger S ns name :: ('w, 'r, answer) go) s =
      EvGetTrigger ns name None # events body (s\<lparr>world := snd (svc_get_trigger S ns name (world s))\<rparr>)"
    using Inr by (simp add: ReconcileTrigger_def t_get_def events_scope events_ask body_def)
  ultimately show ?thesis using Inr by simp
qed

theorem trigger_footprint_witness:
  "list_all (footprint demo_services ''apps'' demo_trigger) (events (ReconcileTrigger demo_services ''apps'' ''shop'' :: (demo, unit, answer) go)
     (demo_state (demo_world\<lparr>dTriggers := [demo_trigger], dPulls := [(''open'', [demo_pull])]\<rparr>)))"
proof -
  have "trigger_status_keeps demo_services"
    by (simp add: trigger_status_keeps_def demo_services_def same_trigger_def)
  moreover have "fst (svc_get_trigger demo_services ''apps'' ''shop''
      (world (demo_state (demo_world\<lparr>dTriggers := [demo_trigger], dPulls := [(''open'', [demo_pull])]\<rparr>)))) = Inr demo_trigger"
    by code_simp
  ultimately show ?thesis
    using trigger_footprint [OF demo_gets_named, where ns = "''apps''" and name = "''shop''" and
      s = "demo_state (demo_world\<lparr>dTriggers := [demo_trigger], dPulls := [(''open'', [demo_pull])]\<rparr>)" and ?'r = unit]
    by simp
qed

end
