(* ===== verification/Returns.thy ===== *)
theory Returns
  imports TriggerReconcile UniverseReconcile
begin

text \<open>
  That the two reconcilers come back.

  \<open>clock_runs\<close> is what this rests on: no call of the services turns the clock back, a sleep lasts,
  the backoff library never answers less than some positive duration, and a select between a done
  context and a fired timer takes the context infinitely often.  \<open>runs S m\<close>: under it, \<open>m\<close> ends,
  by falling through, by a \<open>return\<close> or by a panic, and the clock has not gone back.  It is the total
  triple beside the partial ones \<open>sat\<close> and \<open>emits\<close>: \<open>runs_intros\<close> follows the program text, and a
  poll is the one construct that needs an argument, which is that of its deadline.
\<close>

section \<open>The judgement\<close>

named_theorems runs_intros

definition ticks :: "'w services \<Rightarrow> ('w \<Rightarrow> 'a \<times> 'w) \<Rightarrow> bool" where
  "ticks S f \<longleftrightarrow> (\<forall>w. svc_clock S w \<le> svc_clock S (snd (f w)))"

definition backoff_grows :: "'w services \<Rightarrow> bool" where
  "backoff_grows S \<longleftrightarrow> (\<exists>m > 0. \<forall>n. m \<le> svc_backoff S n)"

definition sleep_lasts :: "'w services \<Rightarrow> bool" where
  "sleep_lasts S \<longleftrightarrow> (\<forall>d w. svc_clock S w \<le> svc_clock S (svc_sleep S d w) \<and>
     svc_clock S w + d \<le> svc_clock S (svc_sleep S d w))"

definition select_fair :: "'w services \<Rightarrow> bool" where
  "select_fair S \<longleftrightarrow> (\<forall>n. \<exists>n' \<ge> n. \<forall>w. svc_pick S n' w)"

definition kube_ticks :: "'w services \<Rightarrow> bool" where
  "kube_ticks S \<longleftrightarrow> (\<forall>t k ns n. ticks S (svc_get S t k ns n)) \<and> (\<forall>t k ns sel. ticks S (svc_list S t k ns sel)) \<and>
     (\<forall>t x. ticks S (svc_create S t x)) \<and> (\<forall>t x. ticks S (svc_update S t x)) \<and> (\<forall>t x. ticks S (svc_delete S t x)) \<and>
     (\<forall>t ns. ticks S (svc_list_ingresses S t ns)) \<and> (\<forall>t ns i. ticks S (svc_update_ingress S t ns i))"

definition custom_ticks :: "'w services \<Rightarrow> bool" where
  "custom_ticks S \<longleftrightarrow> (\<forall>ns n. ticks S (svc_get_universe S ns n)) \<and> (\<forall>u. ticks S (svc_create_universe S u)) \<and>
     (\<forall>u. ticks S (svc_update_universe S u)) \<and> (\<forall>u. ticks S (svc_status_universe S u)) \<and>
     (\<forall>u. ticks S (svc_delete_universe S u)) \<and> (\<forall>ns n. ticks S (svc_get_trigger S ns n)) \<and>
     (\<forall>t. ticks S (svc_status_trigger S t))"

definition cloud_ticks :: "'w services \<Rightarrow> bool" where
  "cloud_ticks S \<longleftrightarrow> (\<forall>a args. ticks S (svc_gcp S a args)) \<and> ticks S (svc_credentials S) \<and> (\<forall>a. ticks S (svc_new_service S a)) \<and>
     (\<forall>repo. ticks S (svc_registry_tags S repo)) \<and> (\<forall>tok ow repo st. ticks S (svc_list_pulls S tok ow repo st)) \<and>
     (\<forall>tok req. ticks S (svc_do S tok req)) \<and> (\<forall>tok ow repo n ls. ticks S (svc_edit_labels S tok ow repo n ls))"

definition helm_ticks :: "'w services \<Rightarrow> bool" where
  "helm_ticks S \<longleftrightarrow> (\<forall>p c. ticks S (svc_write_file S p c)) \<and> (\<forall>cfg ns. ticks S (svc_helm_init S cfg ns)) \<and>
     (\<forall>cfg u. ticks S (svc_helm_locate S cfg u)) \<and> (\<forall>p. ticks S (svc_helm_load S p)) \<and>
     (\<forall>cfg ns r c v. ticks S (svc_helm_run S cfg ns r c v))"

definition clock_runs :: "'w services \<Rightarrow> bool" where
  "clock_runs S \<longleftrightarrow> backoff_grows S \<and> sleep_lasts S \<and> select_fair S \<and>
     kube_ticks S \<and> custom_ticks S \<and> cloud_ticks S \<and> helm_ticks S"

definition runs :: "'w services \<Rightarrow> ('w, 'r, 'a) go \<Rightarrow> bool" where
  "runs S m \<longleftrightarrow> (clock_runs S \<longrightarrow> (\<forall>s. outcome m s \<noteq> Hang \<and> svc_clock S (world s) \<le> svc_clock S (world (final m s))))"

lemma runsD: "runs S m \<Longrightarrow> clock_runs S \<Longrightarrow> outcome m s \<noteq> Hang"
  by (auto simp: runs_def)

lemma runs_ret [runs_intros]: "runs S (ret x)" "runs S (return r)" "runs S (panic p)"
  by (simp_all add: runs_def run_defs)

lemma runs_ask: "ticks S f \<Longrightarrow> runs S (ask f ev)"
  by (auto simp: runs_def run_defs ask_def ticks_def split: prod.split dest: spec[of _ "world _"])
    (metis snd_conv)

lemma runs_bnd [runs_intros]:
  assumes m: "runs S m" and f: "\<And>x. runs S (f x)"
  shows "runs S (bnd m f)"
  unfolding runs_def
proof (intro impI allI)
  fix s
  assume C: "clock_runs S"
  obtain o1 es s' where run: "m s = (o1, es, s')" by (cases "m s") auto
  have o1: "o1 \<noteq> Hang" and t: "svc_clock S (world s) \<le> svc_clock S (world s')"
    using m C run by (auto simp: runs_def run_defs dest: spec[of _ s])
  show "outcome (bnd m f) s \<noteq> Hang \<and> svc_clock S (world s) \<le> svc_clock S (world (final (bnd m f) s))"
  proof (cases o1)
    case (Next x)
    have "outcome (f x) s' \<noteq> Hang \<and> svc_clock S (world s') \<le> svc_clock S (world (final (f x) s'))"
      using f [of x] C by (simp add: runs_def)
    with t run Next show ?thesis by (auto simp: run_defs bnd_def split: prod.splits)
  qed (use o1 t run in \<open>auto simp: run_defs bnd_def\<close>)
qed

lemma runs_seq [runs_intros]: "runs S m \<Longrightarrow> runs S k \<Longrightarrow> runs S (seq m k)"
  by (auto simp: seq_def intro: runs_bnd)

lemma runs_scope [runs_intros]: "runs S m \<Longrightarrow> runs S (scope m)"
  unfolding runs_def
proof (intro impI allI)
  fix s
  assume "clock_runs S \<longrightarrow> (\<forall>s. outcome m s \<noteq> Hang \<and> svc_clock S (world s) \<le> svc_clock S (world (final m s)))"
    and "clock_runs S"
  then have "outcome m s \<noteq> Hang \<and> svc_clock S (world s) \<le> svc_clock S (world (final m s))" by blast
  then show "outcome (scope m) s \<noteq> Hang \<and> svc_clock S (world s) \<le> svc_clock S (world (final (scope m) s))"
    by (auto simp: run_defs scope_def split: prod.splits flow.splits)
qed

lemma runs_foreach [runs_intros]: "(\<And>x a. runs S (f x a)) \<Longrightarrow> runs S (foreach f xs a)"
  by (induction xs arbitrary: a) (auto intro: runs_intros)

lemma runs_if [runs_intros]:
  "(b \<Longrightarrow> runs S m) \<Longrightarrow> (\<not> b \<Longrightarrow> runs S k) \<Longrightarrow> runs S (if b then m else k)"
  by simp

lemma runs_case_sum [runs_intros]:
  "(\<And>e. runs S (f e)) \<Longrightarrow> (\<And>x. runs S (g x)) \<Longrightarrow> runs S (case r of Inl e \<Rightarrow> f e | Inr x \<Rightarrow> g x)"
  by (cases r) auto

lemma runs_case_option [runs_intros]:
  "runs S m \<Longrightarrow> (\<And>x. runs S (g x)) \<Longrightarrow> runs S (case r of None \<Rightarrow> m | Some x \<Rightarrow> g x)"
  by (cases r) auto

lemma runs_case_list [runs_intros]:
  "runs S m \<Longrightarrow> (\<And>x xs. runs S (g x xs)) \<Longrightarrow> runs S (case r of [] \<Rightarrow> m | x # xs \<Rightarrow> g x xs)"
  by (cases r) auto

lemma runs_case_prod [runs_intros]:
  "(\<And>x y. runs S (f x y)) \<Longrightarrow> runs S (case r of (x, y) \<Rightarrow> f x y)"
  by (cases r) auto

lemma runs_Let [runs_intros]: "runs S (f x) \<Longrightarrow> runs S (let y = x in f y)"
  by simp

lemma runs_clock: "(clock_runs S \<Longrightarrow> runs S m) \<Longrightarrow> runs S m"
  by (auto simp: runs_def)

section \<open>The calls\<close>

lemma runs_calls [runs_intros]:
  "runs S (k_get S t k ns n)" "runs S (k_list S t k ns sel)" "runs S (k_create S t x)" "runs S (k_update S t x)"
  "runs S (k_delete S t x)" "runs S (ing_list S t ns)" "runs S (ing_update S t ns i)"
  "runs S (u_get S ns n)" "runs S (u_create S u)" "runs S (u_update S u)" "runs S (u_status S u)" "runs S (u_delete S u)"
  "runs S (t_get S ns n)" "runs S (t_status S tr)" "runs S (record_event ns n)"
  "runs S (gcp_get S a args)" "runs S (find_credentials S)" "runs S (new_service S a)" "runs S (registry_tags S repo)"
  "runs S (pulls_list S tok ow repo st)" "runs S (github_do S tok req)" "runs S (edit_labels S tok ow repo num ls)"
  "runs S (write_file S path content)" "runs S (helm_init S cfg ns)" "runs S (helm_locate S cfg url)"
  "runs S (helm_load S path)" "runs S (helm_run S cfg ns rel ch vals)"
  unfolding call_defs
  by (rule runs_clock, rule runs_ask,
      simp add: clock_runs_def kube_ticks_def custom_ticks_def cloud_ticks_def helm_ticks_def ticks_def
        del: split_paired_All split: option.split)+

lemma runs_process [runs_intros]:
  "runs S (setenv key v)" "runs S (getenv S key)" "runs S (cli_New S)" "runs S (assign x)" "runs S fetch" "runs S (now S)"
  by (simp_all add: runs_def run_defs setenv_def getenv_def cli_New_def assign_def fetch_def now_def)

lemma runs_through [runs_intros]: "(\<And>t. runs S (f t)) \<Longrightarrow> runs S (through cs f)"
  by (cases cs) (auto intro: runs_intros)

lemma runs_clients [runs_intros]: "runs S (new_clientset S cfg)" "runs S (clientset_or_err r)"
  by (auto simp: new_clientset_def clientset_or_err_def intro!: runs_intros)

section \<open>Polls with a deadline\<close>

lemma clock_sleep: "clock_runs S \<Longrightarrow> svc_clock S w \<le> svc_clock S (svc_sleep S d w)"
  by (simp add: clock_runs_def sleep_lasts_def)

lemma runs_timely:
  assumes C: "clock_runs S" and f: "runs S f"
  shows "\<exists>m. timely S dl (svc_backoff S) m f"
proof -
  obtain m where "0 < m" "\<forall>n. m \<le> svc_backoff S n"
    using C by (auto simp: clock_runs_def backoff_grows_def)
  moreover have "runs S (probe_run f)" unfolding probe_run_def by (rule runs_scope [OF f])
  moreover have "min (svc_clock S w + d) dl \<le> svc_clock S (svc_sleep S d w)" for d w
    using C by (auto simp: clock_runs_def sleep_lasts_def intro: min.coboundedI1)
  ultimately show ?thesis
    using C unfolding timely_def runs_def clock_runs_def select_fair_def by blast
qed

lemma turn_clock:
  assumes C: "clock_runs S" and f: "runs S f" and turn: "poll_turn S ctx b N r f n k s = (t, es, s')"
  shows "svc_clock S (world s) \<le> svc_clock S (world s')"
proof -
  have p: "runs S (probe_run f)" unfolding probe_run_def by (rule runs_scope [OF f])
  obtain o1 es1 s1 where probe: "probe_run f s = (o1, es1, s1)" by (cases "probe_run f s") auto
  have s1: "svc_clock S (world s) \<le> svc_clock S (world s1)"
    using p C probe by (auto simp: runs_def final_def dest: spec[of _ s])
  have "s' = s1 \<or> (\<exists>d. world s' = svc_sleep S d (world s1))"
    using turn probe
    by (auto simp: poll_turn_def poll_sleep_def Let_def split: prod.splits flow.splits sum.splits if_splits)
  with s1 clock_sleep [OF C, of "world s1"] show ?thesis by (auto intro: order_trans)
qed

lemma reach_clock:
  assumes C: "clock_runs S" and f: "runs S f"
  shows "poll_reach S ctx b N r f s0 n k acc s \<Longrightarrow> svc_clock S (world s0) \<le> svc_clock S (world s)"
proof (induction rule: poll_reach.induct)
  case (again n k acc s k' es s')
  with turn_clock [OF C f again.hyps(2)] show ?case by simp
qed simp

lemma runs_Wait [runs_intros]:
  assumes f: "runs S f"
  shows "runs S (Wait S (Some dl) f :: ('w, 'r, error option) go)"
  unfolding runs_def
proof (intro impI allI)
  fix s
  assume C: "clock_runs S"
  obtain m where timely: "timely S dl (svc_backoff S) m f" using runs_timely [OF C f] ..
  obtain o1 es s' where loop: "poll_loop S (Some dl) (svc_backoff S) 0 IsNeverRetryable f 0 0 [] s = Some (o1, es, s')"
    using poll_loop_terminates [OF timely, of 0 IsNeverRetryable s] by auto
  from poll_loop_end [OF loop poll_reach.start] obtain n k acc u t es'
    where reach: "poll_reach S (Some dl) (svc_backoff S) 0 IsNeverRetryable f s n k acc u"
      and turn: "poll_turn S (Some dl) (svc_backoff S) 0 IsNeverRetryable f n k u = (t, es', s')"
      and o1: "loop_end t o1" by blast
  have "svc_clock S (world s) \<le> svc_clock S (world s')"
    using reach_clock [OF C f reach] turn_clock [OF C f turn] by simp
  with loop o1 show "outcome (Wait S (Some dl) f :: ('w, 'r, error option) go) s \<noteq> Hang \<and>
      svc_clock S (world s) \<le> svc_clock S (world (final (Wait S (Some dl) f :: ('w, 'r, error option) go) s))"
    by (auto simp: run_defs loop_end_def Wait_def WaitWithBackoff_def WaitWithBackoffWithRetries_def)
qed

text \<open>The only contexts the code polls with have a deadline.\<close>

lemma bnd_WithTimeout: "bnd (WithTimeout S d) k = bnd (now S) (\<lambda>t. k (Some (t + d)))"
  by (simp add: WithTimeout_def bnd_assoc)

lemma runs_case_flow [runs_intros]: "(\<And>t. cs = Some t \<Longrightarrow> runs S (f t)) \<Longrightarrow> runs S (case cs of None \<Rightarrow> panic p | Some t \<Rightarrow> f t)"
  by (cases cs) (auto intro: runs_intros)

section \<open>The components\<close>

lemma runs_try_do [runs_intros]: "runs S m \<Longrightarrow> runs S k \<Longrightarrow> runs S (try_do m f k)"
  unfolding try_do_def by (intro runs_intros)

lemma runs_service_get [runs_intros]: "runs S (service_get S a args)"
  unfolding service_get_def by (intro runs_intros)

lemma runs_status [runs_intros]:
  "runs S (GetComputeNetworkStatus S p n)" "runs S (GetComputeSubNetworkStatus S p n r)"
  "runs S (GetComputeRouterStatus S p n r)" "runs S (GetContainerClusterStatus S p n l)"
  "runs S (GetContainerNodepoolStatus S p n c l)" "runs S (GetSQLInstanceStatus S p n)"
  "runs S (GetSQLDatabaseStatus S p i d)" "runs S (GetStorageBucketStatus S n)"
  unfolding gcp_status_defs getToken_def by (intro runs_intros)+

lemma runs_waitFor [runs_intros]: "runs S f \<Longrightarrow> runs S (waitFor S f)"
  unfolding waitFor_def bnd_WithTimeout by (intro runs_intros)

lemma runs_waits [runs_intros]:
  "runs S (waitForContainerCluster S p n l)" "runs S (waitForContainerNodePool S p n c l)"
  "runs S (waitForComputeNetwork S p n)" "runs S (waitForComputeSubnetwork S p n l)"
  "runs S (waitForSQLInstance S p n)" "runs S (waitForSQLDatabase S p n i)" "runs S (waitForComputeRouter S p n l)"
  "runs S (waitForComputeRouterNAT S p n l)" "runs S (waitForStorageBucket S n)"
  unfolding wait_defs status_probe_def by (intro runs_intros)+

lemma runs_gke [runs_intros]: "runs S (GetGKEClientsetWithTimeout S p c l)"
  unfolding GetGKEClientsetWithTimeout_def GetGKEClientset_def gke_probe_def dryRun_def dryRun_probe_def bnd_WithTimeout
  by (intro runs_intros)

lemma runs_ensure [runs_intros]: "runs S (ensure S t x)" "runs S (ensure_lenient S t x)"
  unfolding ensure_def ensure_lenient_def by (intro runs_intros)+

lemma runs_admin [runs_intros]:
  "runs S (CreateClusterAdminToken S cs ns n)" "runs S (CreateAdminUser S cfg email)"
  unfolding CreateClusterAdminToken_def CreateAdminUser_def token_probe_def bnd_WithTimeout
  by (intro runs_intros)+

lemma runs_helm [runs_intros]:
  "runs S (helm_login S f sec cfg)" "(\<And>e. runs S (lf e)) \<Longrightarrow> runs S (helm_install S h n ns url vals lf)"
  unfolding helm_login_def login_front_def helm_install_def deref_or_panic_def by (intro runs_intros; assumption?)+

lemma runs_charts [runs_intros]:
  "runs S (deployVelero S cs sec cfg)" "runs S (deployNginxIngress S cs sec cfg)" "runs S (deployExternalSecret S cs sec cfg)"
  unfolding deployVelero_def velero_chart_def deployNginxIngress_def deployExternalSecret_def by (intro runs_intros)+

lemma runs_deployments [runs_intros]:
  "runs S (deployResourcePatcher S cs p tag sub)" "runs S (deployExternalDns S cs)"
  unfolding deployResourcePatcher_def deployExternalDns_def create_or_return_def by (intro runs_intros)+

lemma runs_velero [runs_intros]:
  "runs S (createBackUp S cfg nss n)" "runs S (createRestore S sec cfg n b)"
  "runs S (waitForBackUp S cfg n)" "runs S (waitForRestore S cfg n)"
  unfolding createBackUp_def createRestore_def waitForBackUp_def waitForRestore_def backup_probe_def restore_probe_def
  by (intro runs_intros)+

lemma runs_patch_rules [runs_intros]: "runs S (patch_rules S t ns suffix ing front rules)"
  by (induction rules arbitrary: front) (auto simp: Let_def intro!: runs_intros)

lemma runs_setup [runs_intros]:
  "runs S (ingressPatch S cfg suffix ns)" "runs S (prepareCluster S p c)" "runs S (annotatePreviewService S cs service)"
  "runs S m \<Longrightarrow> runs S (when_addon u addon m)"
  unfolding ingressPatch_def prepareCluster_def annotatePreviewService_def when_addon_def
  by (intro runs_intros; assumption?)+

lemma runs_setUpCluster [runs_intros]: "runs S (setUpCluster S u c)"
  unfolding setUpCluster_def by (intro runs_intros)

section \<open>The Universe reconciler\<close>

lemma runs_statusUpdate [runs_intros]: "runs S (statusUpdate S u)"
  unfolding statusUpdate_def by (intro runs_intros)

lemma runs_set_status [runs_intros]: "runs S (set_status S k u p n)"
  unfolding set_status_def updateStatus_upsert by (intro runs_intros)

lemma runs_create_new [runs_intros]: "runs S (create_new S k rt u e ann sn)"
  unfolding create_new_def by (intro runs_intros)

lemma runs_objects [runs_intros]: "runs S (update_found S x)" "runs S (prune S counted ts existing inSpec)"
  unfolding update_found_def prune_def by (intro runs_intros)+

lemma runs_lists [runs_intros]:
  "runs S (getComputeNetworksForUniverse S sel)" "runs S (getComputeSubNetworksForUniverse S sel)"
  "runs S (getContainerClustersForUniverse S sel)" "runs S (getContainerNodePoolsForUniverse S sel)"
  "runs S (getSQLInstancesForUniverse S sel)" "runs S (getSQLDatabasesForUniverse S sel)"
  "runs S (getComputeRoutersForUniverse S sel)" "runs S (getComputeRouterNATsForUniverse S sel)"
  "runs S (getStorageBucketsForUniverse S sel)" "runs S (getIAMServiceAccountsForUniverse S sel)"
  unfolding list_defs listForUniverse_def by (intro runs_intros)+

lemma runs_syncs [runs_intros]:
  "runs S (syncIAMServiceAccounts S e u)" "runs S (syncComputeNetworks S e u)" "runs S (syncComputeSubnetworks S e u)"
  "runs S (syncContainerClusters S e u)" "runs S (syncContainerNodePools S e u)" "runs S (syncSQLInstances S e u)"
  "runs S (syncSQLDatabases S e u)" "runs S (syncComputeRouters S e u)" "runs S (syncComputeRouterNATs S e u)"
  "runs S (syncStorageBuckets S e u)"
  unfolding syncIAMServiceAccounts_def syncComputeNetworks_def syncComputeSubnetworks_def syncContainerClusters_def
    syncContainerNodePools_def syncSQLInstances_def syncSQLDatabases_def syncComputeRouters_def
    syncComputeRouterNATs_def syncStorageBuckets_def
  by (intro runs_intros)+

lemma runs_sections [runs_intros]: "runs S (reconcileResources S u)"
  unfolding reconcileResources_def reconcileIAMServiceAccounts_def reconcileComputeNetworks_def
    reconcileComputeSubnetworks_def reconcileContainerClusters_def reconcileContainerNodePools_def
    reconcileSQLInstances_def reconcileSQLDatabases_def reconcileComputeRouters_def
    reconcileComputeRouterNATs_def reconcileStorageBuckets_def
  by (intro runs_intros)

lemma runs_finish [runs_intros]: "runs S (finishReconcile S u)"
  unfolding finishReconcile_def restorePreviews_def restoreCluster_def handleDeletion_def finalizeUniverse_def
    ensureFinalizer_def checkTTL_def recordGeneration_def
  by (intro runs_intros)

lemma runs_Reconcile: "runs S (Reconcile S ns n)"
  unfolding Reconcile_def fetchUniverse_def by (intro runs_intros)

section \<open>The Trigger reconciler\<close>

lemma runs_NewUniverse [runs_intros]: "runs S (NewUniverse S ns repo i targets primary services admin)"
  unfolding NewUniverse_def by (intro runs_intros)

lemma runs_pull_requests [runs_intros]:
  "runs S (openPullRequest S tok ns tr ow repo p)" "runs S (closedPullRequest S tok ns ow repo p)"
  unfolding openPullRequest_def closedPullRequest_def comment_and_label_def by (intro runs_intros)+

lemma runs_ReconcileTrigger: "runs S (ReconcileTrigger S ns n)"
  unfolding ReconcileTrigger_def reconcileRepository_def ensureCron_def recordTriggerGeneration_def
  by (intro runs_intros)

section \<open>Properties\<close>

lemma ends: "outcome m s \<noteq> Hang \<Longrightarrow> (\<And>r. outcome m s \<noteq> Return r) \<Longrightarrow> (\<exists>a. outcome m s = Next a) \<or> (\<exists>p. outcome m s = Panic p)"
  by (cases "outcome m s") auto

text \<open>
  C4. Where the clock runs, a reconciliation comes back, with an answer or with a panic: the up to
  nine waits per template, the connections to clusters, the waits for tokens, backups and restores
  and the loops around them never keep the reconciler of Universes for ever, nor does the
  reconciler of Triggers.  And the clock has not gone back.
\<close>

theorem reconcile_returns:
  assumes "clock_runs S"
  shows "((\<exists>a. outcome (Reconcile S ns n :: ('w, 'r, answer) go) s = Next a) \<or>
      (\<exists>p. outcome (Reconcile S ns n :: ('w, 'r, answer) go) s = Panic p)) \<and>
    svc_clock S (world s) \<le> svc_clock S (world (final (Reconcile S ns n :: ('w, 'r, answer) go) s)) \<and>
    ((\<exists>a. outcome (ReconcileTrigger S ns n :: ('w, 'r, answer) go) s = Next a) \<or>
      (\<exists>p. outcome (ReconcileTrigger S ns n :: ('w, 'r, answer) go) s = Panic p))"
proof (intro conjI)
  have u: "runs S (Reconcile S ns n :: ('w, 'r, answer) go)" by (rule runs_Reconcile)
  have t: "runs S (ReconcileTrigger S ns n :: ('w, 'r, answer) go)" by (rule runs_ReconcileTrigger)
  show "(\<exists>a. outcome (Reconcile S ns n :: ('w, 'r, answer) go) s = Next a) \<or>
      (\<exists>p. outcome (Reconcile S ns n :: ('w, 'r, answer) go) s = Panic p)"
    by (rule ends [OF runsD [OF u assms]]) (simp add: Reconcile_def scope_no_return)
  show "svc_clock S (world s) \<le> svc_clock S (world (final (Reconcile S ns n :: ('w, 'r, answer) go) s))"
    using u assms by (simp add: runs_def)
  show "(\<exists>a. outcome (ReconcileTrigger S ns n :: ('w, 'r, answer) go) s = Next a) \<or>
      (\<exists>p. outcome (ReconcileTrigger S ns n :: ('w, 'r, answer) go) s = Panic p)"
    by (rule ends [OF runsD [OF t assms]]) (simp add: ReconcileTrigger_def scope_no_return)
qed

lemma demo_clock_runs: "clock_runs demo_services"
proof -
  have "100000000 \<le> svc_backoff demo_services n" for n
  proof (cases "n < 7")
    case True
    have "(1::int) \<le> 2 ^ n" by simp
    with True show ?thesis by (simp add: demo_services_def)
  qed (simp add: demo_services_def)
  then have "\<forall>n. 100000000 \<le> svc_backoff demo_services n" by blast
  then have b: "backoff_grows demo_services" unfolding backoff_grows_def by (intro exI [of _ 100000000]) simp
  have s: "sleep_lasts demo_services" "select_fair demo_services"
    by (auto simp: sleep_lasts_def select_fair_def demo_services_def)
  have t: "kube_ticks demo_services" "custom_ticks demo_services" "cloud_ticks demo_services" "helm_ticks demo_services"
    by (simp_all add: kube_ticks_def custom_ticks_def cloud_ticks_def helm_ticks_def ticks_def demo_services_def
        demo_create_def demo_update_def demo_delete_def demo_create_universe_def demo_put_universe_def demo_put_status_def
        split: option.split)
  from b s t show ?thesis by (simp add: clock_runs_def)
qed

theorem reconcile_returns_witness:
  "((\<exists>a. outcome (Reconcile demo_services ''ns'' ''u'' :: (demo, unit, answer) go) demo_start = Next a) \<or>
      (\<exists>p. outcome (Reconcile demo_services ''ns'' ''u'' :: (demo, unit, answer) go) demo_start = Panic p)) \<and>
    svc_clock demo_services (world demo_start) \<le>
      svc_clock demo_services (world (final (Reconcile demo_services ''ns'' ''u'' :: (demo, unit, answer) go) demo_start)) \<and>
    ((\<exists>a. outcome (ReconcileTrigger demo_services ''ns'' ''u'' :: (demo, unit, answer) go) demo_start = Next a) \<or>
      (\<exists>p. outcome (ReconcileTrigger demo_services ''ns'' ''u'' :: (demo, unit, answer) go) demo_start = Panic p))"
  by (rule reconcile_returns [OF demo_clock_runs])

end
