(* ===== verification/Answers.thy ===== *)
theory Answers
  imports Returns UniverseInvariants
begin

text \<open>
  When a reconciliation answers: it neither hangs nor panics.

  \<open>ends T m\<close>: every run of \<open>m\<close> comes to its end, and if by a panic then with a message of \<open>T\<close>.  Where the
  code reads through pointers that may be nil the panic is in the model; this theory says which
  reconciliations can meet one: of the Trigger's, those whose repositories or pull requests are
  malformed; of the Universe's, those with clusters, and the connection to the primary cluster.
\<close>

section \<open>The judgement\<close>

named_theorems ends_intros

definition ends :: "string set \<Rightarrow> ('s, 'e, 'r, 'a) prog \<Rightarrow> bool" where
  "ends T m \<longleftrightarrow> (\<forall>s. case outcome m s of Panic p \<Rightarrow> p \<in> T | Hang \<Rightarrow> False | _ \<Rightarrow> True)"

lemma endsD:
  "ends T m \<Longrightarrow> outcome m s \<noteq> Hang"
  "ends T m \<Longrightarrow> outcome m s = Panic p \<Longrightarrow> p \<in> T"
  by (auto simp: ends_def dest: spec [of _ s])

lemma ends_ret [ends_intros]: "ends T (ret x)" "ends T (return r)"
  by (simp_all add: ends_def run_defs)

lemma ends_panic [ends_intros]: "p \<in> T \<Longrightarrow> ends T (panic p)"
  by (simp add: ends_def run_defs)

lemma ends_sat:
  assumes v: "sat P U R m" and m: "ends T m" and f: "\<And>x. U x \<Longrightarrow> ends T (f x)"
  shows "ends T (bnd m f)"
  unfolding ends_def
proof
  fix s
  obtain o1 es s' where run: "m s = (o1, es, s')" by (cases "m s") auto
  show "case outcome (bnd m f) s of Panic p \<Rightarrow> p \<in> T | Hang \<Rightarrow> False | _ \<Rightarrow> True"
  proof (cases o1)
    case (Next x)
    then have "U x" using satD_next [OF v, of s x] run by (simp add: outcome_def)
    from f [OF this] have "case outcome (f x) s' of Panic p \<Rightarrow> p \<in> T | Hang \<Rightarrow> False | _ \<Rightarrow> True"
      unfolding ends_def by blast
    with run Next show ?thesis by (cases "f x s'") (auto simp: run_defs bnd_def)
  qed (use endsD [OF m, of s] run in \<open>auto simp: run_defs bnd_def\<close>)
qed

lemma ends_bnd [ends_intros]: "ends T m \<Longrightarrow> (\<And>x. ends T (f x)) \<Longrightarrow> ends T (bnd m f)"
  by (rule ends_sat [where P = "\<lambda>_. True" and U = "\<lambda>_. True" and R = "\<lambda>_. True"]) (simp_all add: sat_def)

lemma ends_seq [ends_intros]: "ends T m \<Longrightarrow> ends T k \<Longrightarrow> ends T (seq m k)"
  by (auto simp: seq_def intro: ends_bnd)

lemma ends_scope [ends_intros]:
  assumes "ends T m"
  shows "ends T (scope m)"
  unfolding ends_def
proof
  fix s
  from assms have "case outcome m s of Panic p \<Rightarrow> p \<in> T | Hang \<Rightarrow> False | _ \<Rightarrow> True" by (simp add: ends_def)
  then show "case outcome (scope m) s of Panic p \<Rightarrow> p \<in> T | Hang \<Rightarrow> False | _ \<Rightarrow> True"
    by (auto simp: run_defs scope_def split: prod.splits flow.splits)
qed

lemma ends_foreach [ends_intros]: "(\<And>x a. x \<in> set xs \<Longrightarrow> ends T (f x a)) \<Longrightarrow> ends T (foreach f xs a)"
  by (induction xs arbitrary: a) (auto intro: ends_intros)

lemma ends_if [ends_intros]:
  "(b \<Longrightarrow> ends T m) \<Longrightarrow> (\<not> b \<Longrightarrow> ends T k) \<Longrightarrow> ends T (if b then m else k)"
  by simp

lemma ends_case_sum [ends_intros]:
  "(\<And>e. r = Inl e \<Longrightarrow> ends T (f e)) \<Longrightarrow> (\<And>x. r = Inr x \<Longrightarrow> ends T (g x)) \<Longrightarrow>
    ends T (case r of Inl e \<Rightarrow> f e | Inr x \<Rightarrow> g x)"
  by (cases r) auto

lemma ends_case_option [ends_intros]:
  "(r = None \<Longrightarrow> ends T m) \<Longrightarrow> (\<And>x. r = Some x \<Longrightarrow> ends T (g x)) \<Longrightarrow> ends T (case r of None \<Rightarrow> m | Some x \<Rightarrow> g x)"
  by (cases r) auto

lemma ends_case_prod [ends_intros]: "(\<And>x y. r = (x, y) \<Longrightarrow> ends T (f x y)) \<Longrightarrow> ends T (case r of (x, y) \<Rightarrow> f x y)"
  by (cases r) auto

lemma ends_Let [ends_intros]: "ends T (f x) \<Longrightarrow> ends T (let y = x in f y)"
  by simp

lemma ends_weaken: "ends T m \<Longrightarrow> T \<subseteq> T' \<Longrightarrow> ends T' m"
  by (fastforce simp: ends_def split: flow.splits)

section \<open>The calls\<close>

lemma ends_ask [ends_intros]: "ends T (ask f ev)"
  by (auto simp: ends_def run_defs ask_def split: prod.split)

lemma ends_calls [ends_intros]:
  "ends T (k_get S t k ns n)" "ends T (k_list S t k ns sel)" "ends T (k_create S t x)" "ends T (k_update S t x)"
  "ends T (k_delete S t x)" "ends T (ing_list S t ns)" "ends T (ing_update S t ns i)"
  "ends T (u_get S ns n)" "ends T (u_create S u)" "ends T (u_update S u)" "ends T (u_status S u)" "ends T (u_delete S u)"
  "ends T (t_get S ns n)" "ends T (t_status S tr)" "ends T (record_event ns n)"
  "ends T (gcp_get S a args)" "ends T (find_credentials S)" "ends T (new_service S a)" "ends T (registry_tags S repo)"
  "ends T (pulls_list S tok ow repo st)" "ends T (github_do S tok req)" "ends T (edit_labels S tok ow repo num ls)"
  "ends T (now S)"
  unfolding call_defs by (rule ends_ask | simp add: ends_def run_defs now_def record_event_def)+

section \<open>The Trigger reconciler\<close>

text \<open>What GitHub documents: a pull request has a number, a label has a name.\<close>

definition complete_pull :: "pull \<Rightarrow> bool" where
  "complete_pull pr \<longleftrightarrow> Number pr \<noteq> None \<and> None \<notin> set (LabelPtrs pr)"

definition complete_pulls :: "'w services \<Rightarrow> bool" where
  "complete_pulls S \<longleftrightarrow> (\<forall>tok ow repo st w prs. fst (svc_list_pulls S tok ow repo st w) = Inr prs \<longrightarrow> list_all complete_pull prs)"

lemma label_names_complete: "None \<notin> set ls \<Longrightarrow> \<exists>names. label_names ls = Some names"
  by (induction ls rule: label_names.induct) auto

lemma ends_NewUniverse [ends_intros]: "ends T (NewUniverse S ns repo i targets primary services admin)"
  unfolding NewUniverse_def by (intro ends_intros)

lemma ends_comment [ends_intros]: "svc_repo_request S ow repo = None \<Longrightarrow> ends T (comment_and_label S tok ow repo n content ls)"
  unfolding comment_and_label_def by simp (intro ends_intros)

lemma ends_pull_requests:
  assumes "complete_pull pr" and "svc_repo_request S ow repo = None"
  shows "ends T (openPullRequest S tok ns tr ow repo pr)" and "ends T (closedPullRequest S tok ns ow repo pr)"
proof -
  obtain names n where "label_names (LabelPtrs pr) = Some names" "Number pr = Some n"
    using assms(1) label_names_complete unfolding complete_pull_def by blast
  with assms(2) show "ends T (openPullRequest S tok ns tr ow repo pr)" "ends T (closedPullRequest S tok ns ow repo pr)"
    by (auto simp: openPullRequest_def closedPullRequest_def intro!: ends_intros)
qed

text \<open>Where pull requests are listed, a comment to one of them can be written.\<close>

definition served_pull :: "'w services \<Rightarrow> string \<Rightarrow> string \<Rightarrow> pull \<Rightarrow> bool" where
  "served_pull S ow repo pr \<longleftrightarrow> complete_pull pr \<and> svc_repo_request S ow repo = None"

lemma sat_pulls: "complete_pulls S \<Longrightarrow>
    sat (\<lambda>_. True) (\<lambda>l. list_all (served_pull S ow repo) (pulls_or_none l)) (\<lambda>_. True) (pulls_list S tok ow repo st)"
  unfolding pulls_list_def
proof (rule sat_ask_value)
  fix x w w'
  assume S: "complete_pulls S" and x: "(case svc_repo_request S ow repo of Some err \<Rightarrow> (Inl err, w)
       | None \<Rightarrow> svc_list_pulls S tok ow repo st w) = (x, w')"
  have "list_all (served_pull S ow repo) prs" if "x = Inr prs" for prs
  proof -
    have "svc_repo_request S ow repo = None" and "svc_list_pulls S tok ow repo st w = (Inr prs, w')"
      using x that by (cases "svc_repo_request S ow repo", simp_all)+
    moreover from this(2) have "list_all complete_pull prs" using S unfolding complete_pulls_def by (metis fst_conv)
    ultimately show ?thesis by (simp add: served_pull_def list_all_iff)
  qed
  then show "True \<and> list_all (served_pull S ow repo) (pulls_or_none x)" by (simp add: pulls_or_none_def split: sum.split)
qed

lemma ends_pull_loop:
  "list_all (served_pull S ow repo) prs \<Longrightarrow>
    (\<And>pr. complete_pull pr \<Longrightarrow> svc_repo_request S ow repo = None \<Longrightarrow> ends T (f pr)) \<Longrightarrow> ends T (foreach (\<lambda>pr _. f pr) prs a)"
  by (rule ends_foreach) (simp add: list_all_iff served_pull_def)

lemma ends_cron [ends_intros]: "ends T (ensureCron S ns tr)" "ends T (recordTriggerGeneration S tr)"
  unfolding ensureCron_def recordTriggerGeneration_def by (intro ends_intros)+

lemma ends_repository:
  assumes "complete_pulls S" and slash: "CHR ''/'' \<in> set repo"
  shows "ends T (reconcileRepository S tok ns repo tr)"
proof -
  obtain a b where "CHR ''/'' \<notin> set a" "repo = a @ CHR ''/'' # b" using split_list_first [OF slash] by auto
  then have "split_on CHR ''/'' repo = a # split_on CHR ''/'' b" by (simp add: split_on_append_sep)
  moreover obtain r rs where "split_on CHR ''/'' b = r # rs" by (cases "split_on CHR ''/'' b") auto
  ultimately show ?thesis
    unfolding reconcileRepository_def
    by simp (rule ends_sat [OF sat_pulls [OF assms(1)] ends_calls(20)], rule ends_bnd, erule ends_pull_loop,
        erule (1) ends_pull_requests, rule ends_bnd, rule ends_cron, rule ends_bnd, rule ends_cron,
        rule ends_sat [OF sat_pulls [OF assms(1)] ends_calls(20)], rule ends_bnd, erule ends_pull_loop,
        erule (1) ends_pull_requests, rule ends_ret)
qed

definition trigger_repositories_ok :: "'w services \<Rightarrow> string \<Rightarrow> string \<Rightarrow> bool" where
  "trigger_repositories_ok S ns n \<longleftrightarrow> (\<forall>w t. fst (svc_get_trigger S ns n w) = Inr t \<longrightarrow>
     list_all (\<lambda>repo. CHR ''/'' \<in> set repo) (Respositories (tSpec t)))"

lemma ends_Trigger:
  assumes "complete_pulls S" and "trigger_repositories_ok S ns n"
  shows "ends T (ReconcileTrigger S ns n)"
proof -
  have got: "sat (\<lambda>_. True) (\<lambda>r. \<forall>t. r = Inr t \<longrightarrow> list_all (\<lambda>repo. CHR ''/'' \<in> set repo) (Respositories (tSpec t))) (\<lambda>_. True) (t_get S ns n)"
    unfolding t_get_def
  proof (rule sat_ask_value)
    fix x w w'
    assume "svc_get_trigger S ns n w = (x, w')"
    with assms(2) show "True \<and> (\<forall>t. x = Inr t \<longrightarrow> list_all (\<lambda>repo. CHR ''/'' \<in> set repo) (Respositories (tSpec t)))"
      by (metis trigger_repositories_ok_def fst_conv)
  qed
  show ?thesis
    unfolding ReconcileTrigger_def Let_def
    by (rule ends_scope, rule ends_sat [OF got ends_calls(13)], rule ends_case_sum, (intro ends_intros)[1],
        rule ends_bnd, (intro ends_intros)[1], rule ends_bnd, rule ends_calls, rule ends_bnd, rule ends_foreach,
        rule ends_repository [OF assms(1)]) (auto simp: list_all_iff intro: ends_ret)
qed

text \<open>
  C6. The reconciler of Triggers always answers.  When GitHub's pull requests are complete, as documented,
  and every repository of the Trigger is written with its owner, no reconciliation panics and none runs
  for ever, whatever the API server and GitHub answer, errors included: there is no wait in it.  The
  second condition is needed: a repository without its owner is an index out of range.
\<close>

theorem trigger_answers:
  assumes "complete_pulls S" and "trigger_repositories_ok S ns n"
  shows "(\<exists>a. outcome (ReconcileTrigger S ns n :: ('w, 'r, answer) go) s = Next a) \<and>
    (CHR ''/'' \<notin> set repo \<longrightarrow> reconcileRepository S tok ns repo tr = panic ''index out of range'')"
proof -
  have "ends {} (ReconcileTrigger S ns n :: ('w, 'r, answer) go)" by (rule ends_Trigger [OF assms])
  then have "outcome (ReconcileTrigger S ns n :: ('w, 'r, answer) go) s \<noteq> Hang"
    "outcome (ReconcileTrigger S ns n :: ('w, 'r, answer) go) s \<noteq> Panic p" for p
    by (auto dest: endsD)
  moreover have "outcome (ReconcileTrigger S ns n :: ('w, 'r, answer) go) s \<noteq> Return r" for r
    by (simp add: ReconcileTrigger_def scope_no_return)
  moreover have "CHR ''/'' \<notin> set repo \<longrightarrow> reconcileRepository S tok ns repo tr = panic ''index out of range''"
    by (simp add: reconcileRepository_def split_on_no_sep)
  ultimately show ?thesis by (cases "outcome (ReconcileTrigger S ns n :: ('w, 'r, answer) go) s") auto
qed

text \<open>A world in which every Trigger is that of the witnesses and GitHub has one pull request.\<close>

definition tidy_demo :: "demo services" where
  "tidy_demo = demo_services\<lparr>svc_list_pulls := (\<lambda>tok ow repo state w. (Inr [demo_pull], w)),
     svc_get_trigger := (\<lambda>ns n w. (Inr demo_trigger, w))\<rparr>"

lemma tidy_demo_ok: "complete_pulls tidy_demo" "trigger_repositories_ok tidy_demo ns n"
  by (simp_all add: complete_pulls_def trigger_repositories_ok_def tidy_demo_def complete_pull_def demo_pull_def demo_trigger_def)

theorem trigger_answers_witness:
  "(\<exists>a. outcome (ReconcileTrigger tidy_demo ''apps'' ''shop'' :: (demo, unit, answer) go) (demo_state demo_world) = Next a) \<and>
    reconcileRepository tidy_demo [] ''apps'' ''shop'' demo_trigger = panic ''index out of range''"
  using trigger_answers [OF tidy_demo_ok, where repo = "''shop''" and tok = "[]" and ns = "''apps''" and tr = demo_trigger]
  by simp

section \<open>Polls and connections\<close>

lemma turn_broke: "poll_turn S ctx b N r f n k s = (Broke p, es, s') \<Longrightarrow> outcome (probe_run f) s = Panic p"
  by (auto simp: poll_turn_def Let_def outcome_def split: prod.splits flow.splits sum.splits if_splits)

lemma ends_Wait:
  assumes C: "clock_runs S" and r: "runs S f" and f: "ends T f"
  shows "ends T (Wait S (Some dl) f :: ('w, 'r, error option) go)"
proof -
  have T: "p \<in> T" if out: "outcome (Wait S (Some dl) f :: ('w, 'r, error option) go) s = Panic p" for s p
  proof -
    obtain es s' where run: "(WaitWithBackoffWithRetries S (Some dl) (svc_backoff S) 0 IsNeverRetryable f :: ('w, 'r, error option) go) s = (Panic p, es, s')"
      using out by (cases "(WaitWithBackoffWithRetries S (Some dl) (svc_backoff S) 0 IsNeverRetryable f :: ('w, 'r, error option) go) s")
        (auto simp: Wait_def WaitWithBackoff_def outcome_def)
    obtain u where "outcome (probe_run f) u = Panic p"
      by (rule wait_cases [OF run]) (auto dest: turn_broke)
    moreover have "ends T (probe_run f)" unfolding probe_run_def by (rule ends_scope [OF f])
    ultimately show ?thesis by (auto dest: endsD)
  qed
  have "outcome (Wait S (Some dl) f :: ('w, 'r, error option) go) s \<noteq> Hang" for s
    by (rule runsD [OF runs_Wait [OF r] C])
  with T show ?thesis unfolding ends_def by (auto split: flow.split)
qed

definition connection_panics :: "string set" where
  "connection_panics = {''nil service'', ''nil cluster'', ''nil MasterAuth''}"

lemma ends_clientset [ends_intros]: "ends T (clientset_or_err (NewForConfig S (Some c)))"
  by (simp add: clientset_or_err_def NewForConfig_def client_of_def ends_ret)

lemma ends_gke:
  assumes C: "clock_runs S"
  shows "ends connection_panics (GetGKEClientsetWithTimeout S p c l)"
  unfolding GetGKEClientsetWithTimeout_def GetGKEClientset_def gke_probe_def dryRun_def dryRun_probe_def bnd_WithTimeout
  by (intro ends_intros ends_Wait [OF C] runs_intros) (simp_all add: connection_panics_def)

text \<open>A status panics only where its service cannot be made.\<close>

definition services_made :: "'w services \<Rightarrow> bool" where
  "services_made S \<longleftrightarrow> (\<forall>a w. fst (svc_new_service S a w) = None)"

definition service_safe :: "'w services \<Rightarrow> string set \<Rightarrow> bool" where
  "service_safe S T \<longleftrightarrow> ''nil service'' \<in> T \<or> services_made S"

lemma service_safe_connection [simp]: "service_safe S connection_panics"
  by (simp add: service_safe_def connection_panics_def)

lemma ends_service_get [ends_intros]: "service_safe S T \<Longrightarrow> ends T (service_get S a args)"
proof (cases "services_made S")
  case True
  then have "sat (\<lambda>_. True) (\<lambda>e. e = None) (\<lambda>_. True) (new_service S a)"
    unfolding new_service_def services_made_def by (auto intro!: sat_ask_value) (metis fst_conv option.distinct(1))
  then show ?thesis
    unfolding service_get_def by (rule ends_sat) (simp_all add: ends_intros)
next
  case False
  assume "service_safe S T"
  with False have "''nil service'' \<in> T" by (simp add: service_safe_def)
  then show ?thesis unfolding service_get_def by (intro ends_intros)
qed

lemma ends_status [ends_intros]:
  assumes N: "service_safe S T"
  shows
  "ends T (GetComputeNetworkStatus S p n)" "ends T (GetComputeSubNetworkStatus S p n r)"
  "ends T (GetComputeRouterStatus S p n r)" "ends T (GetContainerClusterStatus S p n l)"
  "ends T (GetContainerNodepoolStatus S p n c l)" "ends T (GetSQLInstanceStatus S p n)"
  "ends T (GetSQLDatabaseStatus S p i d)" "ends T (GetStorageBucketStatus S n)"
  unfolding gcp_status_defs getToken_def try_do_def by (intro ends_intros N)+

lemma ends_waits:
  assumes C: "clock_runs S" and N: "service_safe S T"
  shows "ends T (waitForContainerNodePool S p n c l)" "ends T (waitForComputeNetwork S p n)"
    "ends T (waitForComputeSubnetwork S p n l)" "ends T (waitForSQLInstance S p n)" "ends T (waitForSQLDatabase S p n i)"
    "ends T (waitForComputeRouter S p n l)" "ends T (waitForComputeRouterNAT S p n l)" "ends T (waitForStorageBucket S n)"
  unfolding wait_defs status_probe_def waitFor_def bnd_WithTimeout
  by (intro ends_intros ends_Wait [OF C] runs_intros N)+

section \<open>The Universe reconciler without clusters\<close>

lemma ends_statusUpdate [ends_intros]: "ends T (statusUpdate S u)"
  unfolding statusUpdate_def by (intro ends_intros)

lemma ends_set_status [ends_intros]: "ends T (set_status S k u p n)"
  unfolding set_status_def updateStatus_upsert by (intro ends_intros)

lemma ends_create_new [ends_intros]: "ends T (create_new S k rt u e ann sn)"
  unfolding create_new_def by (intro ends_intros)

lemma ends_objects [ends_intros]: "ends T (update_found S x)" "ends T (prune S counted ts existing inSpec)"
  unfolding update_found_def prune_def by (intro ends_intros)+

lemma ends_lists [ends_intros]:
  "ends T (getComputeNetworksForUniverse S sel)" "ends T (getComputeSubNetworksForUniverse S sel)"
  "ends T (getContainerClustersForUniverse S sel)" "ends T (getContainerNodePoolsForUniverse S sel)"
  "ends T (getSQLInstancesForUniverse S sel)" "ends T (getSQLDatabasesForUniverse S sel)"
  "ends T (getComputeRoutersForUniverse S sel)" "ends T (getComputeRouterNATsForUniverse S sel)"
  "ends T (getStorageBucketsForUniverse S sel)" "ends T (getIAMServiceAccountsForUniverse S sel)"
  unfolding list_defs listForUniverse_def by (intro ends_intros)+

lemma ends_syncs:
  assumes C: "clock_runs S" and N: "service_safe S T"
  shows "ends T (syncIAMServiceAccounts S e u)" "ends T (syncComputeNetworks S e u)" "ends T (syncComputeSubnetworks S e u)"
    "ends T (syncContainerNodePools S e u)" "ends T (syncSQLInstances S e u)"
    "ends T (syncSQLDatabases S e u)" "ends T (syncComputeRouters S e u)" "ends T (syncComputeRouterNATs S e u)"
    "ends T (syncStorageBuckets S e u)"
  unfolding syncIAMServiceAccounts_def syncComputeNetworks_def syncComputeSubnetworks_def
    syncContainerNodePools_def syncSQLInstances_def syncSQLDatabases_def syncComputeRouters_def
    syncComputeRouterNATs_def syncStorageBuckets_def
  by (intro ends_intros ends_waits [OF C N])+

lemma ends_sections:
  assumes C: "clock_runs S" and N: "service_safe S T"
  shows "ends T (reconcileIAMServiceAccounts S u)" "ends T (reconcileComputeNetworks S u)"
    "ends T (reconcileComputeSubnetworks S nws u)" "ends T (reconcileContainerNodePools S u)"
    "ends T (reconcileSQLInstances S u)" "ends T (reconcileSQLDatabases S sqls u)" "ends T (reconcileComputeRouters S sqls u)"
    "ends T (reconcileComputeRouterNATs S u)" "ends T (reconcileStorageBuckets S u)"
  unfolding reconcileIAMServiceAccounts_def reconcileComputeNetworks_def
    reconcileComputeSubnetworks_def reconcileContainerNodePools_def
    reconcileSQLInstances_def reconcileSQLDatabases_def reconcileComputeRouters_def
    reconcileComputeRouterNATs_def reconcileStorageBuckets_def
  by (intro ends_intros ends_syncs [OF C N])+

text \<open>That the Universe has no clusters is an invariant of the sections.\<close>

definition clusterless :: "Universe \<Rightarrow> bool" where
  "clusterless u \<longleftrightarrow> ContainerClusters (uContainer (uSpec u)) = []"

lemma keeps_clusterless: "keeps S u v \<Longrightarrow> status_keeps S \<longrightarrow> clusterless u \<Longrightarrow> status_keeps S \<longrightarrow> clusterless v"
  by (simp add: keeps_def same_universe_spec_def clusterless_def)

interpretation clusterless: section_invariant S "\<lambda>e. True" "\<lambda>v. status_keeps S \<longrightarrow> clusterless v" for S
  by unfold_locales (auto intro: sat_weaken [OF sat_set_status_keeps] dest: keeps_clusterless)

lemma ends_clusters: "clusterless u \<Longrightarrow> ends T (reconcileContainerClusters S u)"
  unfolding reconcileContainerClusters_def clusterless_def by simp (intro ends_intros)

lemma ends_resources:
  assumes C: "clock_runs S" and N: "service_safe S T" and K: "status_keeps S" and u: "clusterless u"
  shows "ends T (reconcileResources S u)"
proof -
  have inv: "status_keeps S \<longrightarrow> clusterless u" using u by simp
  show ?thesis
    unfolding reconcileResources_def
    by (rule ends_sat [OF clusterless.sections_keep(1) [OF inv] ends_sections(1) [OF C N]],
        rule ends_sat [OF clusterless.sections_keep(2) ends_sections(2) [OF C N]], assumption, rule ends_case_prod, simp,
        rule ends_sat [OF clusterless.sections_keep(3) ends_sections(3) [OF C N]], assumption,
        rule ends_bnd, rule ends_clusters, simp add: K)
      (intro ends_intros ends_sections [OF C N])
qed

lemma ends_finish:
  assumes C: "clock_runs S" and u: "clusterless u"
  shows "ends connection_panics (finishReconcile S u)"
  unfolding finishReconcile_def restorePreviews_def handleDeletion_def finalizeUniverse_def
    ensureFinalizer_def checkTTL_def recordGeneration_def
  by (intro ends_intros ends_gke [OF C]) (use u in \<open>simp add: clusterless_def\<close>)

lemma sat_fetch_clusterless:
  assumes K: "status_keeps S" and got: "\<And>w u. fst (svc_get_universe S ns n w) = Inr u \<Longrightarrow> clusterless u"
  shows "sat (\<lambda>_. True) clusterless (\<lambda>_. True) (fetchUniverse S ns n)"
proof -
  have get: "sat (\<lambda>_. True) (\<lambda>r. \<forall>u. r = Inr u \<longrightarrow> clusterless u) (\<lambda>_. True) (u_get S ns n)"
    unfolding u_get_def
  proof (rule sat_ask_value)
    fix x w w'
    assume "svc_get_universe S ns n w = (x, w')"
    with got [of w] show "True \<and> (\<forall>u. x = Inr u \<longrightarrow> clusterless u)" by auto
  qed
  have put: "sat (\<lambda>_. True) clusterless (\<lambda>_. True) (statusUpdate S v)" if "clusterless v" for v
    unfolding statusUpdate_def u_status_def
  proof (rule sat_bnd, rule sat_ask_value)
    fix x w w'
    assume x: "svc_status_universe S v w = (x, w')"
    have "same_universe_spec v v'" if "x = Inr v'" for v'
    proof -
      have "fst (svc_status_universe S v w) = Inr v'" using x that by simp
      then show ?thesis using K unfolding status_keeps_def by blast
    qed
    then have "clusterless v'" if "x = Inr v'" for v'
      using \<open>clusterless v\<close> that unfolding same_universe_spec_def clusterless_def by metis
    then show "True \<and> (\<forall>v'. x = Inr v' \<longrightarrow> clusterless v')" by blast
  next
    fix x
    assume "\<forall>v'. x = Inr v' \<longrightarrow> clusterless v'"
    then show "sat (\<lambda>_. True) clusterless (\<lambda>_. True) (ret (case x of Inl e \<Rightarrow> v | Inr u' \<Rightarrow> u'))"
      using \<open>clusterless v\<close> by (auto intro!: sat_ret split: sum.split)
  qed
  have status: "clusterless (u\<lparr>uStatus := st\<rparr>) = clusterless u" for u st by (simp add: clusterless_def)
  show ?thesis
    unfolding fetchUniverse_def
    by (rule sat_bnd [OF get], rule sat_case_sum, (intro sat_if sat_return TrueI)[1],
        rule sat_bnd [where U = clusterless], rule sat_if, rule put, simp add: status, rule sat_ret, simp,
        rule sat_if, rule sat_bnd [OF get], simp add: Let_def, rule put, simp add: status split: sum.split,
        rule sat_ret)
qed

text \<open>
  A Universe without clusters is reconciled to an answer.  Where the clock runs and the API server
  stores what it is given, the reconciliation does not hang, and it does not panic either, but for a
  client of Google Cloud that cannot be made, and the connection to the primary cluster, made for the
  backup even then: there a cluster that is gone between two questions is read through nil.
\<close>

theorem clusterless_answers:
  assumes "clock_runs S" and "status_keeps S"
    and "\<And>w u. fst (svc_get_universe S ns n w) = Inr u \<Longrightarrow> ContainerClusters (uContainer (uSpec u)) = []"
  shows "(\<exists>a. outcome (Reconcile S ns n :: ('w, 'r, answer) go) s = Next a) \<or>
    (\<exists>p \<in> {''nil service'', ''nil cluster'', ''nil MasterAuth''}. outcome (Reconcile S ns n :: ('w, 'r, answer) go) s = Panic p)"
proof -
  have fetch: "ends connection_panics (fetchUniverse S ns n)"
    unfolding fetchUniverse_def by (intro ends_intros)
  have none: "sat (\<lambda>_. True) clusterless (\<lambda>_. True) (fetchUniverse S ns n)"
    by (rule sat_fetch_clusterless [OF assms(2)]) (use assms(3) in \<open>simp add: clusterless_def\<close>)
  have "ends connection_panics (Reconcile S ns n :: ('w, 'r, answer) go)"
    unfolding Reconcile_def
  proof (rule ends_scope, rule ends_sat [OF none fetch])
    fix u
    assume "clusterless u"
    then have inv: "status_keeps S \<longrightarrow> clusterless u" by simp
    show "ends connection_panics (bnd (reconcileResources S u) (finishReconcile S))"
      by (rule ends_sat [OF clusterless.resources_keep [OF inv] ends_resources [OF assms(1) service_safe_connection assms(2) \<open>clusterless u\<close>]])
        (simp add: assms(2) ends_finish [OF assms(1)])
  qed
  moreover have "outcome (Reconcile S ns n :: ('w, 'r, answer) go) s \<noteq> Return r" for r
    by (simp add: Reconcile_def scope_no_return)
  ultimately show ?thesis
    unfolding connection_panics_def
    by (cases "outcome (Reconcile S ns n :: ('w, 'r, answer) go) s") (auto dest: endsD)
qed

text \<open>A world in which every Universe is empty.\<close>

definition empty_demo :: "demo services" where
  "empty_demo = demo_services\<lparr>svc_get_universe := (\<lambda>ns n w. (Inr zero_Universe, w))\<rparr>"

lemma empty_demo_ok: "clock_runs empty_demo" "status_keeps empty_demo"
proof -
  show "clock_runs empty_demo"
    using demo_clock_runs
    by (simp add: empty_demo_def clock_runs_def backoff_grows_def sleep_lasts_def select_fair_def kube_ticks_def
        custom_ticks_def cloud_ticks_def helm_ticks_def ticks_def)
  show "status_keeps empty_demo"
    using demo_keeps(1) by (simp add: empty_demo_def status_keeps_def)
qed

theorem clusterless_answers_witness:
  "(\<exists>a. outcome (Reconcile empty_demo ''apps'' ''shop-7'' :: (demo, unit, answer) go) (demo_state demo_world) = Next a) \<or>
    (\<exists>p \<in> {''nil service'', ''nil cluster'', ''nil MasterAuth''}.
      outcome (Reconcile empty_demo ''apps'' ''shop-7'' :: (demo, unit, answer) go) (demo_state demo_world) = Panic p)"
  by (rule clusterless_answers [OF empty_demo_ok])
    (simp add: empty_demo_def zero_Universe_def zero_UniverseSpec_def)

end
