(* ===== verification/ClusterAnswers.thy ===== *)
theory ClusterAnswers
  imports Answers
begin

text \<open>
  When the reconciliation of a Universe with clusters answers.

  The code reads through the clients of Google Cloud, and that which works in a cluster through the
  configuration, the clientset and the secret of its connection, whether they were made or not.
  \<open>clusters_reachable\<close> is what makes each of them there: then no reconciliation panics, whatever else
  fails; without it, six messages are possible.
  \<open>fine T V R\<close> is the judgement \<open>ends\<close> with what a program falls through with and returns.
\<close>

section \<open>Ending with a value\<close>

definition fine :: "string set \<Rightarrow> ('a \<Rightarrow> bool) \<Rightarrow> ('r \<Rightarrow> bool) \<Rightarrow> ('s, 'e, 'r, 'a) prog \<Rightarrow> bool" where
  "fine T V R m \<longleftrightarrow> ends T m \<and> sat (\<lambda>_. True) V R m"

lemma fine_ret: "V x \<Longrightarrow> fine T V R (ret x)" "R r \<Longrightarrow> fine T V R (return r)"
  by (simp_all add: fine_def ends_ret sat_ret sat_return)

lemma fine_bnd: "fine T U R m \<Longrightarrow> (\<And>x. U x \<Longrightarrow> fine T V R (f x)) \<Longrightarrow> fine T V R (bnd m f)"
  unfolding fine_def by (blast intro: ends_sat sat_bnd)

lemma fine_then: "fine T U (\<lambda>_. True) m \<Longrightarrow> (\<And>x. U x \<Longrightarrow> ends T (f x)) \<Longrightarrow> ends T (bnd m f)"
  unfolding fine_def by (blast intro: ends_sat)

lemma fine_scope: "fine T V V m \<Longrightarrow> fine T V R (scope m)"
  unfolding fine_def by (blast intro: ends_scope sat_scope)

lemma fine_ask: "(\<And>w. V (fst (f w))) \<Longrightarrow> fine T V R (ask f ev)"
  unfolding fine_def by (auto intro!: ends_ask sat_ask_value) (metis fst_conv)

text \<open>A poll whose probe answers true at once.\<close>

lemma fine_Wait:
  fixes f :: "'w probe"
  assumes f: "fine {} (\<lambda>x. x = Inr True) (\<lambda>x. x = Inr True) f"
  shows "fine {} (\<lambda>e. e = None) R (Wait S ctx f :: ('w, 'r, error option) go)"
proof -
  have probe: "\<exists>es s'. probe_run f s = (Next (Inr True), es, s')" for s
  proof -
    have "fine {} (\<lambda>x. x = Inr True) (\<lambda>_. False) (probe_run f)" unfolding probe_run_def by (rule fine_scope [OF f])
    then show ?thesis
      by (cases "probe_run f s"; cases "fst (probe_run f s)")
        (auto simp: fine_def ends_def sat_def run_defs dest: spec [of _ s])
  qed
  have "\<exists>es s'. (Wait S ctx f :: ('w, 'r, error option) go) s = (Next None, es, s')" for s
  proof -
    obtain es s' where "probe_run f s = (Next (Inr True), es, s')" using probe by blast
    then have "poll_turn S ctx (svc_backoff S) 0 IsNeverRetryable f 0 0 s = (Done None, es, s')"
      by (simp add: poll_turn_def Let_def)
    then have "poll_loop S ctx (svc_backoff S) 0 IsNeverRetryable f 0 0 [] s = Some (Next None, es, s')"
      by (subst poll_loop.simps) simp
    then show ?thesis by (simp add: Wait_def WaitWithBackoff_def WaitWithBackoffWithRetries_def)
  qed
  then have "outcome (Wait S ctx f :: ('w, 'r, error option) go) s = Next None" for s
    by (metis fst_conv outcome_def)
  then show ?thesis by (simp add: fine_def ends_def sat_def)
qed

section \<open>Reachable clusters\<close>

definition admin_kinds :: "kind set" where
  "admin_kinds = {KClusterRole, KClusterRoleBinding, KServiceAccount, KSecret}"

definition usable_cluster :: "gcp_object \<Rightarrow> bool" where
  "usable_cluster c = (Endpoint c \<noteq> [] \<and> GcpStatus c = ''RUNNING'' \<and>
     (case MasterAuthCa c of None \<Rightarrow> False | Some ca \<Rightarrow> base64_ok ca))"

definition clusters_reachable :: "'w services \<Rightarrow> bool" where
  "clusters_reachable S \<longleftrightarrow>
     (\<forall>w. \<exists>t. fst (svc_credentials S w) = Inr t) \<and> services_made S \<and>
     (\<forall>args w. \<exists>c. fst (svc_gcp S GcpCluster args w) = Inr (Some c) \<and> usable_cluster c) \<and>
     (\<forall>cfg. svc_new_for_config S cfg = None) \<and>
     (\<forall>h w. \<exists>x. fst (svc_get S (Remote h) KNamespace [] ''default'' w) = Inr x) \<and>
     (\<forall>h k ns n w. k \<in> admin_kinds \<longrightarrow> fst (svc_get S (Remote h) k ns n w) \<in> range Inr \<union> {Inl ENotFound}) \<and>
     (\<forall>h x w. rKind x \<in> admin_kinds \<longrightarrow> fst (svc_create S (Remote h) x w) \<in> range Inr)"

definition nil_reads :: "string set" where
  "nil_reads = connection_panics \<union> {''nil config'', ''nil clientset'', ''nil pointer dereference''}"

definition panics_of :: "'w services \<Rightarrow> string set" where
  "panics_of S = (if clusters_reachable S then {} else nil_reads)"

lemma service_safe_panics [simp]: "service_safe S (panics_of S)"
  by (simp add: service_safe_def panics_of_def nil_reads_def connection_panics_def clusters_reachable_def)

text \<open>What a connection answers, there when the clusters are reachable.\<close>

definition there :: "'w services \<Rightarrow> 'a option \<Rightarrow> bool" where
  "there S x = (clusters_reachable S \<longrightarrow> x \<noteq> None)"

section \<open>Connecting\<close>

lemma reachableD:
  assumes "clusters_reachable S"
  shows "fine {} (\<lambda>r. \<exists>t. r = Inr t) R (find_credentials S)"
    and "fine {} (\<lambda>e. e = None) R (new_service S a)"
    and "fine {} (\<lambda>r. \<exists>c. r = Inr (Some c) \<and> usable_cluster c) R (gcp_get S GcpCluster args)"
    and "fine {} (\<lambda>r. \<exists>x. r = Inr x) R (k_get S (Remote h) KNamespace [] ''default'')"
    and "k \<in> admin_kinds \<Longrightarrow> fine {} (\<lambda>r. r \<in> range Inr \<union> {Inl ENotFound}) R (k_get S (Remote h) k ns n)"
    and "rKind x \<in> admin_kinds \<Longrightarrow> fine {} (\<lambda>r. r \<in> range Inr) R (k_create S (Remote h) x)"
    and "NewForConfig S (Some cfg) = Some (Inr (Remote (Host cfg)))"
proof -
  note r = assms [unfolded clusters_reachable_def services_made_def]
  show "fine {} (\<lambda>r. \<exists>t. r = Inr t) R (find_credentials S)"
    and "fine {} (\<lambda>e. e = None) R (new_service S a)"
    and "fine {} (\<lambda>r. \<exists>c. r = Inr (Some c) \<and> usable_cluster c) R (gcp_get S GcpCluster args)"
    and "fine {} (\<lambda>r. \<exists>x. r = Inr x) R (k_get S (Remote h) KNamespace [] ''default'')"
    unfolding call_defs by (rule fine_ask, use r in blast)+
  show "k \<in> admin_kinds \<Longrightarrow> fine {} (\<lambda>r. r \<in> range Inr \<union> {Inl ENotFound}) R (k_get S (Remote h) k ns n)"
    and "rKind x \<in> admin_kinds \<Longrightarrow> fine {} (\<lambda>r. r \<in> range Inr) R (k_create S (Remote h) x)"
    unfolding call_defs by (rule fine_ask, use r in blast)+
  have "svc_new_for_config S cfg = None" using r by blast
  then show "NewForConfig S (Some cfg) = Some (Inr (Remote (Host cfg)))"
    by (simp add: NewForConfig_def client_of_def)
qed

lemma fine_gke_probe:
  assumes "clusters_reachable S"
  shows "fine {} (\<lambda>x. x = Inr True) (\<lambda>x. x = Inr True) (gke_probe S p c l)"
  unfolding gke_probe_def
  by (rule fine_bnd [OF reachableD(2) [OF assms]], simp, rule fine_bnd [OF reachableD(3) [OF assms]])
    (auto simp: usable_cluster_def intro: fine_ret)

lemma fine_now: "fine T (\<lambda>_. True) R (now S)"
  unfolding now_def by (simp add: fine_def ends_def sat_def run_defs)

lemma fine_try: "fine {} (\<lambda>e. e = None) R m \<Longrightarrow> fine {} V R k \<Longrightarrow> fine {} V R (try_do m f k)"
  unfolding try_do_def by (erule fine_bnd) simp

lemma fine_dryRun:
  assumes "clusters_reachable S"
  shows "fine {} (\<lambda>e. e = None) R (dryRun S (Remote h))"
proof -
  have "fine {} (\<lambda>x. x = Inr True) (\<lambda>x. x = Inr True) (dryRun_probe S (Remote h))"
    unfolding dryRun_probe_def by (rule fine_bnd [OF reachableD(4) [OF assms]]) (auto intro: fine_ret)
  then show ?thesis
    unfolding dryRun_def bnd_WithTimeout
    by (intro fine_bnd [OF fine_now] fine_bnd [OF fine_Wait]) (auto intro: fine_ret)
qed

lemma fine_connect:
  assumes "clusters_reachable S"
  shows "fine {} (\<lambda>(cfg, e). cfg \<noteq> None) R (GetGKEClientsetWithTimeout S p c l)"
  unfolding GetGKEClientsetWithTimeout_def GetGKEClientset_def bnd_WithTimeout
  by (rule fine_bnd [OF fine_now], rule fine_scope, rule fine_bnd [OF reachableD(1) [OF assms]], clarsimp,
      rule fine_bnd [OF fine_Wait [OF fine_gke_probe [OF assms]]], simp, rule fine_bnd [OF reachableD(2) [OF assms]], simp,
      rule fine_bnd [OF reachableD(3) [OF assms]])
    (auto simp: clientset_or_err_def reachableD(7) [OF assms] Let_def usable_cluster_def split: option.splits
      intro!: fine_bnd [OF fine_dryRun [OF assms]] fine_ret)

lemma fine_ensure:
  assumes "clusters_reachable S" and "rKind x \<in> admin_kinds"
  shows "fine {} (\<lambda>e. e = None) R (ensure S (Remote h) x)"
  unfolding ensure_def
  by (rule fine_bnd [OF reachableD(5) [OF assms]])
    (auto simp: IsNotFound_def intro!: fine_ret fine_bnd [OF reachableD(6) [OF assms]])

lemma fine_token:
  fixes S :: "'w services"
  assumes C: "clock_runs S" and r: "clusters_reachable S"
  shows "fine {} (\<lambda>(sec, e). sec \<noteq> None) R (CreateClusterAdminToken S (Some (Remote h)) ns n)"
proof -
  have "runs S (token_probe S t ns n)" for t unfolding token_probe_def by (intro runs_intros)
  moreover have "ends {} (token_probe S t ns n)" for t
    unfolding token_probe_def assign_def seq_def by (intro ends_intros) (auto simp: ends_def run_defs)
  ultimately have "ends {} (Wait S (Some dl) (token_probe S t ns n) :: ('w, resource option \<times> error option, error option) go)" for dl t
    by (rule ends_Wait [OF C])
  moreover have "sat (\<lambda>_. True) (\<lambda>_. True) R' (Wait S ctx f :: ('w, resource option \<times> error option, error option) go)" for R' ctx f
    unfolding Wait_def WaitWithBackoff_def by (rule sat_WaitWithBackoffWithRetries) (simp_all add: sat_def)
  ultimately have wait: "fine {} (\<lambda>_. True) R' (Wait S (Some dl) (token_probe S t ns n) :: ('w, resource option \<times> error option, error option) go)"
    for R' dl t by (simp add: fine_def)
  have vars: "fine {} (\<lambda>_. True) R' (assign x)" "fine {} (\<lambda>_. True) R' fetch" for R' x
    by (simp_all add: fine_def ends_def sat_def run_defs assign_def fetch_def)
  have "fine {} (\<lambda>(sec, e). sec \<noteq> None) (\<lambda>(sec, e). sec \<noteq> None)
      (bnd (now S) (\<lambda>dl. bnd (assign (zero_resource KSecret)) (\<lambda>_. bnd (Wait S (Some (dl + 20 * Minute)) (token_probe S (Remote h) ns n)) (\<lambda>_.
       bnd fetch (\<lambda>sec. return (Some sec, None))))) :: ('w, resource option \<times> error option, resource option \<times> error option) go)"
    by (intro fine_bnd [OF fine_now] fine_bnd [OF vars(1)] fine_bnd [OF wait] fine_bnd [OF vars(2)] fine_ret) simp
  then show ?thesis
    unfolding CreateClusterAdminToken_def through_Some bnd_WithTimeout seq_def
    by (intro fine_scope fine_try fine_ensure [OF r]) (simp_all add: admin_kinds_def object_defs zero_resource_def)
qed

section \<open>What is read through\<close>

text \<open>Either every cluster is reachable and everything is there, or each nil read is among the messages.\<close>

lemma fine_panics:
  assumes "clusters_reachable S \<Longrightarrow> fine {} V (\<lambda>_. True) m" and "ends nil_reads m"
  shows "fine (panics_of S) (\<lambda>x. clusters_reachable S \<longrightarrow> V x) (\<lambda>_. True) m"
  using assms by (cases "clusters_reachable S") (auto simp: panics_of_def fine_def sat_def)

lemma nil_read [ends_intros]:
  "ends nil_reads (panic ''nil config'')" "ends nil_reads (panic ''nil clientset'')"
  "ends nil_reads (panic ''nil pointer dereference'')"
  by (rule ends_panic, simp add: nil_reads_def)+

lemma ends_through [ends_intros]: "there S cs \<Longrightarrow> (\<And>t. cs = Some t \<Longrightarrow> ends (panics_of S) (f t)) \<Longrightarrow> ends (panics_of S) (through cs f)"
  by (cases cs) (auto simp: there_def panics_of_def intro: nil_read)

lemma ends_through_nil: "(\<And>t. ends nil_reads (f t)) \<Longrightarrow> ends nil_reads (through cs f)"
  by (cases cs) (auto intro: nil_read)

lemma ends_deref [ends_intros]: "there S p \<Longrightarrow> ends (panics_of S) (deref_or_panic p)"
  by (cases p) (auto simp: there_def panics_of_def deref_or_panic_def intro: nil_read ends_ret)

lemma ends_clients [ends_intros]:
  "there S cfg \<Longrightarrow> ends (panics_of S) (clientset_or_err (NewForConfig S cfg))"
  "there S cfg \<Longrightarrow> ends (panics_of S) (clientset_or_err (DynamicForConfig S cfg))"
  by (cases cfg; auto simp: there_def panics_of_def clientset_or_err_def NewForConfig_def DynamicForConfig_def
      client_of_def intro: nil_read ends_ret)+

lemma ends_process [ends_intros]:
  "ends T (setenv key v)" "ends T (getenv S key)" "ends T (cli_New S)" "ends T (assign x)" "ends T fetch"
  "ends T (write_file S path content)" "ends T (helm_init S cfg ns)" "ends T (helm_locate S cfg url)"
  "ends T (helm_load S path)" "ends T (helm_run S cfg ns rel ch vals)"
  unfolding call_defs
  by (rule ends_ask | simp add: ends_def run_defs setenv_def getenv_def cli_New_def assign_def fetch_def)+

lemma ends_try [ends_intros]: "ends T m \<Longrightarrow> ends T k \<Longrightarrow> ends T (try_do m f k)"
  unfolding try_do_def by (intro ends_intros)

lemma ends_ensure [ends_intros]: "ends T (ensure S t x)" "ends T (ensure_lenient S t x)"
  unfolding ensure_def ensure_lenient_def by (intro ends_intros)+

lemma ends_create_or_return [ends_intros]: "ends T k \<Longrightarrow> ends T (create_or_return S t x k)"
  unfolding create_or_return_def by (intro ends_intros)

lemma ends_helm [ends_intros]:
  "there S sec \<Longrightarrow> there S cfg \<Longrightarrow> ends (panics_of S) (helm_login S f sec cfg)"
  "(\<And>e. ends T (lf e)) \<Longrightarrow> ends T (helm_install S c n ns url vals lf)"
  unfolding helm_login_def login_front_def helm_install_def by (intro ends_intros; assumption)+

lemma ends_addons [ends_intros]:
  "there S cs \<Longrightarrow> there S sec \<Longrightarrow> there S cfg \<Longrightarrow> ends (panics_of S) (deployVelero S cs sec cfg)"
  "there S cs \<Longrightarrow> there S sec \<Longrightarrow> there S cfg \<Longrightarrow> ends (panics_of S) (deployNginxIngress S cs sec cfg)"
  "there S cs \<Longrightarrow> there S sec \<Longrightarrow> there S cfg \<Longrightarrow> ends (panics_of S) (deployExternalSecret S cs sec cfg)"
  "there S cs \<Longrightarrow> ends (panics_of S) (deployResourcePatcher S cs p tag sub)"
  "there S cs \<Longrightarrow> ends (panics_of S) (deployExternalDns S cs)"
  "there S cfg \<Longrightarrow> ends (panics_of S) (CreateAdminUser S cfg email)"
  unfolding deployVelero_def velero_chart_def deployNginxIngress_def deployExternalSecret_def deployResourcePatcher_def
    deployExternalDns_def CreateAdminUser_def
  by (intro ends_intros; assumption)+

section \<open>The connection and the set-up\<close>

lemma fine_gke:
  assumes C: "clock_runs S"
  shows "fine (panics_of S) (\<lambda>(cfg, e). there S cfg) (\<lambda>_. True) (GetGKEClientsetWithTimeout S p c l)"
proof -
  have "ends nil_reads (GetGKEClientsetWithTimeout S p c l)"
    by (rule ends_weaken [OF ends_gke [OF C]]) (auto simp: nil_reads_def)
  from fine_panics [OF fine_connect this] show ?thesis by (simp add: there_def case_prod_unfold)
qed

lemma fine_clientset:
  assumes "there S cfg"
  shows "fine (panics_of S) (\<lambda>cs. clusters_reachable S \<longrightarrow> (\<exists>h. cs = Some (Remote h))) (\<lambda>_. True) (new_clientset S cfg)"
proof (rule fine_panics)
  assume "clusters_reachable S"
  then show "fine {} (\<lambda>cs. \<exists>h. cs = Some (Remote h)) (\<lambda>_. True) (new_clientset S cfg)"
    using assms by (auto simp: there_def new_clientset_def reachableD(7) intro!: fine_ret)
qed (auto simp: new_clientset_def intro!: ends_intros split: option.split)

lemma fine_account:
  assumes C: "clock_runs S" and cs: "clusters_reachable S \<longrightarrow> (\<exists>h. cs = Some (Remote h))"
  shows "fine (panics_of S) (\<lambda>(sec, e). there S sec) (\<lambda>_. True) (CreateClusterAdminToken S cs ns n)"
proof -
  have "runs S (token_probe S t ns n)" for t unfolding token_probe_def by (intro runs_intros)
  moreover have "ends T (token_probe S t ns n)" for T t unfolding token_probe_def by (intro ends_intros)
  ultimately have wait: "ends T (Wait S (Some dl) (token_probe S t ns n))" for T dl t by (rule ends_Wait [OF C])
  have "ends nil_reads (CreateClusterAdminToken S cs ns n)"
    unfolding CreateClusterAdminToken_def bnd_WithTimeout by (intro ends_scope ends_through_nil ends_intros wait)
  moreover have "clusters_reachable S \<Longrightarrow> fine {} (\<lambda>(sec, e). sec \<noteq> None) (\<lambda>_. True) (CreateClusterAdminToken S cs ns n)"
    using cs fine_token [OF C] by auto
  ultimately show ?thesis using fine_panics [of S] by (fastforce simp: there_def case_prod_unfold)
qed

lemma fine_prepare:
  assumes C: "clock_runs S"
  shows "fine (panics_of S) (\<lambda>(cfg, cs, sec). there S cfg \<and> there S cs \<and> there S sec) (\<lambda>_. True) (prepareCluster S p c)"
  unfolding prepareCluster_def
proof (rule fine_bnd [OF fine_gke [OF C]], clarify, rule fine_bnd [OF fine_clientset], assumption,
    rule fine_bnd [OF fine_account [OF C]], assumption, clarify)
  fix cfg :: "rest_config option" and cs and sec :: "resource option"
  assume there: "there S cfg" "clusters_reachable S \<longrightarrow> (\<exists>h. cs = Some (Remote h))" "there S sec"
  then have cs: "there S cs" by (auto simp: there_def)
  have "ends (panics_of S) (deployVelero S cs sec cfg)" using there(1,3) cs by (intro ends_intros)
  moreover have "sat (\<lambda>_. True) (\<lambda>_. True) (\<lambda>_. True) (deployVelero S cs sec cfg)" by (simp add: sat_def)
  ultimately have "fine (panics_of S) (\<lambda>_. True) (\<lambda>_. True) (deployVelero S cs sec cfg)" by (simp add: fine_def)
  then show "fine (panics_of S) (\<lambda>(cfg, cs, sec). there S cfg \<and> there S cs \<and> there S sec) (\<lambda>_. True)
      (bnd (deployVelero S cs sec cfg) (\<lambda>_. ret (cfg, cs, sec)))"
    by (rule fine_bnd) (use there(1,3) cs in \<open>auto intro: fine_ret\<close>)
qed

lemma ends_setUp:
  assumes C: "clock_runs S"
  shows "ends (panics_of S) (setUpCluster S u c)"
  unfolding setUpCluster_def when_addon_def annotatePreviewService_def
  by (rule fine_then [OF fine_prepare [OF C]], rule fine_then [OF fine_prepare [OF C]], clarify, intro ends_intros)

section \<open>The whole reconciliation\<close>

lemma ends_clusters_section:
  assumes C: "clock_runs S"
  shows "ends (panics_of S) (reconcileContainerClusters S u)"
  unfolding reconcileContainerClusters_def syncContainerClusters_def Let_def wait_defs status_probe_def waitFor_def bnd_WithTimeout
  by (intro ends_intros ends_setUp [OF C] ends_Wait [OF C] runs_intros service_safe_panics)

lemma ends_restore:
  assumes C: "clock_runs S" and src: "there S src"
  shows "ends (panics_of S) (restoreCluster S u src cluster)"
proof -
  have probes: "runs S (backup_probe S cfg b)" "runs S (restore_probe S cfg b)" for cfg b
    unfolding backup_probe_def restore_probe_def clientset_or_err_def by (intro runs_intros)+
  have rules: "ends (panics_of S) (patch_rules S t ns suffix ing front rules)" for t ns suffix ing front rules
    by (induction rules arbitrary: front) (auto simp: Let_def intro!: ends_intros)
  have ends_probes: "there S cfg \<Longrightarrow> ends (panics_of S) (backup_probe S cfg b)"
    "there S cfg \<Longrightarrow> ends (panics_of S) (restore_probe S cfg b)" for cfg b
    unfolding backup_probe_def restore_probe_def by (intro ends_intros; assumption)+
  have calls: "there S cfg \<Longrightarrow> ends (panics_of S) (createBackUp S cfg nss b)"
    "there S cfg \<Longrightarrow> ends (panics_of S) (createRestore S sec cfg b b')"
    "there S cfg \<Longrightarrow> ends (panics_of S) (waitForBackUp S cfg b)"
    "there S cfg \<Longrightarrow> ends (panics_of S) (waitForRestore S cfg b)"
    "there S cfg \<Longrightarrow> ends (panics_of S) (ingressPatch S cfg b ns)" for cfg nss b b' sec ns
    unfolding createBackUp_def createRestore_def waitForBackUp_def waitForRestore_def ingressPatch_def
      waitFor_def bnd_WithTimeout
    by (intro ends_intros ends_Wait [OF C] probes rules ends_probes; assumption)+
  show ?thesis
    unfolding restoreCluster_def
    by (rule ends_bnd [OF ends_calls(1)], rule ends_case_sum, rule ends_ret, rule fine_then [OF fine_gke [OF C]], clarify,
        rule fine_then [OF fine_clientset], assumption, rule fine_then [OF fine_account [OF C]], assumption, clarify)
      (intro ends_intros calls src; assumption)
qed

lemma ends_finish_all:
  assumes C: "clock_runs S"
  shows "ends (panics_of S) (finishReconcile S u)"
  unfolding finishReconcile_def restorePreviews_def handleDeletion_def finalizeUniverse_def
    ensureFinalizer_def checkTTL_def recordGeneration_def
  by (intro ends_intros fine_then [OF fine_gke [OF C]]; clarify?; intro ends_intros ends_restore [OF C])

section \<open>Properties\<close>

text \<open>
  C5. The reconciliation of a Universe answers, or it read through the nil of a connection that was not
  made.  Where the clock runs no reconciliation hangs; when the clients of Google Cloud can be made and
  every cluster is there, reachable and lets the operator make its account, none panics either, whatever
  fails in the API server of the management cluster, in the requests for the status of the other resources, in
  Helm or in the Velero of the clusters; and of a panic at most six messages are possible.
\<close>

theorem reconcile_answers:
  assumes "clock_runs S"
  shows "(\<exists>a. outcome (Reconcile S ns n :: ('w, 'r, answer) go) s = Next a) \<or>
    (\<not> clusters_reachable S \<and> (\<exists>p \<in> {''nil service'', ''nil cluster'', ''nil MasterAuth'', ''nil config'', ''nil clientset'',
      ''nil pointer dereference''}. outcome (Reconcile S ns n :: ('w, 'r, answer) go) s = Panic p))"
proof -
  have "ends (panics_of S) (fetchUniverse S ns n)" unfolding fetchUniverse_def by (intro ends_intros)
  moreover have "ends (panics_of S) (reconcileResources S u)" for u
    unfolding reconcileResources_def
    by (rule ends_bnd [OF ends_sections(1) [OF assms service_safe_panics]], rule ends_bnd [OF ends_sections(2) [OF assms service_safe_panics]], rule ends_case_prod,
        rule ends_bnd [OF ends_sections(3) [OF assms service_safe_panics]], rule ends_bnd [OF ends_clusters_section [OF assms]])
      (intro ends_intros ends_sections [OF assms service_safe_panics])
  ultimately have run: "ends (panics_of S) (Reconcile S ns n :: ('w, 'r, answer) go)"
    unfolding Reconcile_def by (intro ends_scope ends_bnd ends_finish_all [OF assms])
  have "outcome (Reconcile S ns n :: ('w, 'r, answer) go) s \<noteq> Hang" by (rule endsD(1) [OF run])
  moreover have "outcome (Reconcile S ns n :: ('w, 'r, answer) go) s = Panic p \<Longrightarrow>
      \<not> clusters_reachable S \<and> p \<in> nil_reads" for p
    using endsD(2) [OF run, of s p] unfolding panics_of_def by (simp split: if_splits)
  moreover have "outcome (Reconcile S ns n :: ('w, 'r, answer) go) s \<noteq> Return r" for r
    by (simp add: Reconcile_def scope_no_return)
  ultimately show ?thesis
    by (cases "outcome (Reconcile S ns n :: ('w, 'r, answer) go) s")
      (auto simp: nil_reads_def connection_panics_def)
qed

text \<open>A world whose clusters are there.\<close>

definition reachable_demo :: "demo services" where
  "reachable_demo = demo_services\<lparr>
     svc_get := (\<lambda>t k ns n w. if t = Mgmt then svc_get demo_services t k ns n w else (Inr (zero_resource k), w)),
     svc_create := (\<lambda>t x w. (Inr x, w))\<rparr>"

lemma reachable_demo_ok: "clock_runs reachable_demo" "clusters_reachable reachable_demo"
proof -
  show "clock_runs reachable_demo"
    using demo_clock_runs
    by (simp add: reachable_demo_def clock_runs_def backoff_grows_def sleep_lasts_def select_fair_def
        kube_ticks_def custom_ticks_def cloud_ticks_def helm_ticks_def ticks_def)
  show "clusters_reachable reachable_demo"
    by (auto simp: clusters_reachable_def services_made_def reachable_demo_def demo_services_def usable_cluster_def
        demo_running_def base64_ok_def or_not_found_def split: option.splits)
qed

theorem reconcile_answers_witness:
  "\<exists>a. outcome (Reconcile reachable_demo ''apps'' ''shop-7'' :: (demo, unit, answer) go)
    (demo_state (demo_world\<lparr>dUniverses := [demo_universe]\<rparr>)) = Next a"
  using reconcile_answers [OF reachable_demo_ok(1)] reachable_demo_ok(2) by blast

end
