(* ===== verification/HelmRace.thy ===== *)
theory HelmRace
  imports Addons
begin

text \<open>
  The logins of concurrent reconciliations.

  \<open>SetupWithManager\<close> of \<^verbatim>\<open>controllers/universe_controller.go\<close> lets ten reconciliations run at once,
  and the environment variables a login goes through belong to the process.  The calls of two workers
  interleave; the schedule of this theory cuts a call of \<open>deployVelero\<close> in two, at the point between its
  last \<open>os.Setenv\<close> and its \<open>cli.New\<close>, and lets another worker's login come in between.  Both pieces are
  those \<open>deployVelero\<close> is made of.
\<close>

definition MaxConcurrentReconciles :: nat where
  "MaxConcurrentReconciles = 10"

text \<open>What is left of a call of \<open>deployVelero\<close> after its last \<open>os.Setenv\<close>.\<close>

definition velero_rest :: "'w services \<Rightarrow> clientset \<Rightarrow> ('w, error option, error option) go" where
  "velero_rest S clientset = bnd (cli_New S) (velero_chart S clientset)"

lemma deployVelero_cut:
  "deployVelero S cs sec cfg = scope (bnd (login_front S no_dots sec cfg) (\<lambda>_. velero_rest S cs))"
  by (simp add: deployVelero_def helm_login_def velero_rest_def bnd_assoc)

lemma login_front_env:
  assumes "(login_front S file_of (Some sec) (Some cfg) :: ('w, error option, unit) go) s = (Next (), es, s')"
    and "penv s3 = penv s'"
  shows "\<exists>host. svc_url_host S (Host cfg) = Inr host \<and> (cli_New S :: ('w, error option, helm_settings) go) s3 = (Next (login_settings file_of host sec cfg), [], s3)"
  using assms
  by (auto simp: login_front_def deref_or_panic_def Let_def try_do_def write_file_def ask_def bnd_def seq_def setenv_def
      cli_New_def env_get_def login_settings_def update_conv' split: prod.splits sum.splits option.splits)

text \<open>The chart, run when its namespace is missing: all of it with the settings it is given.\<close>

lemma velero_chart_run:
  fixes S :: "'w services"
  assumes "svc_get S t KNamespace [] ''velero'' (world s) = (Inl ENotFound, w)"
  obtains c1 c2 es where "events (velero_chart S (Some t) c) s =
      EvGet t KNamespace [] ''velero'' (Some ENotFound) # EvCreate t (namespace_obj ''velero'') c1 #
      EvHelmInit c ''velero'' c2 # es"
    and "outcome (velero_chart S (Some t) c) s = Return None \<Longrightarrow> EvHelmRun c ''velero'' ''velero'' (velero_vals S) None \<in> set es"
proof -
  have "\<exists>c1 c2 es. events (velero_chart S (Some t) c) s =
      EvGet t KNamespace [] ''velero'' (Some ENotFound) # EvCreate t (namespace_obj ''velero'') c1 #
      EvHelmInit c ''velero'' c2 # es \<and>
    (outcome (velero_chart S (Some t) c) s = Return None \<longrightarrow> EvHelmRun c ''velero'' ''velero'' (velero_vals S) None \<in> set es)"
    using assms
    by (auto simp: velero_chart_def k_get_def k_create_def helm_install_def helm_init_def helm_locate_def helm_load_def
        helm_run_def try_do_def seq_def ask_def bnd_def run_defs split: prod.split option.split sum.split)
  then show thesis using that by blast
qed


definition other_secret :: resource where
  "other_secret = demo_secret\<lparr>rData := [(''token'', ''other''), (''ca.crt'', ''pem'')]\<rparr>"


end
