(* ===== verification/ProcessEntry.thy ===== *)
theory ProcessEntry
  imports HelmRace
begin

text \<open>
  \<^verbatim>\<open>main.go\<close> and the two \<open>SetupWithManager\<close>: the process from its arguments to the manager's loop.

  controller-runtime is a parameter: \<open>mgr_do\<close> answers each of the calls the process makes, in order,
  with nil or an error.  \<open>flag.Parse\<close> is Go's: flags with one or two dashes, the value after \<open>=\<close> or in
  the next argument, up to the first argument that is none or \<open>--\<close>; the flags zap adds are a parameter.
  The value of the program is the exit code; \<open>utilruntime.Must\<close> panics.
\<close>

section \<open>Flags\<close>

record flags =
  metricsAddr :: string
  probeAddr :: string
  enableLeaderElection :: bool

definition default_flags :: flags where
  "default_flags = \<lparr> metricsAddr = '':8080'', probeAddr = '':8081'', enableLeaderElection = False \<rparr>"

datatype parsed = Parsed flags | HelpAsked | BadFlags

text \<open>\<open>strconv.ParseBool\<close>\<close>

definition parse_bool :: "string \<Rightarrow> bool option" where
  "parse_bool v = (if v \<in> set [''1'', ''t'', ''T'', ''TRUE'', ''true'', ''True''] then Some True
     else if v \<in> set [''0'', ''f'', ''F'', ''FALSE'', ''false'', ''False''] then Some False else None)"

text \<open>
  A flag that is defined: whether it can stand without a value, and how its value is taken.  \<open>lib\<close> tells
  the same of the flags of the library, whose values are not read here.
\<close>

definition flag_def :: "(string \<Rightarrow> (bool \<times> (string \<Rightarrow> bool)) option) \<Rightarrow> string \<Rightarrow>
    (bool \<times> (string \<Rightarrow> flags \<Rightarrow> flags option)) option" where
  "flag_def lib name =
     (if name = ''metrics-bind-address'' then Some (False, \<lambda>v f. Some (f\<lparr>metricsAddr := v\<rparr>))
      else if name = ''health-probe-bind-address'' then Some (False, \<lambda>v f. Some (f\<lparr>probeAddr := v\<rparr>))
      else if name = ''leader-elect'' then
        Some (True, \<lambda>v f. map_option (\<lambda>b. f\<lparr>enableLeaderElection := b\<rparr>) (parse_bool v))
      else map_option (\<lambda>(b, ok). (b, \<lambda>v f. if ok v then Some f else None)) (lib name))"

text \<open>The text after the dashes, at its first \<open>=\<close>.\<close>

definition name_value :: "string \<Rightarrow> string \<times> string option" where
  "name_value s = (let n = takeWhile (\<lambda>c. c \<noteq> CHR ''='') s in
     (n, if n = s then None else Some (drop (Suc (length n)) s)))"

definition undash :: "string \<Rightarrow> string option" where
  "undash a = (if length a < 2 \<or> hd a \<noteq> CHR ''-'' then None
     else if hd (tl a) = CHR ''-'' then Some (drop 2 a) else Some (tl a))"

fun parse_flags :: "(string \<Rightarrow> (bool \<times> (string \<Rightarrow> bool)) option) \<Rightarrow> string list \<Rightarrow> flags \<Rightarrow> parsed" where
  "parse_flags lib [] f = Parsed f"
| "parse_flags lib (a # as) f = (case undash a of
       None \<Rightarrow> Parsed f
     | Some s \<Rightarrow>
         if s = [] then Parsed f
         else if hd s = CHR ''-'' \<or> hd s = CHR ''='' then BadFlags
         else (case name_value s of (n, v) \<Rightarrow>
           (case flag_def lib n of
              None \<Rightarrow> (if n = ''help'' \<or> n = ''h'' then HelpAsked else BadFlags)
            | Some (is_bool, setter) \<Rightarrow>
                (case v of
                   Some x \<Rightarrow> (case setter x f of Some f' \<Rightarrow> parse_flags lib as f' | None \<Rightarrow> BadFlags)
                 | None \<Rightarrow>
                     if is_bool then (case setter ''true'' f of Some f' \<Rightarrow> parse_flags lib as f' | None \<Rightarrow> BadFlags)
                     else (case as of
                         [] \<Rightarrow> BadFlags
                       | x # as' \<Rightarrow> (case setter x f of Some f' \<Rightarrow> parse_flags lib as' f' | None \<Rightarrow> BadFlags))))))"

section \<open>The process\<close>

record manager_options =
  MetricsBindAddress :: string
  Port :: int
  HealthProbeBindAddress :: string
  LeaderElection :: bool
  LeaderElectionID :: string

datatype boot_step =
    AddToScheme string
  | GetConfig
  | NewManager manager_options
  | SetupController string "nat option"
  | AddHealthzCheck string
  | AddReadyzCheck string
  | StartManager

record 'w boot =
  mgr_do :: "boot_step \<Rightarrow> 'w \<Rightarrow> error option \<times> 'w"
  mgr_flags :: "string \<Rightarrow> (bool \<times> (string \<Rightarrow> bool)) option"

type_synonym ('w, 'r, 'a) booting = "('w, boot_step \<times> error option, 'r, 'a) prog"

definition exec :: "'w boot \<Rightarrow> boot_step \<Rightarrow> ('w, 'r, error option) booting" where
  "exec M b = (\<lambda>w. case mgr_do M b w of (e, w') \<Rightarrow> (Next e, [(b, e)], w'))"

text \<open>\<open>init\<close>, in the order of the code; the names are those of the imports.\<close>

definition schemes :: "string list" where
  "schemes = [''clientgoscheme'', ''kccComputev1beta1'', ''kccContainerv1beta1'', ''kccStoragev1beta1'',
     ''kccStorageTransferv1beta1'', ''kccBigQueryv1beta1'', ''kccBigTablev1beta1'', ''kccDataflowv1beta1'',
     ''kccSQLv1beta1'', ''kccIAMv1beta1'', ''velerov1'', ''multiversev1alpha1'']"

definition process_init :: "'w boot \<Rightarrow> ('w, 'r, unit) booting" where
  "process_init M = foreach (\<lambda>n _. bnd (exec M (AddToScheme n)) (\<lambda>err. case err of
     Some e \<Rightarrow> panic ''utilruntime.Must'' | None \<Rightarrow> ret ())) schemes ()"

text \<open>\<open>SetupWithManager\<close> of the two reconcilers; without the option the library runs one reconciliation at a time.\<close>

definition SetupUniverse :: boot_step where
  "SetupUniverse = SetupController ''Universe'' (Some MaxConcurrentReconciles)"

definition SetupTrigger :: boot_step where
  "SetupTrigger = SetupController ''Trigger'' None"

definition options_of :: "flags \<Rightarrow> manager_options" where
  "options_of f = \<lparr> MetricsBindAddress = metricsAddr f, Port = 9443, HealthProbeBindAddress = probeAddr f,
     LeaderElection = enableLeaderElection f, LeaderElectionID = ''004631b0.saga.dev'' \<rparr>"

text \<open>\<open>if err != nil { os.Exit(1) }\<close>; \<open>GetConfigOrDie\<close> does the same.\<close>

definition or_exit :: "('w, nat, error option) booting \<Rightarrow> ('w, nat, 'a) booting \<Rightarrow> ('w, nat, 'a) booting" where
  "or_exit m k = bnd m (\<lambda>err. case err of Some e \<Rightarrow> return 1 | None \<Rightarrow> k)"

definition process_main :: "'w boot \<Rightarrow> string list \<Rightarrow> ('w, nat, nat) booting" where
  "process_main M args = (case parse_flags (mgr_flags M) args default_flags of
       BadFlags \<Rightarrow> return 2
     | HelpAsked \<Rightarrow> return 0
     | Parsed f \<Rightarrow>
         or_exit (exec M GetConfig) (
         or_exit (exec M (NewManager (options_of f))) (
         or_exit (exec M SetupUniverse) (
         or_exit (exec M SetupTrigger) (
         or_exit (exec M (AddHealthzCheck ''healthz'')) (
         or_exit (exec M (AddReadyzCheck ''readyz'')) (
         or_exit (exec M StartManager) (
         ret 0))))))))"

definition process :: "'w boot \<Rightarrow> string list \<Rightarrow> ('w, nat, nat) booting" where
  "process M args = scope (seq (process_init M) (process_main M args))"

section \<open>Lemmas\<close>

definition succeeded :: "boot_step list \<Rightarrow> (boot_step \<times> error option) list" where
  "succeeded = map (\<lambda>b. (b, None))"

definition setup_steps :: "flags \<Rightarrow> boot_step list" where
  "setup_steps f = map AddToScheme schemes @ [GetConfig, NewManager (options_of f), SetupUniverse, SetupTrigger,
     AddHealthzCheck ''healthz'', AddReadyzCheck ''readyz'']"

lemma or_exit_run:
  "events (or_exit (exec M b) k) w = (case mgr_do M b w of
     (Some e, w') \<Rightarrow> [(b, Some e)] | (None, w') \<Rightarrow> (b, None) # events k w')"
  "outcome (or_exit (exec M b) k) w = (case mgr_do M b w of
     (Some e, w') \<Rightarrow> Return 1 | (None, w') \<Rightarrow> outcome k w')"
  by (auto simp: or_exit_def exec_def run_defs bnd_def split: prod.split option.split)

lemma outcome_scope: "outcome (scope m) s = (case outcome m s of
    Next x \<Rightarrow> Next x | Return x \<Rightarrow> Next x | Panic p \<Rightarrow> Panic p | Hang \<Rightarrow> Hang)"
  by (auto simp: outcome_def scope_def split: prod.split flow.split)

lemma runs_simply: "outcome (ret x) s = Next x" "events (ret x) s = []" "outcome (return r) s = Return r" "events (return r) s = []"
  by (simp_all add: run_defs)

lemma init_loop:
  "(\<exists>w'. (foreach (\<lambda>n _. bnd (exec M (AddToScheme n)) (\<lambda>err. case err of
      Some e \<Rightarrow> panic ''utilruntime.Must'' | None \<Rightarrow> ret ())) ns () :: ('w, 'r, unit) booting) w =
      (Next (), succeeded (map AddToScheme ns), w')) \<or>
   (\<exists>es w'. (foreach (\<lambda>n _. bnd (exec M (AddToScheme n)) (\<lambda>err. case err of
      Some e \<Rightarrow> panic ''utilruntime.Must'' | None \<Rightarrow> ret ())) ns () :: ('w, 'r, unit) booting) w =
      (Panic ''utilruntime.Must'', es, w') \<and> fst ` set es \<subseteq> range AddToScheme)"
proof (induction ns arbitrary: w)
  case Nil
  show ?case by (simp add: succeeded_def)
next
  case (Cons n ns)
  obtain e w1 where do: "mgr_do M (AddToScheme n) w = (e, w1)" by (cases "mgr_do M (AddToScheme n) w")
  show ?case
  proof (cases e)
    case None
    from Cons.IH [of w1] show ?thesis
      using do None by (auto simp: bnd_def exec_def succeeded_def)
  next
    case (Some x)
    then show ?thesis using do by (auto simp: bnd_def exec_def)
  qed
qed

section \<open>Properties\<close>

text \<open>
  C34. The manager is started last, and once: when the process starts it, every scheme has been
  registered, the configuration found, the manager made with the addresses and the election of the
  flags, both controllers and both checks set up, all without an error and in this order; nothing
  follows, and the exit code is 0 exactly when the manager stopped without an error.
\<close>

theorem manager_started_last:
  assumes "(StartManager, e) \<in> set (events (process M args) w)"
  shows "\<exists>f. parse_flags (mgr_flags M) args default_flags = Parsed f \<and>
    events (process M args) w = succeeded (setup_steps f) @ [(StartManager, e)] \<and>
    outcome (process M args :: ('w, nat, nat) booting) w = Next (if e = None then 0 else 1)"
proof -
  from init_loop [of M schemes w, where ?'r = nat] show ?thesis
  proof (elim disjE exE conjE)
    fix w'
    assume init: "(foreach (\<lambda>n _. bnd (exec M (AddToScheme n)) (\<lambda>err. case err of
        Some e \<Rightarrow> panic ''utilruntime.Must'' | None \<Rightarrow> ret ())) schemes () :: ('w, nat, unit) booting) w =
        (Next (), succeeded (map AddToScheme schemes), w')"
    then have ev: "events (process M args) w = succeeded (map AddToScheme schemes) @ events (process_main M args) w'"
      and out: "outcome (process M args :: ('w, nat, nat) booting) w = outcome (scope (process_main M args)) w'"
      unfolding process_def process_init_def seq_def
      by (simp_all add: events_scope) (auto simp: run_defs bnd_def scope_def split: prod.splits flow.splits)
    have "(StartManager, e) \<in> set (events (process_main M args) w')"
      using assms unfolding ev by (auto simp: succeeded_def)
    then show ?thesis
      unfolding ev out
      by (auto simp: process_main_def or_exit_run setup_steps_def succeeded_def SetupUniverse_def SetupTrigger_def
          runs_simply outcome_scope split: parsed.splits prod.splits option.splits)
  next
    fix es w'
    assume "(foreach (\<lambda>n _. bnd (exec M (AddToScheme n)) (\<lambda>err. case err of
        Some e \<Rightarrow> panic ''utilruntime.Must'' | None \<Rightarrow> ret ())) schemes () :: ('w, nat, unit) booting) w =
        (Panic ''utilruntime.Must'', es, w')" and es: "fst ` set es \<subseteq> range AddToScheme"
    then have "events (process M args) w = es"
      unfolding process_def process_init_def seq_def by (simp add: events_scope) (simp add: run_defs bnd_def)
    with assms have "StartManager \<in> fst ` set es" by force
    with es show ?thesis by auto
  qed
qed

definition demo_boot :: "unit boot" where
  "demo_boot = \<lparr> mgr_do = (\<lambda>b w. (None, w)), mgr_flags = (\<lambda>n. None) \<rparr>"

theorem manager_started_last_witness:
  "\<exists>f. parse_flags (mgr_flags demo_boot) [''--leader-elect'', ''-metrics-bind-address'', '':9090''] default_flags = Parsed f \<and>
    enableLeaderElection f \<and> metricsAddr f = '':9090'' \<and>
    outcome (process demo_boot [''--leader-elect'', ''-metrics-bind-address'', '':9090'']) () = Next 0"
proof -
  let ?args = "[''--leader-elect'', ''-metrics-bind-address'', '':9090'']"
  have "(StartManager, None) \<in> set (events (process demo_boot ?args) ())" by code_simp
  from manager_started_last [OF this] obtain f where
    f: "parse_flags (mgr_flags demo_boot) ?args default_flags = Parsed f"
    and out: "outcome (process demo_boot ?args) () = Next 0" by auto
  have "parse_flags (mgr_flags demo_boot) ?args default_flags =
      Parsed (default_flags\<lparr>enableLeaderElection := True, metricsAddr := '':9090''\<rparr>)" by code_simp
  with f out show ?thesis by auto
qed

end
