(* ===== verification/Registration.thy ===== *)
theory Registration
  imports ProcessEntry
begin

text \<open>
  The registration of the API types, \<^verbatim>\<open>api/v1alpha1/groupversion_info.go\<close> and the \<open>init\<close> functions of
  \<^verbatim>\<open>universe_types.go\<close> and \<^verbatim>\<open>trigger_types.go\<close>, and the two clients \<^verbatim>\<open>pkg/git\<close> and \<^verbatim>\<open>pkg/github\<close>.

  The builder of a scheme is one of controller-runtime: \<open>'b\<close> is its state, \<open>'s\<close> a scheme.  The variables of a package are
  initialised before its \<open>init\<close> functions run, and these in the order of the names of their files.
  \<open>AddToScheme = SchemeBuilder.AddToScheme\<close> is a method of the pointer \<open>SchemeBuilder\<close>, so that a call of it
  finds what was registered after the variable was set.
\<close>

section \<open>The group and its types\<close>

record group_version =
  Group :: string
  Version :: string

definition GroupVersion :: group_version where
  "GroupVersion = \<lparr> Group = ''multiverse.saga.dev'', Version = ''v1alpha1'' \<rparr>"

record ('b, 's) scheme_lib =
  new_builder :: "group_version \<Rightarrow> 'b"
  builder_register :: "string list \<Rightarrow> 'b \<Rightarrow> 'b"
  builder_add :: "'b \<Rightarrow> 's \<Rightarrow> error option \<times> 's"
  recognizes :: "'s \<Rightarrow> group_version \<Rightarrow> string \<Rightarrow> bool"

definition SchemeBuilder :: "('b, 's) scheme_lib \<Rightarrow> 'b" where
  "SchemeBuilder L = new_builder L GroupVersion"

definition trigger_types_init :: "('b, 's) scheme_lib \<Rightarrow> 'b \<Rightarrow> 'b" where
  "trigger_types_init L b = builder_register L [''Trigger'', ''TriggerList''] b"

definition universe_types_init :: "('b, 's) scheme_lib \<Rightarrow> 'b \<Rightarrow> 'b" where
  "universe_types_init L b = builder_register L [''Universe'', ''UniverseList''] b"

definition package_init :: "('b, 's) scheme_lib \<Rightarrow> 'b" where
  "package_init L = universe_types_init L (trigger_types_init L (SchemeBuilder L))"

definition AddToScheme_v1alpha1 :: "('b, 's) scheme_lib \<Rightarrow> 's \<Rightarrow> error option \<times> 's" where
  "AddToScheme_v1alpha1 L s = builder_add L (package_init L) s"

text \<open>
  What controller-runtime documents of the builder: \<open>Register\<close> adds objects, \<open>AddToScheme\<close> adds all the
  registered ones, under the builder's group, to the scheme, whose other types stay.
\<close>

definition adds_registered :: "('b, 's) scheme_lib \<Rightarrow> bool" where
  "adds_registered L \<longleftrightarrow> (\<forall>gv oss s s'. builder_add L (fold (builder_register L) oss (new_builder L gv)) s = (None, s') \<longrightarrow>
     (\<forall>g k. recognizes L s' g k \<longleftrightarrow> recognizes L s g k \<or> (g = gv \<and> k \<in> set (concat oss))))"

text \<open>
  Once the package is added to a scheme, the scheme knows the four types of the group, their lists
  included, and of other types just those it knew before.
\<close>

theorem scheme_knows_types:
  assumes "adds_registered L" and "AddToScheme_v1alpha1 L s = (None, s')"
  shows "recognizes L s' g k \<longleftrightarrow> recognizes L s g k \<or>
    (g = GroupVersion \<and> k \<in> {''Trigger'', ''TriggerList'', ''Universe'', ''UniverseList''})"
proof -
  have "package_init L = fold (builder_register L) [[''Trigger'', ''TriggerList''], [''Universe'', ''UniverseList'']] (new_builder L GroupVersion)"
    by (simp add: package_init_def universe_types_init_def trigger_types_init_def SchemeBuilder_def)
  with assms show ?thesis
    unfolding adds_registered_def AddToScheme_v1alpha1_def by (auto simp del: fold.simps)
qed

definition demo_scheme :: "(group_version \<times> string list, (group_version \<times> string) list) scheme_lib" where
  "demo_scheme = \<lparr> new_builder = (\<lambda>gv. (gv, [])), builder_register = (\<lambda>os b. (fst b, snd b @ os)),
     builder_add = (\<lambda>b s. (None, map (Pair (fst b)) (snd b) @ s)), recognizes = (\<lambda>s g k. (g, k) \<in> set s) \<rparr>"

lemma demo_scheme_adds: "adds_registered demo_scheme"
proof -
  have "fold (\<lambda>os b. (fst b, snd b @ os)) oss (gv, ks) = (gv, ks @ concat oss)" for oss :: "string list list" and gv :: group_version and ks
    by (induction oss arbitrary: ks) auto
  then show ?thesis by (auto simp: adds_registered_def demo_scheme_def)
qed

theorem scheme_knows_types_witness:
  "recognizes demo_scheme (snd (AddToScheme_v1alpha1 demo_scheme [])) GroupVersion ''Trigger''"
proof -
  have "AddToScheme_v1alpha1 demo_scheme [] = (None, snd (AddToScheme_v1alpha1 demo_scheme []))"
    by (simp add: AddToScheme_v1alpha1_def demo_scheme_def)
  from scheme_knows_types [OF demo_scheme_adds this] show ?thesis by simp
qed

section \<open>The git and the GitHub client\<close>

text \<open>The fields of \<open>git.CloneOptions\<close> the code sets; what is printed as progress is not modelled.\<close>

record clone_options =
  Username :: string
  Password :: string
  URL :: string

record ('w, 'k, 't, 'h, 'c) client_libs =
  PlainClone :: "string \<Rightarrow> bool \<Rightarrow> clone_options \<Rightarrow> 'w \<Rightarrow> (error + 'k) \<times> 'w"
  StaticTokenSource :: "string \<Rightarrow> 't"
  oauth2_NewClient :: "'t \<Rightarrow> 'h"
  github_NewClient :: "'h \<Rightarrow> 'c"

definition Clone :: "('w, 'k, 't, 'h, 'c) client_libs \<Rightarrow> string \<Rightarrow> string \<Rightarrow> string \<Rightarrow> string \<Rightarrow> string \<Rightarrow> 'w \<Rightarrow> error option \<times> 'w" where
  "Clone L wd gitCommitHash username token url w =
     (case PlainClone L wd False \<lparr> Username = username, Password = token, URL = url \<rparr> w of
        (Inl err, w') \<Rightarrow> (Some err, w')
      | (Inr repository, w') \<Rightarrow> (None, w'))"

definition NewClient :: "('w, 'k, 't, 'h, 'c) client_libs \<Rightarrow> string \<Rightarrow> 'c" where
  "NewClient L token = github_NewClient L (oauth2_NewClient L (StaticTokenSource L token))"

text \<open>
  The commit a clone is asked for has no effect: the repository is left at the head of its default branch
  whatever the hash, one that does not exist included.
\<close>

theorem clone_ignores_commit:
  "Clone L wd c1 username token url w = Clone L wd c2 username token url w"
  by (simp add: Clone_def)

end
