(* ===== verification/GoHeap.thy ===== *)
theory GoHeap
  imports "HOL-Library.State_Monad" "HOL-Library.AList"
begin

text \<open>
  Memory with references, and what it means to copy a value deeply.

  A slice, a map or a pointer is nil or the address of a cell; the type \<open>'c\<close> of the cells is left to
  the theories that use this one.  A struct is a value that holds addresses.  Of a type of values two
  functions are given: \<open>reach h x\<close>, the addresses \<open>x\<close> leads to in \<open>h\<close>, in order and once per path, and
  \<open>tree h x\<close>, what is found there, which is what \<open>reflect.DeepEqual\<close> compares.

  \<open>deep\<close> is the contract of a deep copy: it leaves the memory as it was, the copy reads the same, all
  of it lies in memory allocated for it and no part of it is shared with another part.  The rules at
  the end establish it for pointers, slices, maps and structs, following the program text.
\<close>

section \<open>Memory\<close>

type_synonym addr = nat
type_synonym ref = "addr option"

record 'c heap =
  cells :: "addr \<Rightarrow> 'c"
  next_addr :: addr

definition allocate :: "'c \<Rightarrow> ('c heap, addr) state" where
  "allocate c = State (\<lambda>h. (next_addr h, h\<lparr>cells := (cells h)(next_addr h := c), next_addr := Suc (next_addr h)\<rparr>))"

definition load :: "addr \<Rightarrow> ('c heap, 'c) state" where
  "load a = State (\<lambda>h. (cells h a, h))"

definition store_at :: "addr \<Rightarrow> 'c \<Rightarrow> ('c heap, unit) state" where
  "store_at a c = State (\<lambda>h. ((), h\<lparr>cells := (cells h)(a := c)\<rparr>))"

lemma run_memory [simp]:
  "run_state (allocate c) h = (next_addr h, h\<lparr>cells := (cells h)(next_addr h := c), next_addr := Suc (next_addr h)\<rparr>)"
  "run_state (load a) h = (cells h a, h)"
  "run_state (store_at a c) h = ((), h\<lparr>cells := (cells h)(a := c)\<rparr>)"
  by (simp_all add: allocate_def load_def store_at_def)

definition allocated :: "'c heap \<Rightarrow> addr list \<Rightarrow> bool" where
  "allocated h as \<longleftrightarrow> list_all (\<lambda>a. a < next_addr h) as"

text \<open>\<open>h'\<close> has all that \<open>h\<close> has, unchanged.\<close>

definition extends :: "'c heap \<Rightarrow> 'c heap \<Rightarrow> bool" where
  "extends h h' \<longleftrightarrow> next_addr h \<le> next_addr h' \<and> (\<forall>a < next_addr h. cells h' a = cells h a)"

text \<open>The cells \<open>as\<close>, all different, were allocated between \<open>h\<close> and \<open>h'\<close>.\<close>

definition made :: "'c heap \<Rightarrow> 'c heap \<Rightarrow> addr list \<Rightarrow> bool" where
  "made h h' as \<longleftrightarrow> distinct as \<and> list_all (\<lambda>a. next_addr h \<le> a \<and> a < next_addr h') as"

definition agree :: "addr list \<Rightarrow> 'c heap \<Rightarrow> 'c heap \<Rightarrow> bool" where
  "agree as h h' \<longleftrightarrow> list_all (\<lambda>a. cells h' a = cells h a) as"

lemma extends_refl [simp]: "extends h h"
  by (simp add: extends_def)

lemma extends_trans: "extends h h' \<Longrightarrow> extends h' h'' \<Longrightarrow> extends h h''"
  by (auto simp: extends_def)

lemma extends_agree: "extends h h' \<Longrightarrow> allocated h as \<Longrightarrow> agree as h h'"
  by (auto simp: extends_def allocated_def agree_def list_all_iff)

lemma extends_allocated: "extends h h' \<Longrightarrow> allocated h as \<Longrightarrow> allocated h' as"
  by (auto simp: extends_def allocated_def list_all_iff)

lemma made_allocated: "made h h' as \<Longrightarrow> allocated h' as"
  by (auto simp: made_def allocated_def list_all_iff)

lemma made_Nil [simp]: "made h h' []"
  by (simp add: made_def)

lemma allocated_append [simp]:
  "allocated h [] " "allocated h (a # as) \<longleftrightarrow> a < next_addr h \<and> allocated h as"
  "allocated h (as @ bs) \<longleftrightarrow> allocated h as \<and> allocated h bs"
  by (auto simp: allocated_def)

lemma agree_append [simp]:
  "agree [] h h'" "agree (a # as) h h' \<longleftrightarrow> cells h' a = cells h a \<and> agree as h h'"
  "agree (as @ bs) h h' \<longleftrightarrow> agree as h h' \<and> agree bs h h'"
  by (auto simp: agree_def)

lemma allocated_concat [simp]: "allocated h (concat ass) \<longleftrightarrow> (\<forall>as \<in> set ass. allocated h as)"
  by (auto simp: allocated_def list_all_iff)

lemma agree_concat [simp]: "agree (concat ass) h h' \<longleftrightarrow> (\<forall>as \<in> set ass. agree as h h')"
  by (auto simp: agree_def list_all_iff)

lemma made_append:
  "next_addr h \<le> next_addr h' \<Longrightarrow> next_addr h' \<le> next_addr h'' \<Longrightarrow>
    made h h' as \<Longrightarrow> made h' h'' bs \<Longrightarrow> made h h'' (as @ bs)"
  by (fastforce simp: made_def list_all_iff)

lemma extends_next: "extends h h' \<Longrightarrow> next_addr h \<le> next_addr h'"
  by (simp add: extends_def)

section \<open>What a deep copy promises\<close>

datatype 'v tree =
    TNil
  | TStr string
  | TInt int
  | TList "'v tree list"
  | TMap "string \<Rightarrow> string option"
  | TStruct "'v tree list"
  | TForeign 'v

type_synonym ('c, 'a) reaching = "'c heap \<Rightarrow> 'a \<Rightarrow> addr list"
type_synonym ('c, 'a, 'v) reading = "'c heap \<Rightarrow> 'a \<Rightarrow> 'v tree"
type_synonym ('c, 'a) copying = "'a \<Rightarrow> ('c heap, 'a) state"

definition local_reading :: "('c, 'a) reaching \<Rightarrow> ('c, 'a, 'v) reading \<Rightarrow> bool" where
  "local_reading reach tree \<longleftrightarrow> (\<forall>h h' x. agree (reach h x) h h' \<longrightarrow> reach h' x = reach h x \<and> tree h' x = tree h x)"

definition deep :: "('c, 'a) reaching \<Rightarrow> ('c, 'a, 'v) reading \<Rightarrow> ('c, 'a) copying \<Rightarrow> bool" where
  "deep reach tree copy \<longleftrightarrow> local_reading reach tree \<and>
     (\<forall>h x. allocated h (reach h x) \<longrightarrow> (case run_state (copy x) h of (y, h') \<Rightarrow>
        extends h h' \<and> tree h' y = tree h x \<and> made h h' (reach h' y)))"

lemma localD: "local_reading reach tree \<Longrightarrow> agree (reach h x) h h' \<Longrightarrow> reach h' x = reach h x \<and> tree h' x = tree h x"
  unfolding local_reading_def by blast

lemma deep_local: "deep reach tree copy \<Longrightarrow> local_reading reach tree"
  by (simp add: deep_def)

lemma deepD:
  assumes "deep reach tree copy" and "allocated h (reach h x)" and "run_state (copy x) h = (y, h')"
  shows "extends h h'" and "tree h' y = tree h x" and "made h h' (reach h' y)"
  using assms unfolding deep_def by (metis (mono_tags, lifting) case_prod_conv)+

lemma local_extends:
  assumes "local_reading reach tree" and "extends h h'" and "allocated h (reach h x)"
  shows "reach h' x = reach h x" and "tree h' x = tree h x"
  using localD [OF assms(1) extends_agree [OF assms(2,3)]] by auto

section \<open>Slices\<close>

text \<open>\<open>at\<close> reads a cell as the elements of a slice, \<open>mk\<close> makes one.\<close>

definition slice_reach :: "('c \<Rightarrow> 'a list) \<Rightarrow> ('c, 'a) reaching \<Rightarrow> ('c, ref) reaching" where
  "slice_reach at reach h s = (case s of None \<Rightarrow> [] | Some a \<Rightarrow> a # concat (map (reach h) (at (cells h a))))"

definition slice_tree :: "('c \<Rightarrow> 'a list) \<Rightarrow> ('c, 'a, 'v) reading \<Rightarrow> ('c, ref, 'v) reading" where
  "slice_tree at tree h s = (case s of None \<Rightarrow> TNil | Some a \<Rightarrow> TList (map (tree h) (at (cells h a))))"

text \<open>\<open>for i := range *in { (*in)[i].DeepCopyInto(&(*out)[i]) }\<close>\<close>

primrec copy_items :: "('c \<Rightarrow> 'a list) \<Rightarrow> ('a list \<Rightarrow> 'c) \<Rightarrow> ('c, 'a) copying \<Rightarrow> addr \<Rightarrow> addr \<Rightarrow> nat list \<Rightarrow> ('c heap, unit) state" where
  "copy_items at mk into a out [] = State_Monad.return ()"
| "copy_items at mk into a out (i # is) = do {
     c \<leftarrow> load a;
     y \<leftarrow> into (at c ! i);
     d \<leftarrow> load out;
     store_at out (mk ((at d)[i := y]));
     copy_items at mk into a out is
   }"

text \<open>\<open>if *in != nil { *out = make([]T, len(*in)); for ... }\<close>, where \<open>*out = *in\<close> has gone before.\<close>

definition copy_slice :: "('c \<Rightarrow> 'a list) \<Rightarrow> ('a list \<Rightarrow> 'c) \<Rightarrow> 'a \<Rightarrow> ('c, 'a) copying \<Rightarrow> ('c, ref) copying" where
  "copy_slice at mk zero into s = (case s of
     None \<Rightarrow> State_Monad.return None
   | Some a \<Rightarrow> do {
       c \<leftarrow> load a;
       out \<leftarrow> allocate (mk (replicate (length (at c)) zero));
       copy_items at mk into a out [0..<length (at c)];
       State_Monad.return (Some out)
     })"

lemma slice_local:
  assumes "local_reading reach tree"
  shows "local_reading (slice_reach at reach) (slice_tree at tree)"
proof -
  have "concat (map (reach h') xs) = concat (map (reach h) xs)" "map (tree h') xs = map (tree h) xs"
    if "\<forall>x \<in> set xs. agree (reach h x) h h'" for h h' xs
    using that by (induction xs) (simp_all add: localD [OF assms])
  then show ?thesis
    unfolding local_reading_def by (auto simp: slice_reach_def slice_tree_def split: option.split)
qed

text \<open>
  After \<open>k\<close> turns of the loop: the memory of \<open>h0\<close> is as it was; the new slice, at the first address
  that was free in \<open>h0\<close>, has its first \<open>k\<close> elements copied, each into memory of its own.
\<close>

definition filled :: "('c, 'a) reaching \<Rightarrow> ('c, 'a, 'v) reading \<Rightarrow> ('a list \<Rightarrow> 'c) \<Rightarrow> 'c heap \<Rightarrow> 'a list \<Rightarrow> nat \<Rightarrow> 'a list \<Rightarrow> 'c heap \<Rightarrow> bool" where
  "filled reach tree mk h0 xs k ys h \<longleftrightarrow>
     extends h0 h \<and> cells h (next_addr h0) = mk ys \<and> length ys = length xs \<and> next_addr h0 < next_addr h \<and>
     map (tree h) (take k ys) = map (tree h0) (take k xs) \<and>
     made (h0\<lparr>next_addr := Suc (next_addr h0)\<rparr>) h (concat (map (reach h) (take k ys)))"

lemma take_update: "i < length ys \<Longrightarrow> take (Suc i) (ys[i := y]) = take i ys @ [y]"
  by (simp add: take_Suc_conv_app_nth)

lemma filled_step:
  assumes deep: "deep reach tree into" and xs: "\<forall>x \<in> set xs. allocated h0 (reach h0 x)"
    and inv: "filled reach tree mk h0 xs k ys h" and k: "k < length xs"
    and run: "run_state (into (xs ! k)) h = (y, h')"
  shows "filled reach tree mk h0 xs (Suc k) (ys[k := y]) (h'\<lparr>cells := (cells h')(next_addr h0 := mk (ys[k := y]))\<rparr>)"
proof -
  let ?o = "next_addr h0" and ?h'' = "h'\<lparr>cells := (cells h')(next_addr h0 := mk (ys[k := y]))\<rparr>"
  let ?low = "h0\<lparr>next_addr := Suc (next_addr h0)\<rparr>"
  note loc = deep_local [OF deep]
  have h: "extends h0 h" "length ys = length xs" "?o < next_addr h" "map (tree h) (take k ys) = map (tree h0) (take k xs)"
    and old: "made ?low h (concat (map (reach h) (take k ys)))"
    using inv by (auto simp: filled_def)
  have x: "allocated h0 (reach h0 (xs ! k))" using xs k by simp
  have xh: "reach h (xs ! k) = reach h0 (xs ! k)" "tree h (xs ! k) = tree h0 (xs ! k)"
    using local_extends [OF loc h(1) x] by auto
  have "allocated h (reach h (xs ! k))" using xh(1) extends_allocated [OF h(1) x] by simp
  note c = deepD [OF deep this run]
  have le: "next_addr ?low \<le> next_addr h" using h(3) by simp
  have low: "made ?low h' (concat (map (reach h) (take k ys)) @ reach h' y)"
    by (rule made_append [OF le extends_next [OF c(1)] old c(3)])
  have kept: "reach h' z = reach h z" "tree h' z = tree h z" if "z \<in> set (take k ys)" for z
    using local_extends [OF loc c(1)] made_allocated [OF old] that by auto
  have "?o \<notin> set (reach h' y)" using c(3) h(3) by (auto simp: made_def list_all_iff)
  moreover have "?o \<notin> set (reach h' z)" if z: "z \<in> set (take k ys)" for z
  proof
    assume "?o \<in> set (reach h' z)"
    then have "?o \<in> set (concat (map (reach h) (take k ys)))" using kept(1) [OF z] z by auto
    then show False using old by (force simp: made_def list_all_iff)
  qed
  ultimately have off: "agree (reach h' z) h' ?h''" if "z \<in> set (take k ys) \<or> z = y" for z
    using that by (auto simp: agree_def list_all_iff)
  have same: "reach ?h'' z = reach h' z" "tree ?h'' z = tree h' z" if "z \<in> set (take k ys) \<or> z = y" for z
    using localD [OF loc off [OF that]] by auto
  have "take (Suc k) (ys[k := y]) = take k ys @ [y]" using k h(2) by (simp add: take_update)
  moreover have "concat (map (reach ?h'') (take k ys)) = concat (map (reach h) (take k ys))"
    by (rule arg_cong [of _ _ concat]) (use same kept in simp)
  moreover have "map (tree ?h'') (take k ys) = map (tree h) (take k ys)"
    using same kept by auto
  moreover have "extends h0 ?h''" "?o < next_addr ?h''"
    using h(1,3) c(1) by (auto simp: extends_def)
  moreover have "made ?low ?h'' (concat (map (reach h) (take k ys)) @ reach h' y)"
    using low by (simp add: made_def)
  moreover have "take (Suc k) xs = take k xs @ [xs ! k]" using k by (rule take_Suc_conv_app_nth)
  ultimately show ?thesis
    unfolding filled_def using h(2,4) c(2) xh(2) same [of y] by simp
qed

lemma filled_all:
  assumes deep: "deep reach tree into" and xs: "\<forall>x \<in> set xs. allocated h0 (reach h0 x)"
    and a: "a < next_addr h0" "at (cells h0 a) = xs" and at: "\<And>zs. at (mk zs) = zs"
  shows "filled reach tree mk h0 xs k ys h \<Longrightarrow> k \<le> length xs \<Longrightarrow>
    \<exists>zs. filled reach tree mk h0 xs (length xs) zs (snd (run_state (copy_items at mk into a (next_addr h0) [k..<length xs]) h))"
proof (induction "length xs - k" arbitrary: k ys h)
  case 0
  then have "k = length xs" by simp
  with 0 show ?case by auto
next
  case (Suc m)
  then have k: "k < length xs" by simp
  obtain y h' where run: "run_state (into (xs ! k)) h = (y, h')" by (cases "run_state (into (xs ! k)) h") auto
  have c: "at (cells h a) = xs" using Suc.prems(1) a by (auto simp: filled_def extends_def)
  have "allocated h (reach h (xs ! k))"
    using local_extends [OF deep_local [OF deep]] xs k Suc.prems(1) by (auto simp: filled_def intro: extends_allocated)
  from deepD(1) [OF deep this run] have o: "cells h' (next_addr h0) = mk ys"
    using Suc.prems(1) by (auto simp: filled_def extends_def)
  have "[k..<length xs] = k # [Suc k..<length xs]" using k by (simp add: upt_conv_Cons)
  then have "run_state (copy_items at mk into a (next_addr h0) [k..<length xs]) h =
      run_state (copy_items at mk into a (next_addr h0) [Suc k..<length xs])
        (h'\<lparr>cells := (cells h')(next_addr h0 := mk (ys[k := y]))\<rparr>)"
    using run c o by (simp add: at)
  moreover have "m = length xs - Suc k" "Suc k \<le> length xs" using Suc.hyps(2) k by auto
  ultimately show ?case
    using Suc.hyps(1) [OF _ filled_step [OF deep xs Suc.prems(1) k run]] by simp
qed

lemma deep_slice:
  assumes deep: "deep reach tree into" and at: "\<And>zs. at (mk zs) = zs"
  shows "deep (slice_reach at reach) (slice_tree at tree) (copy_slice at mk zero into)"
  unfolding deep_def
proof (intro conjI allI impI)
  show "local_reading (slice_reach at reach) (slice_tree at tree)" by (rule slice_local [OF deep_local [OF deep]])
  fix h :: "'a heap" and s
  assume alloc: "allocated h (slice_reach at reach h s)"
  show "case run_state (copy_slice at mk zero into s) h of (y, h') \<Rightarrow>
      extends h h' \<and> slice_tree at tree h' y = slice_tree at tree h s \<and> made h h' (slice_reach at reach h' y)"
  proof (cases s)
    case None
    then show ?thesis by (simp add: copy_slice_def slice_reach_def slice_tree_def)
  next
    case (Some a)
    let ?xs = "at (cells h a)" and ?o = "next_addr h"
    let ?h1 = "h\<lparr>cells := (cells h)(?o := mk (replicate (length ?xs) zero)), next_addr := Suc ?o\<rparr>"
    have a: "a < ?o" and xs: "\<forall>x \<in> set ?xs. allocated h (reach h x)"
      using alloc Some by (auto simp: slice_reach_def)
    have "filled reach tree mk h ?xs 0 (replicate (length ?xs) zero) ?h1"
      by (simp add: filled_def extends_def made_def)
    from filled_all [OF deep xs a refl at this] obtain zs where
      f: "filled reach tree mk h ?xs (length ?xs) zs (snd (run_state (copy_items at mk into a ?o [0..<length ?xs]) ?h1))" by auto
    obtain h' where run: "run_state (copy_items at mk into a ?o [0..<length ?xs]) ?h1 = ((), h')"
      by (metis old.unit.exhaust surj_pair)
    have "made h h' (?o # concat (map (reach h') zs))"
      using f run by (fastforce simp: filled_def made_def list_all_iff)
    moreover have "map (tree h') zs = map (tree h) ?xs"
      using f run by (simp add: filled_def) (metis take_all_iff order_refl)
    ultimately show ?thesis
      using f run Some by (simp add: copy_slice_def slice_reach_def slice_tree_def filled_def at)
  qed
qed

text \<open>\<open>*out = make([]T, len(*in)); copy(*out, *in)\<close>, for elements without references.\<close>

definition copy_values :: "('c \<Rightarrow> 'a list) \<Rightarrow> ('a list \<Rightarrow> 'c) \<Rightarrow> 'a \<Rightarrow> ('c, ref) copying" where
  "copy_values at mk zero s = (case s of
     None \<Rightarrow> State_Monad.return None
   | Some a \<Rightarrow> do {
       c \<leftarrow> load a;
       out \<leftarrow> allocate (mk (replicate (length (at c)) zero));
       store_at out (mk (at c));
       State_Monad.return (Some out)
     })"

abbreviation nowhere :: "('c, 'a) reaching" where
  "nowhere \<equiv> (\<lambda>h x. [])"

lemma concat_nowhere: "concat (map (\<lambda>x. []) xs) = []"
  by (induction xs) auto

lemma deep_values:
  assumes at: "\<And>zs. at (mk zs) = zs"
  shows "deep (slice_reach at nowhere) (slice_tree at (\<lambda>h. leaf)) (copy_values at mk zero)"
  unfolding deep_def
  by (auto simp: local_reading_def slice_reach_def slice_tree_def copy_values_def at extends_def made_def
      concat_nowhere split: option.split)

section \<open>Maps\<close>

text \<open>
  A map is its entries; the first of a key counts, and a range goes over each key once.
\<close>

definition map_reach :: "('c, ref) reaching" where
  "map_reach h m = (case m of None \<Rightarrow> [] | Some a \<Rightarrow> [a])"

definition map_tree :: "('c \<Rightarrow> (string \<times> string) list) \<Rightarrow> ('c, ref, 'v) reading" where
  "map_tree at h m = (case m of None \<Rightarrow> TNil | Some a \<Rightarrow> TMap (map_of (at (cells h a))))"

text \<open>\<open>for key, val := range *in { (*out)[key] = val }\<close>\<close>

primrec copy_entries :: "('c \<Rightarrow> (string \<times> string) list) \<Rightarrow> ((string \<times> string) list \<Rightarrow> 'c) \<Rightarrow> addr \<Rightarrow> (string \<times> string) list \<Rightarrow> ('c heap, unit) state" where
  "copy_entries at mk out [] = State_Monad.return ()"
| "copy_entries at mk out (e # es) = do {
     d \<leftarrow> load out;
     store_at out (mk (AList.update (fst e) (snd e) (at d)));
     copy_entries at mk out es
   }"

definition copy_map :: "('c \<Rightarrow> (string \<times> string) list) \<Rightarrow> ((string \<times> string) list \<Rightarrow> 'c) \<Rightarrow> ('c, ref) copying" where
  "copy_map at mk m = (case m of
     None \<Rightarrow> State_Monad.return None
   | Some a \<Rightarrow> do {
       c \<leftarrow> load a;
       out \<leftarrow> allocate (mk []);
       copy_entries at mk out (AList.clearjunk (at c));
       State_Monad.return (Some out)
     })"

lemma copy_entries_run:
  assumes at: "\<And>zs. at (mk zs) = zs"
  shows "cells h out = mk m \<Longrightarrow> run_state (copy_entries at mk out es) h =
    ((), h\<lparr>cells := (cells h)(out := mk (fold (\<lambda>e. AList.update (fst e) (snd e)) es m))\<rparr>)"
  by (induction es arbitrary: h m) (simp_all add: at fun_upd_idem)

lemma fold_update_map: "distinct (map fst es) \<Longrightarrow>
    map_of (fold (\<lambda>e. AList.update (fst e) (snd e)) es m) = map_of m ++ map_of es"
proof (induction es arbitrary: m)
  case (Cons e es)
  then have "fst e \<notin> dom (map_of es)" by (simp add: dom_map_of_conv_image_fst)
  with Cons show ?case by (cases e) (auto simp: update_conv' map_add_def fun_eq_iff split: option.split)
qed simp

lemma deep_map:
  assumes at: "\<And>zs. at (mk zs) = zs"
  shows "deep map_reach (map_tree at) (copy_map at mk)"
proof -
  have "map_of (fold (\<lambda>e. AList.update (fst e) (snd e)) (AList.clearjunk es) []) = map_of es" for es :: "(string \<times> string) list"
    by (simp add: fold_update_map distinct_clearjunk map_of_clearjunk)
  then show ?thesis
    unfolding deep_def
    by (auto simp: local_reading_def map_reach_def map_tree_def copy_map_def at copy_entries_run [where at = at and mk = mk, OF at]
        extends_def made_def split: option.split)
qed

section \<open>Structs\<close>

text \<open>
  A struct is copied field by field.  \<open>copying h0 as S m Q\<close>: when a copy begun in \<open>h0\<close> has made \<open>as\<close>
  so far and \<open>S\<close> is known of what it has copied, then after \<open>m\<close> it has made some \<open>bs\<close> and \<open>Q\<close> holds.
\<close>

named_theorems copying_intros

definition sofar :: "'c heap \<Rightarrow> addr list \<Rightarrow> 'c heap \<Rightarrow> bool" where
  "sofar h0 as h \<longleftrightarrow> extends h0 h \<and> made h0 h as"

definition copying :: "'c heap \<Rightarrow> addr list \<Rightarrow> ('c heap \<Rightarrow> bool) \<Rightarrow> ('c heap, 'a) state \<Rightarrow>
    (addr list \<Rightarrow> 'a \<Rightarrow> 'c heap \<Rightarrow> bool) \<Rightarrow> bool" where
  "copying h0 as S m Q \<longleftrightarrow> (\<forall>h. sofar h0 as h \<longrightarrow> S h \<longrightarrow> (case run_state m h of (y, h') \<Rightarrow>
     \<exists>bs. sofar h0 bs h' \<and> Q bs y h'))"

text \<open>\<open>stable S\<close>: allocating and filling new cells does not falsify \<open>S\<close>.\<close>

definition stable :: "('c heap \<Rightarrow> bool) \<Rightarrow> bool" where
  "stable S \<longleftrightarrow> (\<forall>h h'. extends h h' \<longrightarrow> S h \<longrightarrow> S h')"

definition reads :: "('c, 'a) reaching \<Rightarrow> ('c, 'a, 'v) reading \<Rightarrow> 'a \<Rightarrow> addr list \<Rightarrow> 'v tree \<Rightarrow> 'c heap \<Rightarrow> bool" where
  "reads reach tree y as v h \<longleftrightarrow> reach h y = as \<and> tree h y = v \<and> allocated h as"

lemma stable_True [copying_intros]: "stable (\<lambda>h. True)"
  by (simp add: stable_def)

lemma stable_reads [copying_intros]:
  "local_reading reach tree \<Longrightarrow> stable S \<Longrightarrow> stable (\<lambda>h. S h \<and> reads reach tree y as v h)"
  unfolding stable_def reads_def
  by (metis local_extends extends_allocated)

lemma copying_return:
  "(\<And>h. S h \<Longrightarrow> Q as y h) \<Longrightarrow> copying h0 as S (State_Monad.return y) Q"
  by (auto simp: copying_def)

lemma copying_bind:
  assumes deep: "deep reach tree copy" and x: "allocated h0 (reach h0 x)" and S: "stable S"
    and f: "\<And>y bs. copying h0 (as @ bs) (\<lambda>h. S h \<and> reads reach tree y bs (tree h0 x) h) (f y) Q"
  shows "copying h0 as S (State_Monad.bind (copy x) f) Q"
  unfolding copying_def
proof (intro allI impI)
  fix h
  assume h: "sofar h0 as h" "S h"
  then have ext: "extends h0 h" and old: "made h0 h as" by (auto simp: sofar_def)
  obtain y h' where run: "run_state (copy x) h = (y, h')" by (cases "run_state (copy x) h") auto
  have xh: "reach h x = reach h0 x" "tree h x = tree h0 x"
    using local_extends [OF deep_local [OF deep] ext x] by auto
  have "allocated h (reach h x)" using xh(1) extends_allocated [OF ext x] by simp
  note c = deepD [OF deep this run]
  have "sofar h0 (as @ reach h' y) h'"
    unfolding sofar_def
    using extends_trans [OF ext c(1)] made_append [OF extends_next [OF ext] extends_next [OF c(1)] old c(3)] by simp
  moreover have "S h'" using S c(1) h(2) unfolding stable_def by blast
  moreover have "reads reach tree y (reach h' y) (tree h0 x) h'"
    using c(2,3) xh(2) made_allocated by (simp add: reads_def)
  ultimately show "case run_state (State_Monad.bind (copy x) f) h of (z, h'') \<Rightarrow> \<exists>bs. sofar h0 bs h'' \<and> Q bs z h''"
    using f [of "reach h' y" y] run by (simp add: copying_def)
qed

lemma deep_struct:
  assumes "local_reading reach tree"
    and "\<And>h x. allocated h (reach h x) \<Longrightarrow>
      copying h [] (\<lambda>h. True) (copy x) (\<lambda>bs y h'. reach h' y = bs \<and> tree h' y = tree h x)"
  shows "deep reach tree copy"
  unfolding deep_def
proof (intro conjI allI impI)
  fix h x
  assume "allocated h (reach h x)"
  moreover have "sofar h [] h" by (simp add: sofar_def)
  ultimately show "case run_state (copy x) h of (y, h') \<Rightarrow>
      extends h h' \<and> tree h' y = tree h x \<and> made h h' (reach h' y)"
    using assms(2) [of h x] unfolding copying_def
    by (cases "run_state (copy x) h") (force simp: sofar_def dest!: spec [of _ h])
qed (rule assms(1))

text \<open>A value without references is its own copy.\<close>

lemma deep_plain: "deep nowhere (\<lambda>h. leaf) State_Monad.return"
  by (simp add: deep_def local_reading_def)

section \<open>Pointers\<close>

definition pointer_reach :: "('c \<Rightarrow> 'a) \<Rightarrow> ('c, 'a) reaching \<Rightarrow> ('c, ref) reaching" where
  "pointer_reach at reach h p = (case p of None \<Rightarrow> [] | Some a \<Rightarrow> a # reach h (at (cells h a)))"

definition pointer_tree :: "('c \<Rightarrow> 'a) \<Rightarrow> ('c, 'a, 'v) reading \<Rightarrow> ('c, ref, 'v) reading" where
  "pointer_tree at tree h p = (case p of None \<Rightarrow> TNil | Some a \<Rightarrow> tree h (at (cells h a)))"

text \<open>
  \<open>if in == nil { return nil }; out := new(T); in.DeepCopyInto(out); return out\<close>.  \<open>DeepCopyInto\<close>
  begins with \<open>*out = *in\<close>, so that this is what the new cell holds before it is filled.
\<close>

definition deep_copy :: "('c \<Rightarrow> 'a) \<Rightarrow> ('a \<Rightarrow> 'c) \<Rightarrow> ('c, 'a) copying \<Rightarrow> ('c, ref) copying" where
  "deep_copy at mk into p = (case p of
     None \<Rightarrow> State_Monad.return None
   | Some a \<Rightarrow> do {
       c \<leftarrow> load a;
       out \<leftarrow> allocate (mk (at c));
       y \<leftarrow> into (at c);
       store_at out (mk y);
       State_Monad.return (Some out)
     })"

lemma deep_pointer:
  assumes deep: "deep reach tree into" and at: "\<And>z. at (mk z) = z"
  shows "deep (pointer_reach at reach) (pointer_tree at tree) (deep_copy at mk into)"
  unfolding deep_def
proof (intro conjI allI impI)
  show "local_reading (pointer_reach at reach) (pointer_tree at tree)"
    using localD [OF deep_local [OF deep]] unfolding local_reading_def
    by (auto simp: pointer_reach_def pointer_tree_def split: option.split)
  fix h p
  assume alloc: "allocated h (pointer_reach at reach h p)"
  show "case run_state (deep_copy at mk into p) h of (q, h') \<Rightarrow>
      extends h h' \<and> pointer_tree at tree h' q = pointer_tree at tree h p \<and> made h h' (pointer_reach at reach h' q)"
  proof (cases p)
    case None
    then show ?thesis by (simp add: deep_copy_def pointer_reach_def pointer_tree_def)
  next
    case (Some a)
    let ?x = "at (cells h a)" and ?o = "next_addr h"
    let ?h1 = "h\<lparr>cells := (cells h)(?o := mk ?x), next_addr := Suc ?o\<rparr>"
    note loc = deep_local [OF deep]
    have x: "allocated h (reach h ?x)" using alloc Some by (simp add: pointer_reach_def)
    have ext: "extends h ?h1" by (simp add: extends_def)
    have xh: "reach ?h1 ?x = reach h ?x" "tree ?h1 ?x = tree h ?x" using local_extends [OF loc ext x] by auto
    obtain y h' where run: "run_state (into ?x) ?h1 = (y, h')" by (cases "run_state (into ?x) ?h1") auto
    have "allocated ?h1 (reach ?h1 ?x)" unfolding xh(1) by (rule extends_allocated [OF ext x])
    note c = deepD [OF deep this run]
    let ?h2 = "h'\<lparr>cells := (cells h')(?o := mk y)\<rparr>"
    have "agree (reach h' y) h' ?h2" using c(3) by (auto simp: agree_def made_def list_all_iff)
    note same = localD [OF loc this]
    have "extends h ?h2" using c(1) by (auto simp: extends_def)
    moreover have "made h ?h2 (?o # reach h' y)" using c(1,3) by (fastforce simp: made_def extends_def list_all_iff)
    moreover have "run_state (deep_copy at mk into p) h = (Some ?o, ?h2)" using run Some by (simp add: deep_copy_def)
    ultimately show ?thesis
      using same c(2) xh(2) Some by (simp add: pointer_reach_def pointer_tree_def at)
  qed
qed

section \<open>The contract\<close>

text \<open>
  What a client of a deep copy may rely on.  \<open>F\<close> is code outside the repository that the copy calls,
  \<open>ok F\<close> what is asked of it.
\<close>

locale deep_copied =
  fixes ok :: "'f \<Rightarrow> bool"
    and reach :: "'f \<Rightarrow> ('c, 'a) reaching"
    and tree :: "'f \<Rightarrow> ('c, 'a, 'v) reading"
    and copy :: "'f \<Rightarrow> ('c, 'a) copying"
  assumes deep: "ok F \<Longrightarrow> deep (reach F) (tree F) (copy F)"
begin

lemma reads_the_same:
  assumes "ok F" and "allocated h (reach F h x)" and "run_state (copy F x) h = (y, h')"
  shows "tree F h' y = tree F h x"
  using deepD(2) [OF deep [OF assms(1)] assms(2,3)] .

lemma original_kept:
  assumes "ok F" and "allocated h (reach F h x)" and "run_state (copy F x) h = (y, h')"
  shows "reach F h' x = reach F h x" and "tree F h' x = tree F h x"
  using local_extends [OF deep_local [OF deep [OF assms(1)]] deepD(1) [OF deep [OF assms(1)] assms(2,3)] assms(2)] by auto

lemma unshared:
  assumes "ok F" and "allocated h (reach F h x)" and "run_state (copy F x) h = (y, h')"
  shows "distinct (reach F h' y)" and "a \<in> set (reach F h' y) \<Longrightarrow> next_addr h \<le> a"
  using deepD(3) [OF deep [OF assms(1)] assms(2,3)] by (auto simp: made_def list_all_iff)

text \<open>What is written through the copy, or into memory allocated later, does not show in the original.\<close>

lemma writes_stay:
  assumes "ok F" and "allocated h (reach F h x)" and "run_state (copy F x) h = (y, h')"
    and other: "\<And>a. a < next_addr h' \<Longrightarrow> a \<notin> set (reach F h' y) \<Longrightarrow> cells h'' a = cells h' a"
  shows "tree F h'' x = tree F h x"
proof -
  have ext: "extends h h'" by (rule deepD(1) [OF deep [OF assms(1)] assms(2,3)])
  have "cells h'' a = cells h a" if "a \<in> set (reach F h x)" for a
  proof -
    have a: "a < next_addr h" using assms(2) that by (simp add: allocated_def list_all_iff)
    then have "a \<notin> set (reach F h' y)" using unshared(2) [OF assms(1-3), of a] by auto
    with a ext other [of a] show ?thesis by (simp add: extends_def)
  qed
  then have "agree (reach F h x) h h''" by (simp add: agree_def list_all_iff)
  then show ?thesis using localD [OF deep_local [OF deep [OF assms(1)]]] by blast
qed

text \<open>Nor does what is written elsewhere show in the copy.\<close>

lemma copy_stays:
  assumes "ok F" and "allocated h (reach F h x)" and "run_state (copy F x) h = (y, h')"
    and "\<And>a. a \<in> set (reach F h' y) \<Longrightarrow> cells h'' a = cells h' a"
  shows "tree F h'' y = tree F h x"
proof -
  have "agree (reach F h' y) h' h''" using assms(4) by (simp add: agree_def list_all_iff)
  then show ?thesis
    using localD [OF deep_local [OF deep [OF assms(1)]]] reads_the_same [OF assms(1-3)] by metis
qed

end

end
