(* ===== verification/DeepCopy.thy ===== *)
theory DeepCopy
  imports GoHeap "HOL-Library.Word"
begin

text \<open>
  \<^verbatim>\<open>api/v1alpha1/zz_generated.deepcopy.go\<close>: the deep copies of the API types, on the memory of \<open>GoHeap\<close>.

  The types are those of \<^verbatim>\<open>api/v1alpha1\<close> as they lie in memory: a slice, a map or a pointer is a
  reference, a struct within a struct is part of it.  A \<open>DeepCopyInto\<close> is given the struct \<open>*in\<close> and
  answers the struct it leaves in \<open>*out\<close>; it begins with \<open>*out = *in\<close>, so that fields it does not
  mention are copied.  \<open>in\<close> and \<open>out\<close> are different variables wherever the file calls it.

  The metadata of Kubernetes and the specifications of Config Connector are structs of packages outside
  the repository, with a \<open>DeepCopyInto\<close> of their own: values of a type \<open>'x\<close>, copied by the fields of
  \<open>foreign\<close>, of which \<open>foreign_deep\<close> asks that they copy deeply.
\<close>

section \<open>The types in memory\<close>

record CustomObjectMeta_mem =
  Name :: string
  Namespace :: string
  Labels :: ref
  Annotations :: ref

record 'x TemplateSpec_mem =
  CustomMeta :: CustomObjectMeta_mem
  Spec :: 'x

type_synonym 'x ComputeNetworkTemplateSpec_mem = "'x TemplateSpec_mem"
type_synonym 'x ComputeRouterNATTemplateSpec_mem = "'x TemplateSpec_mem"
type_synonym 'x ComputeRouterTemplateSpec_mem = "'x TemplateSpec_mem"
type_synonym 'x ComputeSubnetworkTemplateSpec_mem = "'x TemplateSpec_mem"
type_synonym 'x ContainerClusterTemplateSpec_mem = "'x TemplateSpec_mem"
type_synonym 'x ContainerNodePoolTemplateSpec_mem = "'x TemplateSpec_mem"
type_synonym 'x IAMServiceAccountTemplateSpec_mem = "'x TemplateSpec_mem"
type_synonym 'x SQLDatabaseTemplate_mem = "'x TemplateSpec_mem"
type_synonym 'x SQLInstanceTemplateSpec_mem = "'x TemplateSpec_mem"
type_synonym 'x StorageBucketTemplateSpec_mem = "'x TemplateSpec_mem"

record Compute_mem =
  ComputeNetworks :: ref
  ComputeSubnetworks :: ref
  ComputeRouters :: ref
  ComputeRouterNATs :: ref

record Container_mem =
  ContainerClusters :: ref
  ContainerNodePools :: ref

record SQL_mem =
  SQLInstances :: ref
  SQLDatabases :: ref

record Storage_mem =
  StorageBuckets :: ref

record SQLRestoreSpec_mem =
  BackupRunId :: "64 word"
  InstanceId :: string
  RestoreKind :: string
  Project :: string

record SQLRestoresTemplateSpec_mem =
  RestoreMeta :: CustomObjectMeta_mem
  RestoreSpec :: SQLRestoreSpec_mem

record SQLRestore_mem =
  SQLRestores :: ref

record IAM_mem =
  IAMServiceAccounts :: ref

record UniverseSpec_mem =
  ProjectID :: string
  TTL :: "64 word"
  uContainer :: Container_mem
  uCompute :: Compute_mem
  uSQL :: SQL_mem
  uStorage :: Storage_mem
  uSQLRestore :: SQLRestore_mem
  uIAM :: IAM_mem
  TargetNamespaces :: ref
  PrimaryCluster :: string

record ResourceStatus_mem =
  StatusKind :: string
  StatusName :: string
  Status :: string

record UniverseStatus_mem =
  Resources :: ref
  ObservedGeneration :: "64 word"
  Repository :: string
  PR :: string

record TypeMeta_mem =
  Kind :: string
  APIVersion :: string

record 'x Universe_mem =
  uTypeMeta :: TypeMeta_mem
  uObjectMeta :: 'x
  uSpec :: UniverseSpec_mem
  uStatus :: UniverseStatus_mem

record 'x UniverseList_mem =
  ulTypeMeta :: TypeMeta_mem
  ulListMeta :: 'x
  ulItems :: ref

record TriggerSpec_mem =
  Respositories :: ref
  TriggerProjectID :: string
  CredentialSecretRef :: string
  RequeueAfterMinutes :: "64 word"
  TriggerTargetNamespaces :: ref
  TriggerPrimaryCluster :: string
  LabelToDeploymentMap :: ref

record TriggerStatus_mem =
  TriggerObservedGeneration :: "64 word"

record 'x Trigger_mem =
  tTypeMeta :: TypeMeta_mem
  tObjectMeta :: 'x
  tSpec :: TriggerSpec_mem
  tStatus :: TriggerStatus_mem

record 'x TriggerList_mem =
  tlTypeMeta :: TypeMeta_mem
  tlListMeta :: 'x
  tlItems :: ref

text \<open>A cell holds the elements of a slice, the entries of a map, or the struct a pointer points to.\<close>

datatype 'x cell =
    Foreign (foreign_at: 'x)
  | Strings (strings_at: "string list")
  | StringMap (map_at: "(string \<times> string) list")
  | Templates (templates_at: "'x TemplateSpec_mem list")
  | RestoreTemplates (restores_at: "SQLRestoresTemplateSpec_mem list")
  | Statuses (statuses_at: "ResourceStatus_mem list")
  | Universes (universes_at: "'x Universe_mem list")
  | Triggers (triggers_at: "'x Trigger_mem list")
  | ComputeCell (compute_at: Compute_mem)
  | TemplateSpecCell (template_at: "'x TemplateSpec_mem")
  | ContainerCell (container_at: Container_mem)
  | CustomObjectMetaCell (meta_at: CustomObjectMeta_mem)
  | IAMCell (iam_at: IAM_mem)
  | ResourceStatusCell (status_at: ResourceStatus_mem)
  | SQLCell (sql_at: SQL_mem)
  | SQLRestoreCell (sqlrestore_at: SQLRestore_mem)
  | SQLRestoreSpecCell (restorespec_at: SQLRestoreSpec_mem)
  | SQLRestoresTemplateSpecCell (restore_at: SQLRestoresTemplateSpec_mem)
  | StorageCell (storage_at: Storage_mem)
  | TriggerCell (trigger_at: "'x Trigger_mem")
  | TriggerListCell (triggerlist_at: "'x TriggerList_mem")
  | TriggerSpecCell (triggerspec_at: TriggerSpec_mem)
  | TriggerStatusCell (triggerstatus_at: TriggerStatus_mem)
  | UniverseCell (universe_at: "'x Universe_mem")
  | UniverseListCell (universelist_at: "'x UniverseList_mem")
  | UniverseSpecCell (universespec_at: UniverseSpec_mem)
  | UniverseStatusCell (universestatus_at: UniverseStatus_mem)

type_synonym 'x mem = "'x cell heap"

record ('x, 'v) foreign =
  zero_foreign :: 'x
  ComputeNetworkSpec_DeepCopyInto :: "('x cell, 'x) copying"
  ComputeRouterNATSpec_DeepCopyInto :: "('x cell, 'x) copying"
  ComputeRouterSpec_DeepCopyInto :: "('x cell, 'x) copying"
  ComputeSubnetworkSpec_DeepCopyInto :: "('x cell, 'x) copying"
  ContainerClusterSpec_DeepCopyInto :: "('x cell, 'x) copying"
  ContainerNodePoolSpec_DeepCopyInto :: "('x cell, 'x) copying"
  IAMServiceAccountSpec_DeepCopyInto :: "('x cell, 'x) copying"
  SQLDatabaseSpec_DeepCopyInto :: "('x cell, 'x) copying"
  SQLInstanceSpec_DeepCopyInto :: "('x cell, 'x) copying"
  StorageBucketSpec_DeepCopyInto :: "('x cell, 'x) copying"
  ObjectMeta_DeepCopyInto :: "('x cell, 'x) copying"
  ListMeta_DeepCopyInto :: "('x cell, 'x) copying"
  foreign_reach :: "('x cell, 'x) reaching"
  foreign_tree :: "('x cell, 'x, 'v) reading"

definition foreign_deep :: "('x, 'v) foreign \<Rightarrow> bool" where
  "foreign_deep F \<longleftrightarrow> list_all (deep (foreign_reach F) (foreign_tree F))
     [ComputeNetworkSpec_DeepCopyInto F, ComputeRouterNATSpec_DeepCopyInto F,
      ComputeRouterSpec_DeepCopyInto F, ComputeSubnetworkSpec_DeepCopyInto F,
      ContainerClusterSpec_DeepCopyInto F, ContainerNodePoolSpec_DeepCopyInto F,
      IAMServiceAccountSpec_DeepCopyInto F, SQLDatabaseSpec_DeepCopyInto F,
      SQLInstanceSpec_DeepCopyInto F, StorageBucketSpec_DeepCopyInto F,
      ObjectMeta_DeepCopyInto F, ListMeta_DeepCopyInto F]"

section \<open>What the types lead to and read as\<close>

definition meta_reach :: "('x cell, CustomObjectMeta_mem) reaching" where
  "meta_reach h m = map_reach h (Labels m) @ map_reach h (Annotations m)"

definition meta_tree :: "('x cell, CustomObjectMeta_mem, 'v) reading" where
  "meta_tree h m = TStruct [TStr (Name m), TStr (Namespace m), map_tree map_at h (Labels m), map_tree map_at h (Annotations m)]"

definition template_reach :: "('x, 'v) foreign \<Rightarrow> ('x cell, 'x TemplateSpec_mem) reaching" where
  "template_reach F h t = meta_reach h (CustomMeta t) @ foreign_reach F h (Spec t)"

definition template_tree :: "('x, 'v) foreign \<Rightarrow> ('x cell, 'x TemplateSpec_mem, 'v) reading" where
  "template_tree F h t = TStruct [meta_tree h (CustomMeta t), foreign_tree F h (Spec t)]"

abbreviation templates_reach :: "('x, 'v) foreign \<Rightarrow> ('x cell, ref) reaching" where
  "templates_reach F \<equiv> slice_reach templates_at (template_reach F)"

abbreviation templates_tree :: "('x, 'v) foreign \<Rightarrow> ('x cell, ref, 'v) reading" where
  "templates_tree F \<equiv> slice_tree templates_at (template_tree F)"

abbreviation strings_reach :: "('x cell, ref) reaching" where
  "strings_reach \<equiv> slice_reach strings_at nowhere"

abbreviation strings_tree :: "('x cell, ref, 'v) reading" where
  "strings_tree \<equiv> slice_tree strings_at (\<lambda>h. TStr)"

definition compute_reach :: "('x, 'v) foreign \<Rightarrow> ('x cell, Compute_mem) reaching" where
  "compute_reach F h x = templates_reach F h (ComputeNetworks x) @ templates_reach F h (ComputeSubnetworks x) @
     templates_reach F h (ComputeRouters x) @ templates_reach F h (ComputeRouterNATs x)"

definition compute_tree :: "('x, 'v) foreign \<Rightarrow> ('x cell, Compute_mem, 'v) reading" where
  "compute_tree F h x = TStruct [templates_tree F h (ComputeNetworks x), templates_tree F h (ComputeSubnetworks x),
     templates_tree F h (ComputeRouters x), templates_tree F h (ComputeRouterNATs x)]"

definition container_reach :: "('x, 'v) foreign \<Rightarrow> ('x cell, Container_mem) reaching" where
  "container_reach F h x = templates_reach F h (ContainerClusters x) @ templates_reach F h (ContainerNodePools x)"

definition container_tree :: "('x, 'v) foreign \<Rightarrow> ('x cell, Container_mem, 'v) reading" where
  "container_tree F h x = TStruct [templates_tree F h (ContainerClusters x), templates_tree F h (ContainerNodePools x)]"

definition iam_reach :: "('x, 'v) foreign \<Rightarrow> ('x cell, IAM_mem) reaching" where
  "iam_reach F h x = templates_reach F h (IAMServiceAccounts x)"

definition iam_tree :: "('x, 'v) foreign \<Rightarrow> ('x cell, IAM_mem, 'v) reading" where
  "iam_tree F h x = TStruct [templates_tree F h (IAMServiceAccounts x)]"

definition sql_reach :: "('x, 'v) foreign \<Rightarrow> ('x cell, SQL_mem) reaching" where
  "sql_reach F h x = templates_reach F h (SQLInstances x) @ templates_reach F h (SQLDatabases x)"

definition sql_tree :: "('x, 'v) foreign \<Rightarrow> ('x cell, SQL_mem, 'v) reading" where
  "sql_tree F h x = TStruct [templates_tree F h (SQLInstances x), templates_tree F h (SQLDatabases x)]"

definition storage_reach :: "('x, 'v) foreign \<Rightarrow> ('x cell, Storage_mem) reaching" where
  "storage_reach F h x = templates_reach F h (StorageBuckets x)"

definition storage_tree :: "('x, 'v) foreign \<Rightarrow> ('x cell, Storage_mem, 'v) reading" where
  "storage_tree F h x = TStruct [templates_tree F h (StorageBuckets x)]"

definition restorespec_tree :: "SQLRestoreSpec_mem \<Rightarrow> 'v tree" where
  "restorespec_tree x = TStruct [TInt (sint (BackupRunId x)), TStr (InstanceId x), TStr (RestoreKind x), TStr (Project x)]"

definition restore_reach :: "('x cell, SQLRestoresTemplateSpec_mem) reaching" where
  "restore_reach h x = meta_reach h (RestoreMeta x)"

definition restore_tree :: "('x cell, SQLRestoresTemplateSpec_mem, 'v) reading" where
  "restore_tree h x = TStruct [meta_tree h (RestoreMeta x), restorespec_tree (RestoreSpec x)]"

definition sqlrestore_reach :: "('x cell, SQLRestore_mem) reaching" where
  "sqlrestore_reach h x = slice_reach restores_at restore_reach h (SQLRestores x)"

definition sqlrestore_tree :: "('x cell, SQLRestore_mem, 'v) reading" where
  "sqlrestore_tree h x = TStruct [slice_tree restores_at restore_tree h (SQLRestores x)]"

definition universespec_reach :: "('x, 'v) foreign \<Rightarrow> ('x cell, UniverseSpec_mem) reaching" where
  "universespec_reach F h x = container_reach F h (uContainer x) @ compute_reach F h (uCompute x) @ sql_reach F h (uSQL x) @
     storage_reach F h (uStorage x) @ sqlrestore_reach h (uSQLRestore x) @ iam_reach F h (uIAM x) @
     strings_reach h (TargetNamespaces x)"

definition universespec_tree :: "('x, 'v) foreign \<Rightarrow> ('x cell, UniverseSpec_mem, 'v) reading" where
  "universespec_tree F h x = TStruct [TStr (ProjectID x), TInt (sint (TTL x)), container_tree F h (uContainer x),
     compute_tree F h (uCompute x), sql_tree F h (uSQL x), storage_tree F h (uStorage x),
     sqlrestore_tree h (uSQLRestore x), iam_tree F h (uIAM x), strings_tree h (TargetNamespaces x),
     TStr (PrimaryCluster x)]"

definition status_tree :: "ResourceStatus_mem \<Rightarrow> 'v tree" where
  "status_tree x = TStruct [TStr (StatusKind x), TStr (StatusName x), TStr (Status x)]"

definition universestatus_reach :: "('x cell, UniverseStatus_mem) reaching" where
  "universestatus_reach h x = slice_reach statuses_at nowhere h (Resources x)"

definition universestatus_tree :: "('x cell, UniverseStatus_mem, 'v) reading" where
  "universestatus_tree h x = TStruct [slice_tree statuses_at (\<lambda>h. status_tree) h (Resources x),
     TInt (sint (ObservedGeneration x)), TStr (Repository x), TStr (PR x)]"

definition typemeta_tree :: "TypeMeta_mem \<Rightarrow> 'v tree" where
  "typemeta_tree x = TStruct [TStr (Kind x), TStr (APIVersion x)]"

definition universe_reach :: "('x, 'v) foreign \<Rightarrow> ('x cell, 'x Universe_mem) reaching" where
  "universe_reach F h x = foreign_reach F h (uObjectMeta x) @ universespec_reach F h (uSpec x) @
     universestatus_reach h (uStatus x)"

definition universe_tree :: "('x, 'v) foreign \<Rightarrow> ('x cell, 'x Universe_mem, 'v) reading" where
  "universe_tree F h x = TStruct [typemeta_tree (uTypeMeta x), foreign_tree F h (uObjectMeta x), universespec_tree F h (uSpec x),
     universestatus_tree h (uStatus x)]"

definition universelist_reach :: "('x, 'v) foreign \<Rightarrow> ('x cell, 'x UniverseList_mem) reaching" where
  "universelist_reach F h x = foreign_reach F h (ulListMeta x) @ slice_reach universes_at (universe_reach F) h (ulItems x)"

definition universelist_tree :: "('x, 'v) foreign \<Rightarrow> ('x cell, 'x UniverseList_mem, 'v) reading" where
  "universelist_tree F h x = TStruct [typemeta_tree (ulTypeMeta x), foreign_tree F h (ulListMeta x),
     slice_tree universes_at (universe_tree F) h (ulItems x)]"

definition triggerspec_reach :: "('x cell, TriggerSpec_mem) reaching" where
  "triggerspec_reach h x = strings_reach h (Respositories x) @ strings_reach h (TriggerTargetNamespaces x) @
     map_reach h (LabelToDeploymentMap x)"

definition triggerspec_tree :: "('x cell, TriggerSpec_mem, 'v) reading" where
  "triggerspec_tree h x = TStruct [strings_tree h (Respositories x), TStr (TriggerProjectID x), TStr (CredentialSecretRef x),
     TInt (sint (RequeueAfterMinutes x)), strings_tree h (TriggerTargetNamespaces x),
     TStr (TriggerPrimaryCluster x), map_tree map_at h (LabelToDeploymentMap x)]"

definition triggerstatus_tree :: "TriggerStatus_mem \<Rightarrow> 'v tree" where
  "triggerstatus_tree x = TStruct [TInt (sint (TriggerObservedGeneration x))]"

definition trigger_reach :: "('x, 'v) foreign \<Rightarrow> ('x cell, 'x Trigger_mem) reaching" where
  "trigger_reach F h x = foreign_reach F h (tObjectMeta x) @ triggerspec_reach h (tSpec x)"

definition trigger_tree :: "('x, 'v) foreign \<Rightarrow> ('x cell, 'x Trigger_mem, 'v) reading" where
  "trigger_tree F h x = TStruct [typemeta_tree (tTypeMeta x), foreign_tree F h (tObjectMeta x), triggerspec_tree h (tSpec x),
     triggerstatus_tree (tStatus x)]"

definition triggerlist_reach :: "('x, 'v) foreign \<Rightarrow> ('x cell, 'x TriggerList_mem) reaching" where
  "triggerlist_reach F h x = foreign_reach F h (tlListMeta x) @ slice_reach triggers_at (trigger_reach F) h (tlItems x)"

definition triggerlist_tree :: "('x, 'v) foreign \<Rightarrow> ('x cell, 'x TriggerList_mem, 'v) reading" where
  "triggerlist_tree F h x = TStruct [typemeta_tree (tlTypeMeta x), foreign_tree F h (tlListMeta x),
     slice_tree triggers_at (trigger_tree F) h (tlItems x)]"

section \<open>Zero values, of which \<open>make\<close> fills a slice\<close>

definition zero_meta :: CustomObjectMeta_mem where
  "zero_meta = \<lparr> Name = [], Namespace = [], Labels = None, Annotations = None \<rparr>"

definition zero_template :: "('x, 'v) foreign \<Rightarrow> 'x TemplateSpec_mem" where
  "zero_template F = \<lparr> CustomMeta = zero_meta, Spec = zero_foreign F \<rparr>"

definition zero_restore :: SQLRestoresTemplateSpec_mem where
  "zero_restore = \<lparr> RestoreMeta = zero_meta,
     RestoreSpec = \<lparr> BackupRunId = 0, InstanceId = [], RestoreKind = [], Project = [] \<rparr> \<rparr>"

definition zero_status :: ResourceStatus_mem where
  "zero_status = \<lparr> StatusKind = [], StatusName = [], Status = [] \<rparr>"

definition zero_universe :: "('x, 'v) foreign \<Rightarrow> 'x Universe_mem" where
  "zero_universe F = \<lparr> uTypeMeta = \<lparr> Kind = [], APIVersion = [] \<rparr>, uObjectMeta = zero_foreign F,
     uSpec = \<lparr> ProjectID = [], TTL = 0, uContainer = \<lparr> ContainerClusters = None, ContainerNodePools = None \<rparr>,
       uCompute = \<lparr> ComputeNetworks = None, ComputeSubnetworks = None, ComputeRouters = None, ComputeRouterNATs = None \<rparr>,
       uSQL = \<lparr> SQLInstances = None, SQLDatabases = None \<rparr>, uStorage = \<lparr> StorageBuckets = None \<rparr>,
       uSQLRestore = \<lparr> SQLRestores = None \<rparr>, uIAM = \<lparr> IAMServiceAccounts = None \<rparr>,
       TargetNamespaces = None, PrimaryCluster = [] \<rparr>,
     uStatus = \<lparr> Resources = None, ObservedGeneration = 0, Repository = [], PR = [] \<rparr> \<rparr>"

definition zero_trigger :: "('x, 'v) foreign \<Rightarrow> 'x Trigger_mem" where
  "zero_trigger F = \<lparr> tTypeMeta = \<lparr> Kind = [], APIVersion = [] \<rparr>, tObjectMeta = zero_foreign F,
     tSpec = \<lparr> Respositories = None, TriggerProjectID = [], CredentialSecretRef = [], RequeueAfterMinutes = 0,
       TriggerTargetNamespaces = None, TriggerPrimaryCluster = [], LabelToDeploymentMap = None \<rparr>,
     tStatus = \<lparr> TriggerObservedGeneration = 0 \<rparr> \<rparr>"

section \<open>DeepCopyInto\<close>

definition CustomObjectMeta_DeepCopyInto :: "('x cell, CustomObjectMeta_mem) copying" where
  "CustomObjectMeta_DeepCopyInto x = do {
     labels \<leftarrow> copy_map map_at StringMap (Labels x);
     annotations \<leftarrow> copy_map map_at StringMap (Annotations x);
     State_Monad.return (x\<lparr>Labels := labels, Annotations := annotations\<rparr>)
   }"

definition ComputeNetworkTemplateSpec_DeepCopyInto :: "('x, 'v) foreign \<Rightarrow> ('x cell, 'x ComputeNetworkTemplateSpec_mem) copying" where
  "ComputeNetworkTemplateSpec_DeepCopyInto F x = do {
     m \<leftarrow> CustomObjectMeta_DeepCopyInto (CustomMeta x);
     s \<leftarrow> ComputeNetworkSpec_DeepCopyInto F (Spec x);
     State_Monad.return (x\<lparr>CustomMeta := m, Spec := s\<rparr>)
   }"

definition ComputeRouterNATTemplateSpec_DeepCopyInto :: "('x, 'v) foreign \<Rightarrow> ('x cell, 'x ComputeRouterNATTemplateSpec_mem) copying" where
  "ComputeRouterNATTemplateSpec_DeepCopyInto F x = do {
     m \<leftarrow> CustomObjectMeta_DeepCopyInto (CustomMeta x);
     s \<leftarrow> ComputeRouterNATSpec_DeepCopyInto F (Spec x);
     State_Monad.return (x\<lparr>CustomMeta := m, Spec := s\<rparr>)
   }"

definition ComputeRouterTemplateSpec_DeepCopyInto :: "('x, 'v) foreign \<Rightarrow> ('x cell, 'x ComputeRouterTemplateSpec_mem) copying" where
  "ComputeRouterTemplateSpec_DeepCopyInto F x = do {
     m \<leftarrow> CustomObjectMeta_DeepCopyInto (CustomMeta x);
     s \<leftarrow> ComputeRouterSpec_DeepCopyInto F (Spec x);
     State_Monad.return (x\<lparr>CustomMeta := m, Spec := s\<rparr>)
   }"

definition ComputeSubnetworkTemplateSpec_DeepCopyInto :: "('x, 'v) foreign \<Rightarrow> ('x cell, 'x ComputeSubnetworkTemplateSpec_mem) copying" where
  "ComputeSubnetworkTemplateSpec_DeepCopyInto F x = do {
     m \<leftarrow> CustomObjectMeta_DeepCopyInto (CustomMeta x);
     s \<leftarrow> ComputeSubnetworkSpec_DeepCopyInto F (Spec x);
     State_Monad.return (x\<lparr>CustomMeta := m, Spec := s\<rparr>)
   }"

definition ContainerClusterTemplateSpec_DeepCopyInto :: "('x, 'v) foreign \<Rightarrow> ('x cell, 'x ContainerClusterTemplateSpec_mem) copying" where
  "ContainerClusterTemplateSpec_DeepCopyInto F x = do {
     m \<leftarrow> CustomObjectMeta_DeepCopyInto (CustomMeta x);
     s \<leftarrow> ContainerClusterSpec_DeepCopyInto F (Spec x);
     State_Monad.return (x\<lparr>CustomMeta := m, Spec := s\<rparr>)
   }"

definition ContainerNodePoolTemplateSpec_DeepCopyInto :: "('x, 'v) foreign \<Rightarrow> ('x cell, 'x ContainerNodePoolTemplateSpec_mem) copying" where
  "ContainerNodePoolTemplateSpec_DeepCopyInto F x = do {
     m \<leftarrow> CustomObjectMeta_DeepCopyInto (CustomMeta x);
     s \<leftarrow> ContainerNodePoolSpec_DeepCopyInto F (Spec x);
     State_Monad.return (x\<lparr>CustomMeta := m, Spec := s\<rparr>)
   }"

definition IAMServiceAccountTemplateSpec_DeepCopyInto :: "('x, 'v) foreign \<Rightarrow> ('x cell, 'x IAMServiceAccountTemplateSpec_mem) copying" where
  "IAMServiceAccountTemplateSpec_DeepCopyInto F x = do {
     m \<leftarrow> CustomObjectMeta_DeepCopyInto (CustomMeta x);
     s \<leftarrow> IAMServiceAccountSpec_DeepCopyInto F (Spec x);
     State_Monad.return (x\<lparr>CustomMeta := m, Spec := s\<rparr>)
   }"

definition SQLDatabaseTemplate_DeepCopyInto :: "('x, 'v) foreign \<Rightarrow> ('x cell, 'x SQLDatabaseTemplate_mem) copying" where
  "SQLDatabaseTemplate_DeepCopyInto F x = do {
     m \<leftarrow> CustomObjectMeta_DeepCopyInto (CustomMeta x);
     s \<leftarrow> SQLDatabaseSpec_DeepCopyInto F (Spec x);
     State_Monad.return (x\<lparr>CustomMeta := m, Spec := s\<rparr>)
   }"

definition SQLInstanceTemplateSpec_DeepCopyInto :: "('x, 'v) foreign \<Rightarrow> ('x cell, 'x SQLInstanceTemplateSpec_mem) copying" where
  "SQLInstanceTemplateSpec_DeepCopyInto F x = do {
     m \<leftarrow> CustomObjectMeta_DeepCopyInto (CustomMeta x);
     s \<leftarrow> SQLInstanceSpec_DeepCopyInto F (Spec x);
     State_Monad.return (x\<lparr>CustomMeta := m, Spec := s\<rparr>)
   }"

definition StorageBucketTemplateSpec_DeepCopyInto :: "('x, 'v) foreign \<Rightarrow> ('x cell, 'x StorageBucketTemplateSpec_mem) copying" where
  "StorageBucketTemplateSpec_DeepCopyInto F x = do {
     m \<leftarrow> CustomObjectMeta_DeepCopyInto (CustomMeta x);
     s \<leftarrow> StorageBucketSpec_DeepCopyInto F (Spec x);
     State_Monad.return (x\<lparr>CustomMeta := m, Spec := s\<rparr>)
   }"

definition Compute_DeepCopyInto :: "('x, 'v) foreign \<Rightarrow> ('x cell, Compute_mem) copying" where
  "Compute_DeepCopyInto F x = do {
     computeNetworks \<leftarrow> copy_slice templates_at Templates (zero_template F)
       (ComputeNetworkTemplateSpec_DeepCopyInto F) (ComputeNetworks x);
     computeSubnetworks \<leftarrow> copy_slice templates_at Templates (zero_template F)
       (ComputeSubnetworkTemplateSpec_DeepCopyInto F) (ComputeSubnetworks x);
     computeRouters \<leftarrow> copy_slice templates_at Templates (zero_template F)
       (ComputeRouterTemplateSpec_DeepCopyInto F) (ComputeRouters x);
     computeRouterNATs \<leftarrow> copy_slice templates_at Templates (zero_template F)
       (ComputeRouterNATTemplateSpec_DeepCopyInto F) (ComputeRouterNATs x);
     State_Monad.return (x\<lparr>ComputeNetworks := computeNetworks, ComputeSubnetworks := computeSubnetworks,
       ComputeRouters := computeRouters, ComputeRouterNATs := computeRouterNATs\<rparr>)
   }"

definition Container_DeepCopyInto :: "('x, 'v) foreign \<Rightarrow> ('x cell, Container_mem) copying" where
  "Container_DeepCopyInto F x = do {
     containerClusters \<leftarrow> copy_slice templates_at Templates (zero_template F)
       (ContainerClusterTemplateSpec_DeepCopyInto F) (ContainerClusters x);
     containerNodePools \<leftarrow> copy_slice templates_at Templates (zero_template F)
       (ContainerNodePoolTemplateSpec_DeepCopyInto F) (ContainerNodePools x);
     State_Monad.return (x\<lparr>ContainerClusters := containerClusters, ContainerNodePools := containerNodePools\<rparr>)
   }"

definition IAM_DeepCopyInto :: "('x, 'v) foreign \<Rightarrow> ('x cell, IAM_mem) copying" where
  "IAM_DeepCopyInto F x = do {
     accounts \<leftarrow> copy_slice templates_at Templates (zero_template F)
       (IAMServiceAccountTemplateSpec_DeepCopyInto F) (IAMServiceAccounts x);
     State_Monad.return (x\<lparr>IAMServiceAccounts := accounts\<rparr>)
   }"

definition ResourceStatus_DeepCopyInto :: "('x cell, ResourceStatus_mem) copying" where
  "ResourceStatus_DeepCopyInto x = State_Monad.return x"

definition SQL_DeepCopyInto :: "('x, 'v) foreign \<Rightarrow> ('x cell, SQL_mem) copying" where
  "SQL_DeepCopyInto F x = do {
     instances \<leftarrow> copy_slice templates_at Templates (zero_template F)
       (SQLInstanceTemplateSpec_DeepCopyInto F) (SQLInstances x);
     databases \<leftarrow> copy_slice templates_at Templates (zero_template F)
       (SQLDatabaseTemplate_DeepCopyInto F) (SQLDatabases x);
     State_Monad.return (x\<lparr>SQLInstances := instances, SQLDatabases := databases\<rparr>)
   }"

definition SQLRestoreSpec_DeepCopyInto :: "('x cell, SQLRestoreSpec_mem) copying" where
  "SQLRestoreSpec_DeepCopyInto x = State_Monad.return x"

definition SQLRestoresTemplateSpec_DeepCopyInto :: "('x cell, SQLRestoresTemplateSpec_mem) copying" where
  "SQLRestoresTemplateSpec_DeepCopyInto x = do {
     m \<leftarrow> CustomObjectMeta_DeepCopyInto (RestoreMeta x);
     State_Monad.return (x\<lparr>RestoreMeta := m, RestoreSpec := RestoreSpec x\<rparr>)
   }"

definition SQLRestore_DeepCopyInto :: "('x cell, SQLRestore_mem) copying" where
  "SQLRestore_DeepCopyInto x = do {
     restores \<leftarrow> copy_slice restores_at RestoreTemplates zero_restore SQLRestoresTemplateSpec_DeepCopyInto (SQLRestores x);
     State_Monad.return (x\<lparr>SQLRestores := restores\<rparr>)
   }"

definition Storage_DeepCopyInto :: "('x, 'v) foreign \<Rightarrow> ('x cell, Storage_mem) copying" where
  "Storage_DeepCopyInto F x = do {
     storageBuckets \<leftarrow> copy_slice templates_at Templates (zero_template F)
       (StorageBucketTemplateSpec_DeepCopyInto F) (StorageBuckets x);
     State_Monad.return (x\<lparr>StorageBuckets := storageBuckets\<rparr>)
   }"

definition TriggerSpec_DeepCopyInto :: "('x cell, TriggerSpec_mem) copying" where
  "TriggerSpec_DeepCopyInto x = do {
     respositories \<leftarrow> copy_values strings_at Strings [] (Respositories x);
     triggerTargetNamespaces \<leftarrow> copy_values strings_at Strings [] (TriggerTargetNamespaces x);
     labelToDeploymentMap \<leftarrow> copy_map map_at StringMap (LabelToDeploymentMap x);
     State_Monad.return (x\<lparr>Respositories := respositories, TriggerTargetNamespaces := triggerTargetNamespaces,
       LabelToDeploymentMap := labelToDeploymentMap\<rparr>)
   }"

definition TriggerStatus_DeepCopyInto :: "('x cell, TriggerStatus_mem) copying" where
  "TriggerStatus_DeepCopyInto x = State_Monad.return x"

definition Trigger_DeepCopyInto :: "('x, 'v) foreign \<Rightarrow> ('x cell, 'x Trigger_mem) copying" where
  "Trigger_DeepCopyInto F x = do {
     objectMeta \<leftarrow> ObjectMeta_DeepCopyInto F (tObjectMeta x);
     spec \<leftarrow> TriggerSpec_DeepCopyInto (tSpec x);
     State_Monad.return (x\<lparr>tTypeMeta := tTypeMeta x, tObjectMeta := objectMeta, tSpec := spec, tStatus := tStatus x\<rparr>)
   }"

definition TriggerList_DeepCopyInto :: "('x, 'v) foreign \<Rightarrow> ('x cell, 'x TriggerList_mem) copying" where
  "TriggerList_DeepCopyInto F x = do {
     listMeta \<leftarrow> ListMeta_DeepCopyInto F (tlListMeta x);
     items \<leftarrow> copy_slice triggers_at Triggers (zero_trigger F) (Trigger_DeepCopyInto F) (tlItems x);
     State_Monad.return (x\<lparr>tlTypeMeta := tlTypeMeta x, tlListMeta := listMeta, tlItems := items\<rparr>)
   }"

definition UniverseSpec_DeepCopyInto :: "('x, 'v) foreign \<Rightarrow> ('x cell, UniverseSpec_mem) copying" where
  "UniverseSpec_DeepCopyInto F x = do {
     container \<leftarrow> Container_DeepCopyInto F (uContainer x);
     compute \<leftarrow> Compute_DeepCopyInto F (uCompute x);
     sql \<leftarrow> SQL_DeepCopyInto F (uSQL x);
     storage \<leftarrow> Storage_DeepCopyInto F (uStorage x);
     sqlRestore \<leftarrow> SQLRestore_DeepCopyInto (uSQLRestore x);
     iam \<leftarrow> IAM_DeepCopyInto F (uIAM x);
     targetNamespaces \<leftarrow> copy_values strings_at Strings [] (TargetNamespaces x);
     State_Monad.return (x\<lparr>uContainer := container, uCompute := compute, uSQL := sql, uStorage := storage,
       uSQLRestore := sqlRestore, uIAM := iam, TargetNamespaces := targetNamespaces\<rparr>)
   }"

definition UniverseStatus_DeepCopyInto :: "('x cell, UniverseStatus_mem) copying" where
  "UniverseStatus_DeepCopyInto x = do {
     resources \<leftarrow> copy_values statuses_at Statuses zero_status (Resources x);
     State_Monad.return (x\<lparr>Resources := resources\<rparr>)
   }"

definition Universe_DeepCopyInto :: "('x, 'v) foreign \<Rightarrow> ('x cell, 'x Universe_mem) copying" where
  "Universe_DeepCopyInto F x = do {
     objectMeta \<leftarrow> ObjectMeta_DeepCopyInto F (uObjectMeta x);
     spec \<leftarrow> UniverseSpec_DeepCopyInto F (uSpec x);
     status \<leftarrow> UniverseStatus_DeepCopyInto (uStatus x);
     State_Monad.return (x\<lparr>uTypeMeta := uTypeMeta x, uObjectMeta := objectMeta, uSpec := spec, uStatus := status\<rparr>)
   }"

definition UniverseList_DeepCopyInto :: "('x, 'v) foreign \<Rightarrow> ('x cell, 'x UniverseList_mem) copying" where
  "UniverseList_DeepCopyInto F x = do {
     listMeta \<leftarrow> ListMeta_DeepCopyInto F (ulListMeta x);
     items \<leftarrow> copy_slice universes_at Universes (zero_universe F) (Universe_DeepCopyInto F) (ulItems x);
     State_Monad.return (x\<lparr>ulTypeMeta := ulTypeMeta x, ulListMeta := listMeta, ulItems := items\<rparr>)
   }"

section \<open>DeepCopy and DeepCopyObject\<close>

definition Compute_DeepCopy :: "('x, 'v) foreign \<Rightarrow> ('x cell, ref) copying" where
  "Compute_DeepCopy F = deep_copy compute_at ComputeCell (Compute_DeepCopyInto F)"

definition ComputeNetworkTemplateSpec_DeepCopy :: "('x, 'v) foreign \<Rightarrow> ('x cell, ref) copying" where
  "ComputeNetworkTemplateSpec_DeepCopy F = deep_copy template_at TemplateSpecCell (ComputeNetworkTemplateSpec_DeepCopyInto F)"

definition ComputeRouterNATTemplateSpec_DeepCopy :: "('x, 'v) foreign \<Rightarrow> ('x cell, ref) copying" where
  "ComputeRouterNATTemplateSpec_DeepCopy F = deep_copy template_at TemplateSpecCell (ComputeRouterNATTemplateSpec_DeepCopyInto F)"

definition ComputeRouterTemplateSpec_DeepCopy :: "('x, 'v) foreign \<Rightarrow> ('x cell, ref) copying" where
  "ComputeRouterTemplateSpec_DeepCopy F = deep_copy template_at TemplateSpecCell (ComputeRouterTemplateSpec_DeepCopyInto F)"

definition ComputeSubnetworkTemplateSpec_DeepCopy :: "('x, 'v) foreign \<Rightarrow> ('x cell, ref) copying" where
  "ComputeSubnetworkTemplateSpec_DeepCopy F = deep_copy template_at TemplateSpecCell (ComputeSubnetworkTemplateSpec_DeepCopyInto F)"

definition ContainerClusterTemplateSpec_DeepCopy :: "('x, 'v) foreign \<Rightarrow> ('x cell, ref) copying" where
  "ContainerClusterTemplateSpec_DeepCopy F = deep_copy template_at TemplateSpecCell (ContainerClusterTemplateSpec_DeepCopyInto F)"

definition ContainerNodePoolTemplateSpec_DeepCopy :: "('x, 'v) foreign \<Rightarrow> ('x cell, ref) copying" where
  "ContainerNodePoolTemplateSpec_DeepCopy F = deep_copy template_at TemplateSpecCell (ContainerNodePoolTemplateSpec_DeepCopyInto F)"

definition IAMServiceAccountTemplateSpec_DeepCopy :: "('x, 'v) foreign \<Rightarrow> ('x cell, ref) copying" where
  "IAMServiceAccountTemplateSpec_DeepCopy F = deep_copy template_at TemplateSpecCell (IAMServiceAccountTemplateSpec_DeepCopyInto F)"

definition SQLDatabaseTemplate_DeepCopy :: "('x, 'v) foreign \<Rightarrow> ('x cell, ref) copying" where
  "SQLDatabaseTemplate_DeepCopy F = deep_copy template_at TemplateSpecCell (SQLDatabaseTemplate_DeepCopyInto F)"

definition SQLInstanceTemplateSpec_DeepCopy :: "('x, 'v) foreign \<Rightarrow> ('x cell, ref) copying" where
  "SQLInstanceTemplateSpec_DeepCopy F = deep_copy template_at TemplateSpecCell (SQLInstanceTemplateSpec_DeepCopyInto F)"

definition StorageBucketTemplateSpec_DeepCopy :: "('x, 'v) foreign \<Rightarrow> ('x cell, ref) copying" where
  "StorageBucketTemplateSpec_DeepCopy F = deep_copy template_at TemplateSpecCell (StorageBucketTemplateSpec_DeepCopyInto F)"

definition Container_DeepCopy :: "('x, 'v) foreign \<Rightarrow> ('x cell, ref) copying" where
  "Container_DeepCopy F = deep_copy container_at ContainerCell (Container_DeepCopyInto F)"

definition CustomObjectMeta_DeepCopy :: "('x cell, ref) copying" where
  "CustomObjectMeta_DeepCopy = deep_copy meta_at CustomObjectMetaCell CustomObjectMeta_DeepCopyInto"

definition IAM_DeepCopy :: "('x, 'v) foreign \<Rightarrow> ('x cell, ref) copying" where
  "IAM_DeepCopy F = deep_copy iam_at IAMCell (IAM_DeepCopyInto F)"

definition ResourceStatus_DeepCopy :: "('x cell, ref) copying" where
  "ResourceStatus_DeepCopy = deep_copy status_at ResourceStatusCell ResourceStatus_DeepCopyInto"

definition SQL_DeepCopy :: "('x, 'v) foreign \<Rightarrow> ('x cell, ref) copying" where
  "SQL_DeepCopy F = deep_copy sql_at SQLCell (SQL_DeepCopyInto F)"

definition SQLRestoreSpec_DeepCopy :: "('x cell, ref) copying" where
  "SQLRestoreSpec_DeepCopy = deep_copy restorespec_at SQLRestoreSpecCell SQLRestoreSpec_DeepCopyInto"

definition SQLRestoresTemplateSpec_DeepCopy :: "('x cell, ref) copying" where
  "SQLRestoresTemplateSpec_DeepCopy = deep_copy restore_at SQLRestoresTemplateSpecCell SQLRestoresTemplateSpec_DeepCopyInto"

definition SQLRestore_DeepCopy :: "('x cell, ref) copying" where
  "SQLRestore_DeepCopy = deep_copy sqlrestore_at SQLRestoreCell SQLRestore_DeepCopyInto"

definition Storage_DeepCopy :: "('x, 'v) foreign \<Rightarrow> ('x cell, ref) copying" where
  "Storage_DeepCopy F = deep_copy storage_at StorageCell (Storage_DeepCopyInto F)"

definition Trigger_DeepCopy :: "('x, 'v) foreign \<Rightarrow> ('x cell, ref) copying" where
  "Trigger_DeepCopy F = deep_copy trigger_at TriggerCell (Trigger_DeepCopyInto F)"

definition TriggerList_DeepCopy :: "('x, 'v) foreign \<Rightarrow> ('x cell, ref) copying" where
  "TriggerList_DeepCopy F = deep_copy triggerlist_at TriggerListCell (TriggerList_DeepCopyInto F)"

definition TriggerSpec_DeepCopy :: "('x cell, ref) copying" where
  "TriggerSpec_DeepCopy = deep_copy triggerspec_at TriggerSpecCell TriggerSpec_DeepCopyInto"

definition TriggerStatus_DeepCopy :: "('x cell, ref) copying" where
  "TriggerStatus_DeepCopy = deep_copy triggerstatus_at TriggerStatusCell TriggerStatus_DeepCopyInto"

definition Universe_DeepCopy :: "('x, 'v) foreign \<Rightarrow> ('x cell, ref) copying" where
  "Universe_DeepCopy F = deep_copy universe_at UniverseCell (Universe_DeepCopyInto F)"

definition UniverseList_DeepCopy :: "('x, 'v) foreign \<Rightarrow> ('x cell, ref) copying" where
  "UniverseList_DeepCopy F = deep_copy universelist_at UniverseListCell (UniverseList_DeepCopyInto F)"

definition UniverseSpec_DeepCopy :: "('x, 'v) foreign \<Rightarrow> ('x cell, ref) copying" where
  "UniverseSpec_DeepCopy F = deep_copy universespec_at UniverseSpecCell (UniverseSpec_DeepCopyInto F)"

definition UniverseStatus_DeepCopy :: "('x cell, ref) copying" where
  "UniverseStatus_DeepCopy = deep_copy universestatus_at UniverseStatusCell UniverseStatus_DeepCopyInto"

text \<open>
  A value of the interface \<open>runtime.Object\<close> is nil or a pointer with its type; a nil pointer with a type
  is not nil.
\<close>

type_synonym runtime_object = "(string \<times> ref) option"

definition pointer_of :: "runtime_object \<Rightarrow> ref" where
  "pointer_of ob = (case ob of None \<Rightarrow> None | Some (T, p) \<Rightarrow> p)"

definition Trigger_DeepCopyObject :: "('x, 'v) foreign \<Rightarrow> ref \<Rightarrow> ('x mem, runtime_object) state" where
  "Trigger_DeepCopyObject F p = do {
     c \<leftarrow> Trigger_DeepCopy F p;
     State_Monad.return (if c \<noteq> None then Some (''Trigger'', c) else None)
   }"

definition TriggerList_DeepCopyObject :: "('x, 'v) foreign \<Rightarrow> ref \<Rightarrow> ('x mem, runtime_object) state" where
  "TriggerList_DeepCopyObject F p = do {
     c \<leftarrow> TriggerList_DeepCopy F p;
     State_Monad.return (if c \<noteq> None then Some (''TriggerList'', c) else None)
   }"

definition Universe_DeepCopyObject :: "('x, 'v) foreign \<Rightarrow> ref \<Rightarrow> ('x mem, runtime_object) state" where
  "Universe_DeepCopyObject F p = do {
     c \<leftarrow> Universe_DeepCopy F p;
     State_Monad.return (if c \<noteq> None then Some (''Universe'', c) else None)
   }"

definition UniverseList_DeepCopyObject :: "('x, 'v) foreign \<Rightarrow> ref \<Rightarrow> ('x mem, runtime_object) state" where
  "UniverseList_DeepCopyObject F p = do {
     c \<leftarrow> UniverseList_DeepCopy F p;
     State_Monad.return (if c \<noteq> None then Some (''UniverseList'', c) else None)
   }"

end
