(* ===== verification/DeepCopyLaws.thy ===== *)
theory DeepCopyLaws
  imports DeepCopy
begin

text \<open>
  The deep copies of \<^verbatim>\<open>zz_generated.deepcopy.go\<close> keep their contract: one lemma per type, from those of
  the types within it, and the interpretations of \<open>deep_copied\<close>.
\<close>

section \<open>Reading looks no further than what is reached\<close>

named_theorems local_rules

lemma local_map [local_rules]: "local_reading map_reach (map_tree at)"
  using deep_local [OF deep_map [where at = "\<lambda>x. x" and mk = "\<lambda>x. x"]]
  by (auto simp: local_reading_def map_reach_def map_tree_def split: option.split)

lemma local_nowhere [local_rules]: "local_reading nowhere (\<lambda>h. leaf)"
  by (simp add: local_reading_def)

lemmas local_slices [local_rules] = slice_local

lemma local_foreign [local_rules]: "foreign_deep F \<Longrightarrow> local_reading (foreign_reach F) (foreign_tree F)"
  by (auto simp: foreign_deep_def dest: deep_local)

lemma local_meta [local_rules]: "local_reading meta_reach meta_tree"
  unfolding local_reading_def meta_reach_def meta_tree_def by (auto dest!: localD [OF local_map])

lemma local_template [local_rules]:
  assumes "foreign_deep F" shows "local_reading (template_reach F) (template_tree F)"
  unfolding local_reading_def template_reach_def template_tree_def
  by (auto dest!: localD [OF local_meta] localD [OF local_foreign [OF assms]])

lemma local_templates:
  assumes "foreign_deep F" shows "local_reading (templates_reach F) (templates_tree F)"
  by (rule slice_local [OF local_template [OF assms]])

lemma local_compute [local_rules]:
  assumes "foreign_deep F" shows "local_reading (compute_reach F) (compute_tree F)"
  unfolding local_reading_def compute_reach_def compute_tree_def
  by (auto dest!: localD [OF local_templates [OF assms]])

section \<open>Every DeepCopyInto is deep\<close>

lemma deep_meta: "deep meta_reach meta_tree CustomObjectMeta_DeepCopyInto"
proof (rule deep_struct [OF local_meta])
  fix h :: "'x mem" and x
  assume "allocated h (meta_reach h x)"
  then show "copying h [] (\<lambda>h. True) (CustomObjectMeta_DeepCopyInto x)
      (\<lambda>bs y h'. meta_reach h' y = bs \<and> meta_tree h' y = meta_tree h x)"
    unfolding CustomObjectMeta_DeepCopyInto_def
    by (intro copying_bind [OF deep_map] copying_intros local_rules copying_return)
      (auto simp: meta_reach_def meta_tree_def reads_def)
qed

lemma foreign_copies:
  assumes "foreign_deep F"
  shows "deep (foreign_reach F) (foreign_tree F) (ComputeNetworkSpec_DeepCopyInto F)"
    and "deep (foreign_reach F) (foreign_tree F) (ComputeRouterNATSpec_DeepCopyInto F)"
    and "deep (foreign_reach F) (foreign_tree F) (ComputeRouterSpec_DeepCopyInto F)"
    and "deep (foreign_reach F) (foreign_tree F) (ComputeSubnetworkSpec_DeepCopyInto F)"
    and "deep (foreign_reach F) (foreign_tree F) (ContainerClusterSpec_DeepCopyInto F)"
    and "deep (foreign_reach F) (foreign_tree F) (ContainerNodePoolSpec_DeepCopyInto F)"
    and "deep (foreign_reach F) (foreign_tree F) (IAMServiceAccountSpec_DeepCopyInto F)"
    and "deep (foreign_reach F) (foreign_tree F) (SQLDatabaseSpec_DeepCopyInto F)"
    and "deep (foreign_reach F) (foreign_tree F) (SQLInstanceSpec_DeepCopyInto F)"
    and "deep (foreign_reach F) (foreign_tree F) (StorageBucketSpec_DeepCopyInto F)"
    and "deep (foreign_reach F) (foreign_tree F) (ObjectMeta_DeepCopyInto F)"
    and "deep (foreign_reach F) (foreign_tree F) (ListMeta_DeepCopyInto F)"
  using assms by (simp_all add: foreign_deep_def)

text \<open>The ten templates differ in the specification only.\<close>

lemma template_copied:
  assumes F: "foreign_deep F" and spec: "deep (foreign_reach F) (foreign_tree F) spec_DeepCopyInto"
    and into: "\<And>x. into x = State_Monad.bind (CustomObjectMeta_DeepCopyInto (CustomMeta x)) (\<lambda>m.
      State_Monad.bind (spec_DeepCopyInto (Spec x)) (\<lambda>s. State_Monad.return (x\<lparr>CustomMeta := m, Spec := s\<rparr>)))"
  shows "deep (template_reach F) (template_tree F) into"
proof (rule deep_struct [OF local_template [OF F]])
  fix h x
  assume "allocated h (template_reach F h x)"
  then show "copying h [] (\<lambda>h. True) (into x)
      (\<lambda>bs y h'. template_reach F h' y = bs \<and> template_tree F h' y = template_tree F h x)"
    unfolding into
    by (intro copying_bind [OF deep_meta] copying_bind [OF spec] copying_intros local_rules copying_return F)
      (auto simp: template_reach_def template_tree_def reads_def)
qed

lemma deep_templates:
  assumes "foreign_deep F"
  shows "deep (template_reach F) (template_tree F) (ComputeNetworkTemplateSpec_DeepCopyInto F)"
    and "deep (template_reach F) (template_tree F) (ComputeRouterNATTemplateSpec_DeepCopyInto F)"
    and "deep (template_reach F) (template_tree F) (ComputeRouterTemplateSpec_DeepCopyInto F)"
    and "deep (template_reach F) (template_tree F) (ComputeSubnetworkTemplateSpec_DeepCopyInto F)"
    and "deep (template_reach F) (template_tree F) (ContainerClusterTemplateSpec_DeepCopyInto F)"
    and "deep (template_reach F) (template_tree F) (ContainerNodePoolTemplateSpec_DeepCopyInto F)"
    and "deep (template_reach F) (template_tree F) (IAMServiceAccountTemplateSpec_DeepCopyInto F)"
    and "deep (template_reach F) (template_tree F) (SQLDatabaseTemplate_DeepCopyInto F)"
    and "deep (template_reach F) (template_tree F) (SQLInstanceTemplateSpec_DeepCopyInto F)"
    and "deep (template_reach F) (template_tree F) (StorageBucketTemplateSpec_DeepCopyInto F)"
  by (rule template_copied [OF assms]; simp add: foreign_copies [OF assms] ComputeNetworkTemplateSpec_DeepCopyInto_def ComputeRouterNATTemplateSpec_DeepCopyInto_def ComputeRouterTemplateSpec_DeepCopyInto_def ComputeSubnetworkTemplateSpec_DeepCopyInto_def ContainerClusterTemplateSpec_DeepCopyInto_def ContainerNodePoolTemplateSpec_DeepCopyInto_def IAMServiceAccountTemplateSpec_DeepCopyInto_def SQLDatabaseTemplate_DeepCopyInto_def SQLInstanceTemplateSpec_DeepCopyInto_def StorageBucketTemplateSpec_DeepCopyInto_def)+

text \<open>A slice of templates, whichever of the ten its elements are.\<close>

lemma deep_template_slices:
  assumes F: "foreign_deep F"
  shows "deep (templates_reach F) (templates_tree F) (copy_slice templates_at Templates (zero_template F) (ComputeNetworkTemplateSpec_DeepCopyInto F))"
    and "deep (templates_reach F) (templates_tree F) (copy_slice templates_at Templates (zero_template F) (ComputeRouterNATTemplateSpec_DeepCopyInto F))"
    and "deep (templates_reach F) (templates_tree F) (copy_slice templates_at Templates (zero_template F) (ComputeRouterTemplateSpec_DeepCopyInto F))"
    and "deep (templates_reach F) (templates_tree F) (copy_slice templates_at Templates (zero_template F) (ComputeSubnetworkTemplateSpec_DeepCopyInto F))"
    and "deep (templates_reach F) (templates_tree F) (copy_slice templates_at Templates (zero_template F) (ContainerClusterTemplateSpec_DeepCopyInto F))"
    and "deep (templates_reach F) (templates_tree F) (copy_slice templates_at Templates (zero_template F) (ContainerNodePoolTemplateSpec_DeepCopyInto F))"
    and "deep (templates_reach F) (templates_tree F) (copy_slice templates_at Templates (zero_template F) (IAMServiceAccountTemplateSpec_DeepCopyInto F))"
    and "deep (templates_reach F) (templates_tree F) (copy_slice templates_at Templates (zero_template F) (SQLDatabaseTemplate_DeepCopyInto F))"
    and "deep (templates_reach F) (templates_tree F) (copy_slice templates_at Templates (zero_template F) (SQLInstanceTemplateSpec_DeepCopyInto F))"
    and "deep (templates_reach F) (templates_tree F) (copy_slice templates_at Templates (zero_template F) (StorageBucketTemplateSpec_DeepCopyInto F))"
  by (rule deep_slice, rule deep_templates [OF F], simp)+

lemma deep_strings: "deep strings_reach strings_tree (copy_values strings_at Strings [])"
  by (rule deep_values) simp

lemmas local_strings = deep_local [OF deep_strings]

lemma deep_compute:
  assumes F: "foreign_deep F"
  shows "deep (compute_reach F) (compute_tree F) (Compute_DeepCopyInto F)"
proof (rule deep_struct [OF local_compute [OF F]])
  fix h and x
  assume "allocated h (compute_reach F h x)"
  then show "copying h [] (\<lambda>h. True) (Compute_DeepCopyInto F x)
      (\<lambda>bs y h'. compute_reach F h' y = bs \<and> compute_tree F h' y = compute_tree F h x)"
    unfolding Compute_DeepCopyInto_def
    by (intro copying_bind [OF deep_template_slices(1) [OF F]] copying_bind [OF deep_template_slices(4) [OF F]] copying_bind [OF deep_template_slices(3) [OF F]] copying_bind [OF deep_template_slices(2) [OF F]]
        copying_intros local_rules copying_return F)
      (auto simp: compute_reach_def compute_tree_def reads_def)
qed

lemma local_container [local_rules]:
  assumes F: "foreign_deep F"
  shows "local_reading (container_reach F) (container_tree F)"
  unfolding local_reading_def container_reach_def container_tree_def
  by (auto dest!: localD [OF local_templates [OF F]])

lemma deep_container:
  assumes F: "foreign_deep F"
  shows "deep (container_reach F) (container_tree F) (Container_DeepCopyInto F)"
proof (rule deep_struct [OF local_container [OF F]])
  fix h and x
  assume "allocated h (container_reach F h x)"
  then show "copying h [] (\<lambda>h. True) (Container_DeepCopyInto F x)
      (\<lambda>bs y h'. container_reach F h' y = bs \<and> container_tree F h' y = container_tree F h x)"
    unfolding Container_DeepCopyInto_def
    by (intro copying_bind [OF deep_template_slices(5) [OF F]] copying_bind [OF deep_template_slices(6) [OF F]]
        copying_intros local_rules copying_return F)
      (auto simp: container_reach_def container_tree_def reads_def)
qed

lemma local_iam [local_rules]:
  assumes F: "foreign_deep F"
  shows "local_reading (iam_reach F) (iam_tree F)"
  unfolding local_reading_def iam_reach_def iam_tree_def
  by (auto dest!: localD [OF local_templates [OF F]])

lemma deep_iam:
  assumes F: "foreign_deep F"
  shows "deep (iam_reach F) (iam_tree F) (IAM_DeepCopyInto F)"
proof (rule deep_struct [OF local_iam [OF F]])
  fix h and x
  assume "allocated h (iam_reach F h x)"
  then show "copying h [] (\<lambda>h. True) (IAM_DeepCopyInto F x)
      (\<lambda>bs y h'. iam_reach F h' y = bs \<and> iam_tree F h' y = iam_tree F h x)"
    unfolding IAM_DeepCopyInto_def
    by (intro copying_bind [OF deep_template_slices(7) [OF F]]
        copying_intros local_rules copying_return F)
      (auto simp: iam_reach_def iam_tree_def reads_def)
qed

lemma local_sql [local_rules]:
  assumes F: "foreign_deep F"
  shows "local_reading (sql_reach F) (sql_tree F)"
  unfolding local_reading_def sql_reach_def sql_tree_def
  by (auto dest!: localD [OF local_templates [OF F]])

lemma deep_sql:
  assumes F: "foreign_deep F"
  shows "deep (sql_reach F) (sql_tree F) (SQL_DeepCopyInto F)"
proof (rule deep_struct [OF local_sql [OF F]])
  fix h and x
  assume "allocated h (sql_reach F h x)"
  then show "copying h [] (\<lambda>h. True) (SQL_DeepCopyInto F x)
      (\<lambda>bs y h'. sql_reach F h' y = bs \<and> sql_tree F h' y = sql_tree F h x)"
    unfolding SQL_DeepCopyInto_def
    by (intro copying_bind [OF deep_template_slices(9) [OF F]] copying_bind [OF deep_template_slices(8) [OF F]]
        copying_intros local_rules copying_return F)
      (auto simp: sql_reach_def sql_tree_def reads_def)
qed

lemma local_storage [local_rules]:
  assumes F: "foreign_deep F"
  shows "local_reading (storage_reach F) (storage_tree F)"
  unfolding local_reading_def storage_reach_def storage_tree_def
  by (auto dest!: localD [OF local_templates [OF F]])

lemma deep_storage:
  assumes F: "foreign_deep F"
  shows "deep (storage_reach F) (storage_tree F) (Storage_DeepCopyInto F)"
proof (rule deep_struct [OF local_storage [OF F]])
  fix h and x
  assume "allocated h (storage_reach F h x)"
  then show "copying h [] (\<lambda>h. True) (Storage_DeepCopyInto F x)
      (\<lambda>bs y h'. storage_reach F h' y = bs \<and> storage_tree F h' y = storage_tree F h x)"
    unfolding Storage_DeepCopyInto_def
    by (intro copying_bind [OF deep_template_slices(10) [OF F]]
        copying_intros local_rules copying_return F)
      (auto simp: storage_reach_def storage_tree_def reads_def)
qed

lemma local_restore [local_rules]:
    "local_reading (restore_reach) (restore_tree)"
  unfolding local_reading_def restore_reach_def restore_tree_def
  by (auto dest!: localD [OF local_meta])

lemma deep_restore:
    "deep (restore_reach) (restore_tree) SQLRestoresTemplateSpec_DeepCopyInto"
proof (rule deep_struct [OF local_restore])
  fix h :: "'x mem" and x
  assume "allocated h (restore_reach h x)"
  then show "copying h [] (\<lambda>h. True) (SQLRestoresTemplateSpec_DeepCopyInto x)
      (\<lambda>bs y h'. restore_reach h' y = bs \<and> restore_tree h' y = restore_tree h x)"
    unfolding SQLRestoresTemplateSpec_DeepCopyInto_def
    by (intro copying_bind [OF deep_meta]
        copying_intros local_rules copying_return)
      (auto simp: restore_reach_def restore_tree_def reads_def)
qed

lemma deep_restores:
  "deep (slice_reach restores_at restore_reach) (slice_tree restores_at restore_tree)
    (copy_slice restores_at RestoreTemplates zero_restore SQLRestoresTemplateSpec_DeepCopyInto)"
  by (rule deep_slice [OF deep_restore]) simp

lemma local_sqlrestore [local_rules]:
    "local_reading (sqlrestore_reach) (sqlrestore_tree)"
  unfolding local_reading_def sqlrestore_reach_def sqlrestore_tree_def
  by (auto dest!: localD [OF deep_local [OF deep_restores]])

lemma deep_sqlrestore:
    "deep (sqlrestore_reach) (sqlrestore_tree) SQLRestore_DeepCopyInto"
proof (rule deep_struct [OF local_sqlrestore])
  fix h :: "'x mem" and x
  assume "allocated h (sqlrestore_reach h x)"
  then show "copying h [] (\<lambda>h. True) (SQLRestore_DeepCopyInto x)
      (\<lambda>bs y h'. sqlrestore_reach h' y = bs \<and> sqlrestore_tree h' y = sqlrestore_tree h x)"
    unfolding SQLRestore_DeepCopyInto_def
    by (intro copying_bind [OF deep_restores]
        copying_intros local_rules copying_return)
      (auto simp: sqlrestore_reach_def sqlrestore_tree_def reads_def)
qed

lemma local_universespec [local_rules]:
  assumes F: "foreign_deep F"
  shows "local_reading (universespec_reach F) (universespec_tree F)"
  unfolding local_reading_def universespec_reach_def universespec_tree_def
  by (auto dest!: localD [OF local_container [OF F]] localD [OF local_compute [OF F]] localD [OF local_sql [OF F]] localD [OF local_storage [OF F]] localD [OF local_sqlrestore] localD [OF local_iam [OF F]] localD [OF local_strings])

lemma deep_universespec:
  assumes F: "foreign_deep F"
  shows "deep (universespec_reach F) (universespec_tree F) (UniverseSpec_DeepCopyInto F)"
proof (rule deep_struct [OF local_universespec [OF F]])
  fix h and x
  assume "allocated h (universespec_reach F h x)"
  then show "copying h [] (\<lambda>h. True) (UniverseSpec_DeepCopyInto F x)
      (\<lambda>bs y h'. universespec_reach F h' y = bs \<and> universespec_tree F h' y = universespec_tree F h x)"
    unfolding UniverseSpec_DeepCopyInto_def
    by (intro copying_bind [OF deep_container [OF F]] copying_bind [OF deep_compute [OF F]] copying_bind [OF deep_sql [OF F]] copying_bind [OF deep_storage [OF F]] copying_bind [OF deep_sqlrestore] copying_bind [OF deep_iam [OF F]] copying_bind [OF deep_strings]
        copying_intros local_rules copying_return F)
      (auto simp: universespec_reach_def universespec_tree_def reads_def)
qed

lemma deep_statuses:
  "deep (slice_reach statuses_at nowhere) (slice_tree statuses_at (\<lambda>h. status_tree)) (copy_values statuses_at Statuses zero_status)"
  by (rule deep_values) simp

lemma local_universestatus [local_rules]:
    "local_reading (universestatus_reach) (universestatus_tree)"
  unfolding local_reading_def universestatus_reach_def universestatus_tree_def
  by (auto dest!: localD [OF deep_local [OF deep_statuses]])

lemma deep_universestatus:
    "deep (universestatus_reach) (universestatus_tree) UniverseStatus_DeepCopyInto"
proof (rule deep_struct [OF local_universestatus])
  fix h :: "'x mem" and x
  assume "allocated h (universestatus_reach h x)"
  then show "copying h [] (\<lambda>h. True) (UniverseStatus_DeepCopyInto x)
      (\<lambda>bs y h'. universestatus_reach h' y = bs \<and> universestatus_tree h' y = universestatus_tree h x)"
    unfolding UniverseStatus_DeepCopyInto_def
    by (intro copying_bind [OF deep_statuses]
        copying_intros local_rules copying_return)
      (auto simp: universestatus_reach_def universestatus_tree_def reads_def)
qed

lemma local_universe [local_rules]:
  assumes F: "foreign_deep F"
  shows "local_reading (universe_reach F) (universe_tree F)"
  unfolding local_reading_def universe_reach_def universe_tree_def
  by (auto dest!: localD [OF local_foreign [OF F]] localD [OF local_universespec [OF F]] localD [OF local_universestatus])

lemma deep_universe:
  assumes F: "foreign_deep F"
  shows "deep (universe_reach F) (universe_tree F) (Universe_DeepCopyInto F)"
proof (rule deep_struct [OF local_universe [OF F]])
  fix h and x
  assume "allocated h (universe_reach F h x)"
  then show "copying h [] (\<lambda>h. True) (Universe_DeepCopyInto F x)
      (\<lambda>bs y h'. universe_reach F h' y = bs \<and> universe_tree F h' y = universe_tree F h x)"
    unfolding Universe_DeepCopyInto_def
    by (intro copying_bind [OF foreign_copies(11) [OF F]] copying_bind [OF deep_universespec [OF F]] copying_bind [OF deep_universestatus]
        copying_intros local_rules copying_return F)
      (auto simp: universe_reach_def universe_tree_def reads_def)
qed

lemma deep_universes:
  assumes F: "foreign_deep F"
  shows "deep (slice_reach universes_at (universe_reach F)) (slice_tree universes_at (universe_tree F))
    (copy_slice universes_at Universes (zero_universe F) (Universe_DeepCopyInto F))"
  by (rule deep_slice [OF deep_universe [OF F]]) simp

lemma local_universelist [local_rules]:
  assumes F: "foreign_deep F"
  shows "local_reading (universelist_reach F) (universelist_tree F)"
  unfolding local_reading_def universelist_reach_def universelist_tree_def
  by (auto dest!: localD [OF local_foreign [OF F]] localD [OF deep_local [OF deep_universes [OF F]]])

lemma deep_universelist:
  assumes F: "foreign_deep F"
  shows "deep (universelist_reach F) (universelist_tree F) (UniverseList_DeepCopyInto F)"
proof (rule deep_struct [OF local_universelist [OF F]])
  fix h and x
  assume "allocated h (universelist_reach F h x)"
  then show "copying h [] (\<lambda>h. True) (UniverseList_DeepCopyInto F x)
      (\<lambda>bs y h'. universelist_reach F h' y = bs \<and> universelist_tree F h' y = universelist_tree F h x)"
    unfolding UniverseList_DeepCopyInto_def
    by (intro copying_bind [OF foreign_copies(12) [OF F]] copying_bind [OF deep_universes [OF F]]
        copying_intros local_rules copying_return F)
      (auto simp: universelist_reach_def universelist_tree_def reads_def)
qed

lemma local_triggerspec [local_rules]:
    "local_reading (triggerspec_reach) (triggerspec_tree)"
  unfolding local_reading_def triggerspec_reach_def triggerspec_tree_def
  by (auto dest!: localD [OF local_strings] localD [OF local_map])

lemma deep_triggerspec:
    "deep (triggerspec_reach) (triggerspec_tree) TriggerSpec_DeepCopyInto"
proof (rule deep_struct [OF local_triggerspec])
  fix h :: "'x mem" and x
  assume "allocated h (triggerspec_reach h x)"
  then show "copying h [] (\<lambda>h. True) (TriggerSpec_DeepCopyInto x)
      (\<lambda>bs y h'. triggerspec_reach h' y = bs \<and> triggerspec_tree h' y = triggerspec_tree h x)"
    unfolding TriggerSpec_DeepCopyInto_def
    by (intro copying_bind [OF deep_strings] copying_bind [OF deep_map]
        copying_intros local_rules copying_return)
      (auto simp: triggerspec_reach_def triggerspec_tree_def reads_def)
qed

lemma local_trigger [local_rules]:
  assumes F: "foreign_deep F"
  shows "local_reading (trigger_reach F) (trigger_tree F)"
  unfolding local_reading_def trigger_reach_def trigger_tree_def
  by (auto dest!: localD [OF local_foreign [OF F]] localD [OF local_triggerspec])

lemma deep_trigger:
  assumes F: "foreign_deep F"
  shows "deep (trigger_reach F) (trigger_tree F) (Trigger_DeepCopyInto F)"
proof (rule deep_struct [OF local_trigger [OF F]])
  fix h and x
  assume "allocated h (trigger_reach F h x)"
  then show "copying h [] (\<lambda>h. True) (Trigger_DeepCopyInto F x)
      (\<lambda>bs y h'. trigger_reach F h' y = bs \<and> trigger_tree F h' y = trigger_tree F h x)"
    unfolding Trigger_DeepCopyInto_def
    by (intro copying_bind [OF foreign_copies(11) [OF F]] copying_bind [OF deep_triggerspec]
        copying_intros local_rules copying_return F)
      (auto simp: trigger_reach_def trigger_tree_def reads_def)
qed

lemma deep_triggers:
  assumes F: "foreign_deep F"
  shows "deep (slice_reach triggers_at (trigger_reach F)) (slice_tree triggers_at (trigger_tree F))
    (copy_slice triggers_at Triggers (zero_trigger F) (Trigger_DeepCopyInto F))"
  by (rule deep_slice [OF deep_trigger [OF F]]) simp

lemma local_triggerlist [local_rules]:
  assumes F: "foreign_deep F"
  shows "local_reading (triggerlist_reach F) (triggerlist_tree F)"
  unfolding local_reading_def triggerlist_reach_def triggerlist_tree_def
  by (auto dest!: localD [OF local_foreign [OF F]] localD [OF deep_local [OF deep_triggers [OF F]]])

lemma deep_triggerlist:
  assumes F: "foreign_deep F"
  shows "deep (triggerlist_reach F) (triggerlist_tree F) (TriggerList_DeepCopyInto F)"
proof (rule deep_struct [OF local_triggerlist [OF F]])
  fix h and x
  assume "allocated h (triggerlist_reach F h x)"
  then show "copying h [] (\<lambda>h. True) (TriggerList_DeepCopyInto F x)
      (\<lambda>bs y h'. triggerlist_reach F h' y = bs \<and> triggerlist_tree F h' y = triggerlist_tree F h x)"
    unfolding TriggerList_DeepCopyInto_def
    by (intro copying_bind [OF foreign_copies(12) [OF F]] copying_bind [OF deep_triggers [OF F]]
        copying_intros local_rules copying_return F)
      (auto simp: triggerlist_reach_def triggerlist_tree_def reads_def)
qed

lemma deep_plains:
  "deep nowhere (\<lambda>h. status_tree) ResourceStatus_DeepCopyInto"
  "deep nowhere (\<lambda>h. restorespec_tree) SQLRestoreSpec_DeepCopyInto"
  "deep nowhere (\<lambda>h. triggerstatus_tree) TriggerStatus_DeepCopyInto"
  unfolding ResourceStatus_DeepCopyInto_def [abs_def] SQLRestoreSpec_DeepCopyInto_def [abs_def]
    TriggerStatus_DeepCopyInto_def [abs_def]
  by (rule deep_plain)+

section \<open>Every DeepCopy is deep\<close>

lemmas DeepCopy_defs = Compute_DeepCopy_def ComputeNetworkTemplateSpec_DeepCopy_def ComputeRouterNATTemplateSpec_DeepCopy_def ComputeRouterTemplateSpec_DeepCopy_def
  ComputeSubnetworkTemplateSpec_DeepCopy_def ContainerClusterTemplateSpec_DeepCopy_def ContainerNodePoolTemplateSpec_DeepCopy_def IAMServiceAccountTemplateSpec_DeepCopy_def
  SQLDatabaseTemplate_DeepCopy_def SQLInstanceTemplateSpec_DeepCopy_def StorageBucketTemplateSpec_DeepCopy_def Container_DeepCopy_def
  CustomObjectMeta_DeepCopy_def IAM_DeepCopy_def ResourceStatus_DeepCopy_def SQL_DeepCopy_def
  SQLRestoreSpec_DeepCopy_def SQLRestoresTemplateSpec_DeepCopy_def SQLRestore_DeepCopy_def Storage_DeepCopy_def
  Trigger_DeepCopy_def TriggerList_DeepCopy_def TriggerSpec_DeepCopy_def TriggerStatus_DeepCopy_def
  Universe_DeepCopy_def UniverseList_DeepCopy_def UniverseSpec_DeepCopy_def UniverseStatus_DeepCopy_def

lemma deep_pointers:
  assumes F: "foreign_deep F"
  shows "deep (pointer_reach compute_at (compute_reach F)) (pointer_tree compute_at (compute_tree F)) (Compute_DeepCopy F)"
    and "deep (pointer_reach template_at (template_reach F)) (pointer_tree template_at (template_tree F)) (ComputeNetworkTemplateSpec_DeepCopy F)"
    and "deep (pointer_reach template_at (template_reach F)) (pointer_tree template_at (template_tree F)) (ComputeRouterNATTemplateSpec_DeepCopy F)"
    and "deep (pointer_reach template_at (template_reach F)) (pointer_tree template_at (template_tree F)) (ComputeRouterTemplateSpec_DeepCopy F)"
    and "deep (pointer_reach template_at (template_reach F)) (pointer_tree template_at (template_tree F)) (ComputeSubnetworkTemplateSpec_DeepCopy F)"
    and "deep (pointer_reach template_at (template_reach F)) (pointer_tree template_at (template_tree F)) (ContainerClusterTemplateSpec_DeepCopy F)"
    and "deep (pointer_reach template_at (template_reach F)) (pointer_tree template_at (template_tree F)) (ContainerNodePoolTemplateSpec_DeepCopy F)"
    and "deep (pointer_reach template_at (template_reach F)) (pointer_tree template_at (template_tree F)) (IAMServiceAccountTemplateSpec_DeepCopy F)"
    and "deep (pointer_reach template_at (template_reach F)) (pointer_tree template_at (template_tree F)) (SQLDatabaseTemplate_DeepCopy F)"
    and "deep (pointer_reach template_at (template_reach F)) (pointer_tree template_at (template_tree F)) (SQLInstanceTemplateSpec_DeepCopy F)"
    and "deep (pointer_reach template_at (template_reach F)) (pointer_tree template_at (template_tree F)) (StorageBucketTemplateSpec_DeepCopy F)"
    and "deep (pointer_reach container_at (container_reach F)) (pointer_tree container_at (container_tree F)) (Container_DeepCopy F)"
    and "deep (pointer_reach meta_at meta_reach) (pointer_tree meta_at meta_tree) CustomObjectMeta_DeepCopy"
    and "deep (pointer_reach iam_at (iam_reach F)) (pointer_tree iam_at (iam_tree F)) (IAM_DeepCopy F)"
    and "deep (pointer_reach status_at nowhere) (pointer_tree status_at (\<lambda>h. status_tree)) ResourceStatus_DeepCopy"
    and "deep (pointer_reach sql_at (sql_reach F)) (pointer_tree sql_at (sql_tree F)) (SQL_DeepCopy F)"
    and "deep (pointer_reach restorespec_at nowhere) (pointer_tree restorespec_at (\<lambda>h. restorespec_tree)) SQLRestoreSpec_DeepCopy"
    and "deep (pointer_reach restore_at restore_reach) (pointer_tree restore_at restore_tree) SQLRestoresTemplateSpec_DeepCopy"
    and "deep (pointer_reach sqlrestore_at sqlrestore_reach) (pointer_tree sqlrestore_at sqlrestore_tree) SQLRestore_DeepCopy"
    and "deep (pointer_reach storage_at (storage_reach F)) (pointer_tree storage_at (storage_tree F)) (Storage_DeepCopy F)"
    and "deep (pointer_reach trigger_at (trigger_reach F)) (pointer_tree trigger_at (trigger_tree F)) (Trigger_DeepCopy F)"
    and "deep (pointer_reach triggerlist_at (triggerlist_reach F)) (pointer_tree triggerlist_at (triggerlist_tree F)) (TriggerList_DeepCopy F)"
    and "deep (pointer_reach triggerspec_at triggerspec_reach) (pointer_tree triggerspec_at triggerspec_tree) TriggerSpec_DeepCopy"
    and "deep (pointer_reach triggerstatus_at nowhere) (pointer_tree triggerstatus_at (\<lambda>h. triggerstatus_tree)) TriggerStatus_DeepCopy"
    and "deep (pointer_reach universe_at (universe_reach F)) (pointer_tree universe_at (universe_tree F)) (Universe_DeepCopy F)"
    and "deep (pointer_reach universelist_at (universelist_reach F)) (pointer_tree universelist_at (universelist_tree F)) (UniverseList_DeepCopy F)"
    and "deep (pointer_reach universespec_at (universespec_reach F)) (pointer_tree universespec_at (universespec_tree F)) (UniverseSpec_DeepCopy F)"
    and "deep (pointer_reach universestatus_at universestatus_reach) (pointer_tree universestatus_at universestatus_tree) UniverseStatus_DeepCopy"
  unfolding DeepCopy_defs
  by (rule deep_pointer, (rule deep_compute [OF F] deep_templates [OF F] deep_container [OF F] deep_meta deep_iam [OF F]
      deep_plains deep_sql [OF F] deep_restore deep_sqlrestore deep_storage [OF F] deep_trigger [OF F]
      deep_triggerlist [OF F] deep_triggerspec deep_universe [OF F] deep_universelist [OF F]
      deep_universespec [OF F] deep_universestatus), simp)+

interpretation universe_copy: deep_copied foreign_deep "\<lambda>F. pointer_reach universe_at (universe_reach F)"
    "\<lambda>F. pointer_tree universe_at (universe_tree F)" Universe_DeepCopy
  by unfold_locales (rule deep_pointers)

interpretation universes_copy: deep_copied foreign_deep "\<lambda>F. pointer_reach universelist_at (universelist_reach F)"
    "\<lambda>F. pointer_tree universelist_at (universelist_tree F)" UniverseList_DeepCopy
  by unfold_locales (rule deep_pointers)

interpretation trigger_copy: deep_copied foreign_deep "\<lambda>F. pointer_reach trigger_at (trigger_reach F)"
    "\<lambda>F. pointer_tree trigger_at (trigger_tree F)" Trigger_DeepCopy
  by unfold_locales (rule deep_pointers)

interpretation triggers_copy: deep_copied foreign_deep "\<lambda>F. pointer_reach triggerlist_at (triggerlist_reach F)"
    "\<lambda>F. pointer_tree triggerlist_at (triggerlist_tree F)" TriggerList_DeepCopy
  by unfold_locales (rule deep_pointers)

section \<open>Properties\<close>

text \<open>Foreign values for the witnesses: a name and a map of labels, which is copied.\<close>

definition demo_copy :: "((string \<times> ref) cell, string \<times> ref) copying" where
  "demo_copy x = do {
     m \<leftarrow> copy_map map_at StringMap (snd x);
     State_Monad.return (fst x, m)
   }"

definition demo_foreign :: "(string \<times> ref, unit) foreign" where
  "demo_foreign = \<lparr> zero_foreign = ([], None),
     ComputeNetworkSpec_DeepCopyInto = demo_copy, ComputeRouterNATSpec_DeepCopyInto = demo_copy,
     ComputeRouterSpec_DeepCopyInto = demo_copy, ComputeSubnetworkSpec_DeepCopyInto = demo_copy,
     ContainerClusterSpec_DeepCopyInto = demo_copy, ContainerNodePoolSpec_DeepCopyInto = demo_copy,
     IAMServiceAccountSpec_DeepCopyInto = demo_copy, SQLDatabaseSpec_DeepCopyInto = demo_copy,
     SQLInstanceSpec_DeepCopyInto = demo_copy, StorageBucketSpec_DeepCopyInto = demo_copy,
     ObjectMeta_DeepCopyInto = demo_copy, ListMeta_DeepCopyInto = demo_copy,
     foreign_reach = (\<lambda>h x. map_reach h (snd x)),
     foreign_tree = (\<lambda>h x. TStruct [TStr (fst x), map_tree map_at h (snd x)]) \<rparr>"

lemma demo_foreign_deep: "foreign_deep demo_foreign"
proof -
  have local_demo: "local_reading (\<lambda>h x. map_reach h (snd x)) (\<lambda>h x. TStruct [TStr (fst x), map_tree map_at h (snd x)])"
    unfolding local_reading_def by (auto dest!: localD [OF local_map])
  have "deep (\<lambda>h x. map_reach h (snd x)) (\<lambda>h x. TStruct [TStr (fst x), map_tree map_at h (snd x)]) demo_copy"
  proof (rule deep_struct [OF local_demo])
    fix h :: "(string \<times> ref) mem" and x :: "string \<times> ref"
    assume "allocated h (map_reach h (snd x))"
    then show "copying h [] (\<lambda>h. True) (demo_copy x) (\<lambda>bs y h'. map_reach h' (snd y) = bs \<and>
        TStruct [TStr (fst y), map_tree map_at h' (snd y)] = TStruct [TStr (fst x), map_tree map_at h (snd x)])"
      unfolding demo_copy_def
      by (intro copying_bind [OF deep_map] copying_intros local_rules copying_return) (auto simp: reads_def)
  qed
  then show ?thesis by (simp add: foreign_deep_def demo_foreign_def)
qed

text \<open>A Universe with a name, labels, two target namespaces and a cluster template that shares its labels.\<close>

definition demo_memory_universe :: "(string \<times> ref) Universe_mem" where
  "demo_memory_universe = (zero_universe demo_foreign)\<lparr>uObjectMeta := (''shop-7'', Some 0),
     uSpec := (uSpec (zero_universe demo_foreign))\<lparr>TargetNamespaces := Some 1,
       uContainer := \<lparr> ContainerClusters = Some 2, ContainerNodePools = None \<rparr>\<rparr>\<rparr>"

definition demo_memory :: "(string \<times> ref) mem" where
  "demo_memory = \<lparr> cells = (\<lambda>a.
      if a = 0 then StringMap [(''team'', ''shop'')]
      else if a = 1 then Strings [''web'', ''db'']
      else if a = 2 then Templates [\<lparr> CustomMeta = zero_meta\<lparr>Name := ''main'', Labels := Some 0\<rparr>, Spec = (''spec'', None) \<rparr>]
      else if a = 3 then UniverseCell demo_memory_universe
      else if a = 4 then (let u = (zero_universe demo_foreign)\<lparr>uObjectMeta := (''shop-7'', Some 0)\<rparr> in Universes [u, u])
      else if a = 5 then UniverseListCell \<lparr> ulTypeMeta = \<lparr> Kind = ''UniverseList'', APIVersion = ''v1'' \<rparr>,
        ulListMeta = ([], None), ulItems = Some 4 \<rparr>
      else Foreign ([], None)), next_addr = 6 \<rparr>"

text \<open>
  C17. Each of the file's copies is a deep copy: when the copies of the library structs within are, every
  \<open>DeepCopy\<close> leaves the memory as it was, answers nil for nil and otherwise a pointer to a struct that
  reads the same, field by field and element by element, and lies, with all it leads to, in memory
  allocated for it, no cell of which is used twice.
\<close>

theorem deep_copies_deep:
  assumes "foreign_deep F"
  shows "deep (pointer_reach compute_at (compute_reach F)) (pointer_tree compute_at (compute_tree F)) (Compute_DeepCopy F) \<and>
    deep (pointer_reach template_at (template_reach F)) (pointer_tree template_at (template_tree F)) (ComputeNetworkTemplateSpec_DeepCopy F) \<and>
    deep (pointer_reach template_at (template_reach F)) (pointer_tree template_at (template_tree F)) (ComputeRouterNATTemplateSpec_DeepCopy F) \<and>
    deep (pointer_reach template_at (template_reach F)) (pointer_tree template_at (template_tree F)) (ComputeRouterTemplateSpec_DeepCopy F) \<and>
    deep (pointer_reach template_at (template_reach F)) (pointer_tree template_at (template_tree F)) (ComputeSubnetworkTemplateSpec_DeepCopy F) \<and>
    deep (pointer_reach template_at (template_reach F)) (pointer_tree template_at (template_tree F)) (ContainerClusterTemplateSpec_DeepCopy F) \<and>
    deep (pointer_reach template_at (template_reach F)) (pointer_tree template_at (template_tree F)) (ContainerNodePoolTemplateSpec_DeepCopy F) \<and>
    deep (pointer_reach template_at (template_reach F)) (pointer_tree template_at (template_tree F)) (IAMServiceAccountTemplateSpec_DeepCopy F) \<and>
    deep (pointer_reach template_at (template_reach F)) (pointer_tree template_at (template_tree F)) (SQLDatabaseTemplate_DeepCopy F) \<and>
    deep (pointer_reach template_at (template_reach F)) (pointer_tree template_at (template_tree F)) (SQLInstanceTemplateSpec_DeepCopy F) \<and>
    deep (pointer_reach template_at (template_reach F)) (pointer_tree template_at (template_tree F)) (StorageBucketTemplateSpec_DeepCopy F) \<and>
    deep (pointer_reach container_at (container_reach F)) (pointer_tree container_at (container_tree F)) (Container_DeepCopy F) \<and>
    deep (pointer_reach meta_at meta_reach) (pointer_tree meta_at meta_tree) CustomObjectMeta_DeepCopy \<and>
    deep (pointer_reach iam_at (iam_reach F)) (pointer_tree iam_at (iam_tree F)) (IAM_DeepCopy F) \<and>
    deep (pointer_reach status_at nowhere) (pointer_tree status_at (\<lambda>h. status_tree)) ResourceStatus_DeepCopy \<and>
    deep (pointer_reach sql_at (sql_reach F)) (pointer_tree sql_at (sql_tree F)) (SQL_DeepCopy F) \<and>
    deep (pointer_reach restorespec_at nowhere) (pointer_tree restorespec_at (\<lambda>h. restorespec_tree)) SQLRestoreSpec_DeepCopy \<and>
    deep (pointer_reach restore_at restore_reach) (pointer_tree restore_at restore_tree) SQLRestoresTemplateSpec_DeepCopy \<and>
    deep (pointer_reach sqlrestore_at sqlrestore_reach) (pointer_tree sqlrestore_at sqlrestore_tree) SQLRestore_DeepCopy \<and>
    deep (pointer_reach storage_at (storage_reach F)) (pointer_tree storage_at (storage_tree F)) (Storage_DeepCopy F) \<and>
    deep (pointer_reach trigger_at (trigger_reach F)) (pointer_tree trigger_at (trigger_tree F)) (Trigger_DeepCopy F) \<and>
    deep (pointer_reach triggerlist_at (triggerlist_reach F)) (pointer_tree triggerlist_at (triggerlist_tree F)) (TriggerList_DeepCopy F) \<and>
    deep (pointer_reach triggerspec_at triggerspec_reach) (pointer_tree triggerspec_at triggerspec_tree) TriggerSpec_DeepCopy \<and>
    deep (pointer_reach triggerstatus_at nowhere) (pointer_tree triggerstatus_at (\<lambda>h. triggerstatus_tree)) TriggerStatus_DeepCopy \<and>
    deep (pointer_reach universe_at (universe_reach F)) (pointer_tree universe_at (universe_tree F)) (Universe_DeepCopy F) \<and>
    deep (pointer_reach universelist_at (universelist_reach F)) (pointer_tree universelist_at (universelist_tree F)) (UniverseList_DeepCopy F) \<and>
    deep (pointer_reach universespec_at (universespec_reach F)) (pointer_tree universespec_at (universespec_tree F)) (UniverseSpec_DeepCopy F) \<and>
    deep (pointer_reach universestatus_at universestatus_reach) (pointer_tree universestatus_at universestatus_tree) UniverseStatus_DeepCopy"
  by (intro conjI deep_pointers [OF assms])

theorem deep_copies_deep_witness:
  "deep (pointer_reach universe_at (universe_reach demo_foreign)) (pointer_tree universe_at (universe_tree demo_foreign))
    (Universe_DeepCopy demo_foreign)"
  using deep_copies_deep [OF demo_foreign_deep] by blast

text \<open>
  C18. A Universe from the cache is safe in the hands of its reader.  The object \<open>DeepCopyObject\<close> answers
  is nil just for nil, never a typed nil pointer; it reads as the original, shares no cell with it, and
  whatever is written through it afterwards, or into memory allocated later, does not show in the
  original.
\<close>

theorem universe_copy_isolated:
  assumes "foreign_deep F"
    and "allocated h (pointer_reach universe_at (universe_reach F) h p)"
    and "run_state (Universe_DeepCopyObject F p) h = (ob, h')"
    and "\<And>a. a < next_addr h' \<Longrightarrow> a \<notin> set (pointer_reach universe_at (universe_reach F) h' (pointer_of ob)) \<Longrightarrow>
      cells h'' a = cells h' a"
  shows "ob = (if p = None then None else Some (''Universe'', pointer_of ob)) \<and>
    pointer_tree universe_at (universe_tree F) h' (pointer_of ob) = pointer_tree universe_at (universe_tree F) h p \<and>
    set (pointer_reach universe_at (universe_reach F) h' (pointer_of ob)) \<inter>
      set (pointer_reach universe_at (universe_reach F) h p) = {} \<and>
    pointer_tree universe_at (universe_tree F) h'' p = pointer_tree universe_at (universe_tree F) h p"
proof -
  obtain q where run: "run_state (Universe_DeepCopy F p) h = (q, h')" and ob: "ob = (if q \<noteq> None then Some (''Universe'', q) else None)"
    using assms(3) by (auto simp: Universe_DeepCopyObject_def split: prod.splits)
  have q: "pointer_of ob = q" using ob by (cases q) (auto simp: pointer_of_def)
  have "q = None \<longleftrightarrow> p = None"
    using run by (auto simp: Universe_DeepCopy_def deep_copy_def split: option.splits prod.splits)
  moreover note universe_copy.reads_the_same [OF assms(1,2) run]
  moreover have "set (pointer_reach universe_at (universe_reach F) h' q) \<inter> set (pointer_reach universe_at (universe_reach F) h p) = {}"
    using universe_copy.unshared(2) [OF assms(1,2) run] assms(2) by (fastforce simp: allocated_def list_all_iff)
  moreover have "pointer_tree universe_at (universe_tree F) h'' p = pointer_tree universe_at (universe_tree F) h p"
    using universe_copy.writes_stay [OF assms(1,2) run] assms(4) unfolding q by blast
  ultimately show ?thesis using ob q by auto
qed

text \<open>The labels of the copy, at address 7, are overwritten; those of the original, at 0, are as they were.\<close>

lemma demo_universe_copy:
  "fst (run_state (Universe_DeepCopyObject demo_foreign (Some 3)) demo_memory) = Some (''Universe'', Some 6)"
  "7 \<in> set (pointer_reach universe_at (universe_reach demo_foreign)
     (snd (run_state (Universe_DeepCopyObject demo_foreign (Some 3)) demo_memory)) (Some 6))"
  "allocated demo_memory (pointer_reach universe_at (universe_reach demo_foreign) demo_memory (Some 3))"
  by code_simp+

theorem universe_copy_isolated_witness:
  "let h' = snd (run_state (Universe_DeepCopyObject demo_foreign (Some 3)) demo_memory);
       h'' = h'\<lparr>cells := (cells h')(7 := StringMap [(''team'', ''other'')])\<rparr>
   in pointer_tree universe_at (universe_tree demo_foreign) h' (Some 6) =
        pointer_tree universe_at (universe_tree demo_foreign) demo_memory (Some 3) \<and>
      pointer_tree universe_at (universe_tree demo_foreign) h'' (Some 3) =
        pointer_tree universe_at (universe_tree demo_foreign) demo_memory (Some 3)"
proof -
  let ?r = "run_state (Universe_DeepCopyObject demo_foreign (Some 3)) demo_memory"
  have r: "?r = (Some (''Universe'', Some 6), snd ?r)" using demo_universe_copy(1) by (metis prod.collapse)
  let ?h'' = "(snd ?r)\<lparr>cells := (cells (snd ?r))(7 := StringMap [(''team'', ''other'')])\<rparr>"
  have w: "cells ?h'' a = cells (snd ?r) a" if "a \<notin> set (pointer_reach universe_at (universe_reach demo_foreign) (snd ?r)
      (pointer_of (Some (''Universe'', Some 6))))" for a
    using that demo_universe_copy(2) by (auto simp: pointer_of_def)
  show ?thesis
    using universe_copy_isolated [OF demo_foreign_deep demo_universe_copy(3) r w] by (simp add: pointer_of_def Let_def)
qed

text \<open>
  The items of a copied list share nothing with one another, even where those of the original do, so
  that a change to one of the Universes of a list is a change to that one alone.
\<close>

theorem copied_items_apart:
  assumes "foreign_deep F"
    and "allocated h (pointer_reach universelist_at (universelist_reach F) h (Some p))"
    and "run_state (UniverseList_DeepCopy F (Some p)) h = (Some q, h')"
    and "ulItems (universelist_at (cells h' q)) = Some a"
    and "i < j" and "j < length (universes_at (cells h' a))"
  shows "set (universe_reach F h' (universes_at (cells h' a) ! i)) \<inter>
    set (universe_reach F h' (universes_at (cells h' a) ! j)) = {}"
proof -
  let ?us = "map (universe_reach F h') (universes_at (cells h' a))"
  have "distinct (pointer_reach universelist_at (universelist_reach F) h' (Some q))"
    by (rule universes_copy.unshared(1) [OF assms(1-3)])
  then have "distinct (concat ?us)"
    using assms(4) by (auto simp: pointer_reach_def universelist_reach_def slice_reach_def)
  moreover have "concat ?us = concat (take j ?us) @ concat (drop j ?us)" by (metis append_take_drop_id concat_append)
  ultimately have "set (concat (take j ?us)) \<inter> set (concat (drop j ?us)) = {}" by (metis distinct_append)
  moreover have "set (?us ! i) \<subseteq> set (concat (take j ?us))" "set (?us ! j) \<subseteq> set (concat (drop j ?us))"
  proof -
    have "?us ! i \<in> set (take j ?us)" using assms(5,6) by (auto simp: in_set_conv_nth intro!: exI [of _ i])
    then show "set (?us ! i) \<subseteq> set (concat (take j ?us))" by auto
    have "?us ! j \<in> set (drop j ?us)" using assms(6) by (auto simp: in_set_conv_nth intro!: exI [of _ 0])
    then show "set (?us ! j) \<subseteq> set (concat (drop j ?us))" by auto
  qed
  ultimately have "set (?us ! i) \<inter> set (?us ! j) = {}" by blast
  then show ?thesis using assms(5,6) by simp
qed

text \<open>Both items of the original are one and the same struct, with the same labels.\<close>

lemma demo_list_copy:
  "fst (run_state (UniverseList_DeepCopy demo_foreign (Some 5)) demo_memory) = Some 6"
  "let h' = snd (run_state (UniverseList_DeepCopy demo_foreign (Some 5)) demo_memory)
   in ulItems (universelist_at (cells h' 6)) = Some 7 \<and> length (universes_at (cells h' 7)) = 2"
  "allocated demo_memory (pointer_reach universelist_at (universelist_reach demo_foreign) demo_memory (Some 5))"
  by code_simp+

theorem copied_items_apart_witness:
  "let h' = snd (run_state (UniverseList_DeepCopy demo_foreign (Some 5)) demo_memory)
   in set (universe_reach demo_foreign h' (universes_at (cells h' 7) ! 0)) \<inter>
     set (universe_reach demo_foreign h' (universes_at (cells h' 7) ! 1)) = {}"
proof -
  let ?r = "run_state (UniverseList_DeepCopy demo_foreign (Some 5)) demo_memory"
  have r: "?r = (Some 6, snd ?r)" using demo_list_copy(1) by (metis prod.collapse)
  show ?thesis
    unfolding Let_def
    by (rule copied_items_apart [OF demo_foreign_deep demo_list_copy(3) r]) (use demo_list_copy(2) in \<open>auto simp: Let_def\<close>)
qed

end
