(* ===== verification/Spec2Isabelle.thy ===== *)
theory Spec2Isabelle
  imports UniverseSync UniverseSettles UniverseObserved UniverseStatus PreviewSpared CrossedLists ClusterAnswers
    Returns ProcessEntry Registration DeepCopyLaws
begin

text \<open>
  A verification development for the multi-verse operator, a Kubernetes operator in Go.  It keeps
  preview environments on Google Cloud, the custom resource \<open>Universe\<close>, and opens and closes them from
  the pull requests of GitHub repositories, the custom resource \<open>Trigger\<close>.

  \<^bold>\<open>The program and how its parts interact.\<close>  Two reconcilers are called by controller-runtime whenever
  their resource changes or asks for another turn.
  \<^item> \<open>UniverseReconciler.Reconcile\<close> (\<^verbatim>\<open>controllers/universe_controller.go\<close>) gets the Universe, goes over the
    templates of ten kinds of Config Connector resources, creates the first one missing and comes back,
    or syncs and awaits those there (\<^verbatim>\<open>controllers/wait.go\<close>, \<^verbatim>\<open>pkg/poll\<close>, \<^verbatim>\<open>pkg/gcloud\<close>), records
    statuses (\<^verbatim>\<open>controllers/sync.go\<close>), sets up each cluster (\<^verbatim>\<open>cluster-admin.go\<close>, \<^verbatim>\<open>velero.go\<close>,
    \<^verbatim>\<open>nginx.go\<close>, \<^verbatim>\<open>external-secrets.go\<close>, \<^verbatim>\<open>resource-patcher.go\<close>, \<^verbatim>\<open>externaldns.go\<close>, \<^verbatim>\<open>pkg/helm\<close>),
    deletes surplus resources, backs up the source cluster and restores into the target, and ends with
    the finalizer (\<^verbatim>\<open>finalizers.go\<close>), the time to live and the observed generation.
  \<^item> \<open>TriggerReconciler.Reconcile\<close> (\<^verbatim>\<open>controllers/trigger_controller.go\<close>) lists the pull requests of each
    repository, makes a Universe for those labelled \<open>preview\<close>, deletes it when they are closed, marks them
    with labels and comments, and keeps a cron job that wakes the Trigger.
  The two communicate through the API server only: the Trigger's \<open>NewUniverse\<close> writes the \<open>Universe\<close> that
  the other reconciler brings up.

  \<^bold>\<open>How it is modelled.\<close>  A Go function with effects is a program of type \<open>prog\<close> (theory \<open>Prelude\<close>): from a
  state to the way its control flow ends (\<open>Next\<close>, \<open>Return\<close>, \<open>Panic\<close>, \<open>Hang\<close>), the calls it made in order
  and the state it leaves.  Early returns are \<open>Return\<close>, a function call is \<open>scope\<close>, \<open>range\<close> loops are
  \<open>foreach\<close>; errors are values of \<open>error option\<close> or of a sum.  The outside world is an arbitrary type
  \<open>'w\<close> and every library call a field of the record \<open>'w services\<close>, so that what the API server, Google
  Cloud, GitHub, Helm and the clock answer is a parameter; what a property takes of them is a named
  hypothesis: \<open>status_keeps\<close>, \<open>update_keeps\<close> and \<open>status_keeps_generation\<close> (an update is answered with
  the stored object), \<open>gets_named\<close> (a get answers an object of that name), \<open>lists_of_kind\<close> (a list
  answers objects of the kind asked for), \<open>created_stay\<close> (what was created is found), \<open>get_sound\<close> (a get of
  the management cluster answers the object or NotFound), \<open>complete_pulls\<close> (a pull request has a number, a
  label a name), \<open>clusters_reachable\<close> (the clients of Google Cloud are made and a connection to a cluster
  succeeds), \<open>time_passes\<close> and \<open>clock_runs\<close> (the clock runs, the backoff is positive, a select is fair).
  Theory \<open>Demo\<close> is a concrete world in which the witnesses run.  The deep copies work on a memory of cells
  instead (theory \<open>GoHeap\<close>), where references are addresses and what two structs share can be said; the
  copies of library structs are parameters there, deep ones by \<open>foreign_deep\<close>, and the scheme builder of
  controller-runtime one with \<open>adds_registered\<close>.

  What the code reads through without a test panics when it is nil: the configuration, clientset and secret
  of a cluster that was not reached, a service of Google Cloud that was not made (\<open>service_get\<close>), a request
  to GitHub that was not made (\<open>comment_and_label\<close>).

  The reconcilers work on values.  That is faithful to the Go code, whose objects are pointers, because
  what they get from the cache is a deep copy (\<open>universe_copy_isolated\<close>) that no other goroutine holds, and
  because the one place that shares a map between two objects, the labels \<open>addmap\<close> puts into a template's
  map and the new resource, is followed by a create and a return from \<open>Reconcile\<close>: only the status update
  after the create still sends the template, of which the API server takes the status alone.

  \<^bold>\<open>Theories.\<close>
  \<^item> \<open>Prelude\<close>: programs, the triples \<open>sat\<close>, \<open>emits\<close> and \<open>traces\<close> with their rule collections, maps and
    strings of Go.
  \<^item> \<open>ApiTypes\<close>: the structs of \<^verbatim>\<open>api/v1alpha1\<close> as records; specifications of Config Connector objects are
    association lists of their fields.
  \<^item> \<open>Services\<close>: the services, their calls as programs, the events, the process environment and the
    discipline of guarded creates.
  \<^item> \<open>Common\<close>: \<^verbatim>\<open>pkg/common\<close>.
  \<^item> \<open>Demo\<close>: the world of the witnesses.
  \<^item> \<open>Poll\<close>: \<^verbatim>\<open>pkg/poll/poll.go\<close>.  The loop is a \<open>partial_function\<close> into \<open>option\<close>, so that a run that
    never ends is a value; no fuel is chosen anywhere.  What a nil, an error and a panic of a wait mean,
    and that a wait with a deadline returns.
  \<^item> \<open>Utils\<close>: \<^verbatim>\<open>controllers/utils.go\<close>, with \<open>addmap\<close> on values and on references.
  \<^item> \<open>Gcloud\<close>: \<^verbatim>\<open>pkg/gcloud\<close>, the statuses of the resources, the connection to a cluster, image tags.
  \<^item> \<open>Wait\<close>: \<^verbatim>\<open>controllers/wait.go\<close>.
  \<^item> \<open>Sync\<close>: \<^verbatim>\<open>controllers/sync.go\<close>, the status table (refined to a map) and the ten listings.
  \<^item> \<open>ClusterAdmin\<close>: \<^verbatim>\<open>controllers/cluster-admin.go\<close>.
  \<^item> \<open>Addons\<close>: \<^verbatim>\<open>velero.go\<close>, \<^verbatim>\<open>nginx.go\<close>, \<^verbatim>\<open>external-secrets.go\<close>, \<^verbatim>\<open>resource-patcher.go\<close>,
    \<^verbatim>\<open>externaldns.go\<close> and \<^verbatim>\<open>pkg/helm/helm.go\<close>; the locale \<open>chart\<close> is the contract of an installation.
  \<^item> \<open>HelmRace\<close>: a call of \<open>deployVelero\<close> cut in two after its last \<open>os.Setenv\<close>, with the login of another
    worker in between: what the rest of the call then does with whose settings.
  \<^item> \<open>ClusterSetup\<close>: the set-up of a cluster and the new host names of restored ingresses.
  \<^item> \<open>UniverseResources\<close>: the ten sections of the Universe's \<open>Reconcile\<close>, each as its own text.
  \<^item> \<open>UniverseSections\<close>: the locale \<open>resource_section\<close>, the contract the ten share, its ten
    interpretations, and the triple \<open>in_order\<close> of a run of all of them.
  \<^item> \<open>UniverseReconcile\<close>: the rest of \<open>Reconcile\<close>, the four ways a run can go, the creates, the finalizer
    (\<open>finalizer_update\<close>) and the time to live (in 64-bit words with Go's wrap-around).
  \<^item> \<open>UniverseSync\<close>: what a sync writes, a clean-up deletes and a section records, against their
    specifications \<open>owned_fields\<close>, \<open>victims\<close> and \<open>recorded\<close>.
  \<^item> \<open>UniverseSettles\<close>: many reconciliations in a row, and after how many a Universe is up.
  \<^item> \<open>UniverseInvariants\<close>: the locale \<open>template_invariant\<close>, invariants of the local Universe through the
    loops over the templates, and \<open>section_invariant\<close>, which extends it to the whole sections, deletes
    included.  They are interpreted in \<open>UniverseObserved\<close>, that an observed generation is not written
    again; \<open>UniverseStatus\<close>, the shape of the status table; \<open>Answers\<close>, that no clusters appear;
    \<open>PreviewSpared\<close>, which Universes the clean-up leaves whole; and \<open>CrossedLists\<close>, that the three sections
    which clean up with the list of another kind never delete one of their own.
  \<^item> \<open>NewUniverse\<close> and \<open>TriggerReconcile\<close>: \<^verbatim>\<open>controllers/trigger_controller.go\<close>, the Universe of a pull
    request and the reconciler; \<open>history\<close>, one pull request through any number of runs of \<open>openPullRequest\<close>
    and \<open>closedPullRequest\<close>, its labels and its environment read off their calls.
  \<^item> \<open>ProcessEntry\<close>: \<^verbatim>\<open>main.go\<close> and the two \<open>SetupWithManager\<close>, with Go's flag syntax and the exit codes.
  \<^item> \<open>Returns\<close>: the triple \<open>runs\<close> of total correctness and that both reconcilers come back.
  \<^item> \<open>Answers\<close>: the judgement \<open>ends\<close>, with which messages a run can panic; the Trigger's reconciliation
    always answers, and which panics are left for a Universe without clusters.
  \<^item> \<open>ClusterAnswers\<close>: \<open>fine\<close>, the same with the values; with \<open>clusters_reachable\<close> the Universe's
    reconciliation always answers, and without it six messages of a panic are possible.
  \<^item> \<open>GoHeap\<close>: memory as cells and the next free address, what a value leads to and reads as, the contract
    \<open>deep\<close> of a copy, the statements the generated copies are made of, and the locale \<open>deep_copied\<close>.
  \<^item> \<open>DeepCopy\<close>: \<^verbatim>\<open>api/v1alpha1/zz_generated.deepcopy.go\<close>, one definition per function; \<open>DeepCopyLaws\<close>: that
    each of them is deep, with the four interpretations of \<open>deep_copied\<close>.
  \<^item> \<open>Registration\<close>: \<^verbatim>\<open>groupversion_info.go\<close> with the \<open>init\<close> functions of the types, \<^verbatim>\<open>pkg/git\<close> and
    \<^verbatim>\<open>pkg/github\<close>.

  \<^bold>\<open>Not modelled.\<close>  Logging, and the progress a clone prints.  Contexts beyond their deadlines: the context
  of a reconciliation is never cancelled.  The TLS settings of a connection, which the code discards.  The
  concurrency of reconciliations but for the Helm login, the one state they share.  The set-up of the
  test suite (\<^verbatim>\<open>controllers/suite_test.go\<close>).  What the libraries do: client-go, controller-runtime, Config
  Connector, Helm, the Google and GitHub clients.
\<close>

end
